(* ===== verification/Float64.thy ===== *)
theory Float64 
  imports Complex_Main 
begin

text \<open>
  Go's float64.  A finite binary64 value is a rational; every arithmetic operation computes
  the exact rational result and rounds it (\<open>fl\<close>) to the nearest value with a 53-bit
  significand, ties to even, as IEEE 754 prescribes.  The exponent range is not bounded, so
  overflow to an infinity, subnormal results and NaN are outside the model; no value the
  repository computes comes near those ranges.

  \<open>fl\<close> is executable.  What the components use of it is proved here: it is monotone,
  symmetric, fixes 0 and every integer of at most 53 bits, and preserves signs.
\<close>

section \<open>Rounding to 53 bits\<close>

type_synonym float64 = rat

fun ilog2 :: "int \<Rightarrow> nat" where
  "ilog2 n = (if n \<le> 1 then 0 else Suc (ilog2 (n div 2)))"

declare ilog2.simps [simp del]

text \<open>The binary exponent of a positive rational: \<open>2 powi expo x \<le> x < 2 powi (expo x + 1)\<close>.\<close>

definition expo :: "rat \<Rightarrow> int" where
  "expo x = (if 1 \<le> x then int (ilog2 \<lfloor>x\<rfloor>) else - int (ilog2 (\<lceil>1 / x\<rceil> - 1)) - 1)"

definition round_half_even :: "rat \<Rightarrow> int" where
  "round_half_even q =
     (let n = \<lfloor>q\<rfloor>; r = q - of_int n
      in if r < 1 / 2 then n else if 1 / 2 < r then n + 1 else if even n then n else n + 1)"

definition fl :: "rat \<Rightarrow> float64" where
  "fl x = (if x = 0 then 0
           else let u = 2 powi (expo \<bar>x\<bar> - 52) in of_int (round_half_even (x / u)) * u)"

definition f_add :: "float64 \<Rightarrow> float64 \<Rightarrow> float64" where
  "f_add x y = fl (x + y)"

definition f_sub :: "float64 \<Rightarrow> float64 \<Rightarrow> float64" where
  "f_sub x y = fl (x - y)"

definition f_mul :: "float64 \<Rightarrow> float64 \<Rightarrow> float64" where
  "f_mul x y = fl (x * y)"

definition f_div :: "float64 \<Rightarrow> float64 \<Rightarrow> float64" where
  "f_div x y = fl (x / y)"

text \<open>
  The conversions \<open>float64(n)\<close> and \<open>int(x)\<close>.  The latter truncates towards zero; what it gives for a
  value outside the 64-bit range is up to the implementation, and is the least integer on amd64, for
  which the programs are built.
\<close>

definition f_of_int :: "int \<Rightarrow> float64" where
  "f_of_int n = fl (of_int n)"

definition f_trunc :: "float64 \<Rightarrow> int" where
  "f_trunc x = (if 0 \<le> x then \<lfloor>x\<rfloor> else \<lceil>x\<rceil>)"

definition f_to_int :: "float64 \<Rightarrow> int" where
  "f_to_int x = (if - (2 ^ 63) \<le> f_trunc x \<and> f_trunc x < 2 ^ 63 then f_trunc x else - (2 ^ 63))"

lemmas f_defs = f_add_def f_sub_def f_mul_def f_div_def f_of_int_def f_to_int_def f_trunc_def

section \<open>The exponent\<close>

lemma ilog2_bounds: "1 \<le> n \<Longrightarrow> 2 ^ ilog2 n \<le> n \<and> n < 2 ^ Suc (ilog2 n)"
proof (induction n rule: ilog2.induct)
  case (1 n)
  show ?case
  proof (cases "n \<le> 1")
    case True
    with "1.prems" have "n = 1" by simp
    then show ?thesis by (simp add: ilog2.simps [of 1])
  next
    case False
    with "1.IH" have "2 ^ ilog2 (n div 2) \<le> n div 2 \<and> n div 2 < 2 ^ Suc (ilog2 (n div 2))"
      by simp
    with False show ?thesis by (simp add: ilog2.simps [of n]) arith
  qed
qed

lemma expo_lower_ge1: "1 \<le> x \<Longrightarrow> 2 powi expo x \<le> x \<and> x < 2 powi (expo x + 1)"
proof -
  assume x: "1 \<le> x"
  then have "1 \<le> \<lfloor>x\<rfloor>" by simp
  from ilog2_bounds [OF this]
  have b: "(2::int) ^ ilog2 \<lfloor>x\<rfloor> \<le> \<lfloor>x\<rfloor>" "\<lfloor>x\<rfloor> < 2 ^ Suc (ilog2 \<lfloor>x\<rfloor>)" by auto
  from b(1) have "of_int (2 ^ ilog2 \<lfloor>x\<rfloor>) \<le> x" by (simp only: le_floor_iff)
  moreover from b(2) have "x < of_int (2 ^ Suc (ilog2 \<lfloor>x\<rfloor>))" by (simp only: floor_less_iff)
  ultimately show ?thesis using x by (simp add: expo_def power_int_add)
qed

lemma expo_less1: "0 < x \<Longrightarrow> x < 1 \<Longrightarrow> 2 powi expo x \<le> x \<and> x < 2 powi (expo x + 1)"
proof -
  assume x: "0 < x" "x < 1"
  let ?c = "\<lceil>1 / x\<rceil> - 1"
  from x have "1 < 1 / x" by simp
  then have "1 < \<lceil>1 / x\<rceil>" by simp
  then have "1 \<le> ?c" by simp
  from ilog2_bounds [OF this]
  have b: "(2::int) ^ ilog2 ?c < \<lceil>1 / x\<rceil>" "\<lceil>1 / x\<rceil> \<le> 2 ^ Suc (ilog2 ?c)" by auto
  from b(1) have l: "of_int (2 ^ ilog2 ?c) < 1 / x" by (simp only: less_ceiling_iff)
  from b(2) have u: "1 / x \<le> of_int (2 ^ Suc (ilog2 ?c))" by (simp only: ceiling_le_iff)
  have e: "expo x = - int (Suc (ilog2 ?c))" using x by (simp add: expo_def)
  from l x have "x < 1 / 2 ^ ilog2 ?c" by (simp add: field_simps)
  moreover from u x have "1 / 2 ^ Suc (ilog2 ?c) \<le> x" by (simp add: field_simps)
  ultimately show ?thesis unfolding e by (simp add: power_int_minus field_simps del: of_nat_Suc power_Suc)
    (simp add: power_int_minus field_simps power_int_add)
qed

lemma expo_bounds: "0 < x \<Longrightarrow> 2 powi expo x \<le> x \<and> x < 2 powi (expo x + 1)"
  using expo_lower_ge1 expo_less1 by (cases "1 \<le> x") auto

section \<open>Rounding to an integer\<close>

lemma round_half_even_of_int [simp]: "round_half_even (of_int n) = n"
  by (simp add: round_half_even_def)

lemma round_half_even_bounds:
  "\<lfloor>q\<rfloor> \<le> round_half_even q \<and> round_half_even q \<le> \<lceil>q\<rceil>"
proof (cases "q = of_int \<lfloor>q\<rfloor>")
  case True
  then have "round_half_even q = \<lfloor>q\<rfloor>" by (metis round_half_even_of_int)
  then show ?thesis by (simp add: floor_le_ceiling)
next
  case False
  then have "\<lceil>q\<rceil> = \<lfloor>q\<rfloor> + 1" by (simp add: ceiling_altdef)
  then show ?thesis by (simp add: round_half_even_def Let_def)
qed

lemma round_half_even_mono:
  assumes "p \<le> q"
  shows "round_half_even p \<le> round_half_even q"
proof (cases "\<lfloor>p\<rfloor> = \<lfloor>q\<rfloor>")
  case True
  with assms show ?thesis by (auto simp: round_half_even_def Let_def)
next
  case False
  with assms have "\<lfloor>p\<rfloor> + 1 \<le> \<lfloor>q\<rfloor>" using floor_mono [OF assms] by simp
  moreover have "round_half_even p \<le> \<lfloor>p\<rfloor> + 1" by (simp add: round_half_even_def Let_def)
  ultimately show ?thesis using round_half_even_bounds [of q] by linarith
qed

lemma round_half_even_minus: "round_half_even (- q) = - round_half_even q"
proof (cases "q = of_int \<lfloor>q\<rfloor>")
  case True
  then show ?thesis by (metis of_int_minus round_half_even_of_int)
next
  case False
  then have "\<lfloor>- q\<rfloor> = - \<lfloor>q\<rfloor> - 1" by (simp add: floor_minus ceiling_altdef)
  then show ?thesis by (auto simp: round_half_even_def Let_def)
qed

section \<open>Properties of the rounding\<close>

lemma fl_zero [simp]: "fl 0 = 0"
  by (simp add: fl_def)

lemma fl_minus: "fl (- x) = - fl x"
  by (simp add: fl_def Let_def round_half_even_minus)

lemma powi_scale: "(2::rat) powi e = 2 ^ 52 * 2 powi (e - 52)"
  by (simp add: power_int_diff)

text \<open>A positive value stays between the powers of two around it.\<close>

lemma fl_binade:
  assumes "0 < x"
  shows "2 powi expo x \<le> fl x \<and> fl x \<le> 2 powi (expo x + 1)"
proof -
  let ?u = "(2::rat) powi (expo x - 52)"
  have u: "0 < ?u" by simp
  have lo: "of_int (2 ^ 52) \<le> x / ?u"
    using expo_bounds [OF assms] u powi_scale [of "expo x"] by (simp add: pos_le_divide_eq)
  have hi: "x / ?u \<le> of_int (2 ^ 53)"
    using expo_bounds [OF assms] u powi_scale [of "expo x"]
    by (simp add: pos_divide_le_eq power_int_add)
  have "(2::int) ^ 52 \<le> round_half_even (x / ?u)"
    using round_half_even_mono [OF lo] unfolding round_half_even_of_int .
  then have "(2::rat) ^ 52 \<le> of_int (round_half_even (x / ?u))"
    by (metis of_int_le_iff of_int_numeral of_int_power)
  moreover have "round_half_even (x / ?u) \<le> (2::int) ^ 53"
    using round_half_even_mono [OF hi] unfolding round_half_even_of_int .
  then have "of_int (round_half_even (x / ?u)) \<le> (2::rat) ^ 53"
    by (metis of_int_le_iff of_int_numeral of_int_power)
  ultimately have "2 ^ 52 * ?u \<le> fl x \<and> fl x \<le> 2 ^ 53 * ?u"
    using assms u by (simp add: fl_def Let_def)
  then show ?thesis using powi_scale [of "expo x"] by (simp add: power_int_add)
qed

lemma expo_mono:
  assumes "0 < x" and "x \<le> y"
  shows "expo x \<le> expo y"
proof (rule ccontr)
  assume "\<not> expo x \<le> expo y"
  then have "(2::rat) powi (expo y + 1) \<le> 2 powi expo x"
    by (intro power_int_increasing) auto
  with expo_bounds [of x] expo_bounds [of y] assms show False by simp
qed

lemma fl_mono_pos:
  assumes "0 < x" and "x \<le> y"
  shows "fl x \<le> fl y"
proof (cases "expo x = expo y")
  case True
  with assms show ?thesis
    by (simp add: fl_def Let_def mult_right_mono round_half_even_mono divide_right_mono)
next
  case False
  with expo_mono [OF assms] have "(2::rat) powi (expo x + 1) \<le> 2 powi expo y"
    by (intro power_int_increasing) auto
  moreover from assms have "0 < y" by simp
  ultimately show ?thesis
    using fl_binade [OF assms(1)] fl_binade [of y] by linarith
qed

lemma fl_pos: "0 < x \<Longrightarrow> 0 < fl x"
  using fl_binade [of x] zero_less_power_int [of "2::rat" "expo x"] by linarith

lemma fl_nonneg: "0 \<le> x \<Longrightarrow> 0 \<le> fl x"
  using fl_pos [of x] by (cases "x = 0") auto

theorem fl_mono:
  assumes "x \<le> y"
  shows "fl x \<le> fl y"
proof -
  consider "0 < x" | "x \<le> 0" "0 \<le> y" | "y < 0" by linarith
  then show ?thesis
  proof cases
    case 1
    then show ?thesis using fl_mono_pos assms by simp
  next
    case 2
    then have "0 \<le> fl (- x)" and "0 \<le> fl y" by (simp_all add: fl_nonneg)
    then show ?thesis by (simp add: fl_minus)
  next
    case 3
    then have "fl (- y) \<le> fl (- x)" using fl_mono_pos [of "- y" "- x"] assms by simp
    then show ?thesis by (simp add: fl_minus)
  qed
qed

text \<open>Integers of at most 53 bits are exact.\<close>

lemma fl_of_int_pos:
  assumes "0 < n" and "n \<le> 2 ^ 53"
  shows "fl (of_int n) = of_int n"
proof -
  let ?x = "of_int n :: rat"
  have pos: "0 < ?x" using assms by simp
  have e: "expo ?x - 52 \<le> 1"
  proof (rule ccontr)
    assume "\<not> expo ?x - 52 \<le> 1"
    then have "(2::rat) powi 54 \<le> 2 powi expo ?x" by (intro power_int_increasing) auto
    with expo_bounds [OF pos] have "(2::rat) ^ 54 \<le> of_int n" by simp
    then have "(2::int) ^ 54 \<le> n" by (metis of_int_le_iff of_int_numeral of_int_power)
    with assms show False by simp
  qed
  have "\<exists>m. ?x / 2 powi (expo ?x - 52) = of_int m"
  proof (cases "expo ?x - 52 = 1")
    case True
    then have "(2::rat) powi 53 \<le> ?x" using expo_bounds [OF pos] by (simp add: algebra_simps)
    then have "(2::rat) ^ 53 \<le> of_int n" by simp
    then have "(2::int) ^ 53 \<le> n" by (metis of_int_le_iff of_int_numeral of_int_power)
    with assms have "n = 2 ^ 53" by simp
    then have "?x / 2 powi (expo ?x - 52) = of_int (2 ^ 52)" unfolding True by simp
    then show ?thesis ..
  next
    case False
    define k where "k = nat (52 - expo ?x)"
    with False e have "expo ?x - 52 = - int k" by simp
    then have "?x / 2 powi (expo ?x - 52) = of_int (n * 2 ^ k)"
      by (simp add: power_int_minus divide_inverse)
    then show ?thesis ..
  qed
  then obtain m where m: "?x / 2 powi (expo ?x - 52) = of_int m" ..
  with assms have "fl ?x = ?x / 2 powi (expo ?x - 52) * 2 powi (expo ?x - 52)"
    by (simp add: fl_def Let_def)
  then show ?thesis by simp
qed

lemma fl_of_int:
  assumes "\<bar>n\<bar> \<le> 2 ^ 53"
  shows "fl (of_int n) = of_int n"
proof -
  consider "n = 0" | "0 < n" | "0 < - n" by linarith
  then show ?thesis
  proof cases
    case 3
    with assms have "fl (of_int (- n)) = of_int (- n)" by (intro fl_of_int_pos) auto
    then show ?thesis by (simp add: fl_minus)
  qed (use assms fl_of_int_pos in auto)
qed

lemma f_of_int_nonneg: "0 \<le> n \<Longrightarrow> 0 \<le> f_of_int n"
  by (simp add: f_of_int_def fl_nonneg)

lemma f_of_int_mono: "m \<le> n \<Longrightarrow> f_of_int m \<le> f_of_int n"
  by (simp add: f_of_int_def fl_mono)

lemma f_mul_nonneg: "0 \<le> x \<Longrightarrow> 0 \<le> y \<Longrightarrow> 0 \<le> f_mul x y"
  by (simp add: f_mul_def fl_nonneg)

lemma f_mul_mono_right: "0 \<le> x \<Longrightarrow> y \<le> z \<Longrightarrow> f_mul x y \<le> f_mul x z"
  by (simp add: f_mul_def fl_mono mult_left_mono)

lemma f_add_nonneg: "0 \<le> x \<Longrightarrow> 0 \<le> y \<Longrightarrow> 0 \<le> f_add x y"
  by (simp add: f_add_def fl_nonneg)

lemma f_add_mono: "x \<le> x' \<Longrightarrow> y \<le> y' \<Longrightarrow> f_add x y \<le> f_add x' y'"
  by (simp add: f_add_def fl_mono add_mono)

lemma f_trunc_nonneg: "0 \<le> x \<Longrightarrow> 0 \<le> f_trunc x"
  by (simp add: f_trunc_def)

lemma f_trunc_mono: "x \<le> y \<Longrightarrow> f_trunc x \<le> f_trunc y"
  by (auto simp: f_trunc_def floor_mono ceiling_mono intro: order_trans [of _ 0 "_ :: int"])

lemma f_to_int_cases:
  "0 \<le> x \<Longrightarrow> f_trunc x < 2 ^ 63 \<Longrightarrow> f_to_int x = f_trunc x"
  "2 ^ 63 \<le> x \<Longrightarrow> f_to_int x = - (2 ^ 63)"
proof -
  show "f_to_int x = f_trunc x" if "0 \<le> x" "f_trunc x < 2 ^ 63"
    using that f_trunc_nonneg [OF that(1)] by (simp add: f_to_int_def)
  show "f_to_int x = - (2 ^ 63)" if "2 ^ 63 \<le> x"
  proof -
    have "2 ^ 63 \<le> f_trunc x" using that by (simp add: f_trunc_def le_floor_iff)
    then show ?thesis by (simp add: f_to_int_def)
  qed
qed

lemma f_to_int_range: "- (2 ^ 63) \<le> f_to_int x" "f_to_int x < 2 ^ 63"
  by (simp_all add: f_to_int_def)

lemma fl_1: "fl 1 = 1"
  using fl_of_int [of 1] by simp

lemma f_div_le_1:
  assumes "0 \<le> h" and "h \<le> q" and "0 < q"
  shows "0 \<le> f_div (f_of_int h) (f_of_int q) \<and> f_div (f_of_int h) (f_of_int q) \<le> 1"
proof -
  have "0 \<le> f_of_int h" "f_of_int h \<le> f_of_int q" "0 < f_of_int q"
    using assms f_of_int_nonneg f_of_int_mono fl_pos [of "of_int q"] by (auto simp: f_of_int_def)
  then have "0 \<le> f_of_int h / f_of_int q" "f_of_int h / f_of_int q \<le> 1" by (simp_all add: divide_le_eq)
  then have "0 \<le> fl (f_of_int h / f_of_int q)" "fl (f_of_int h / f_of_int q) \<le> fl 1" by (simp_all add: fl_nonneg fl_mono)
  then show ?thesis by (simp add: f_div_def fl_1)
qed

end
