(* ===== verification/Go_Lib.thy ===== *)
theory Go_Lib
  imports Float64 "HOL-Library.Sublist"
begin

text \<open>
  The functions of Go's standard library that the repository calls, on \<open>string\<close> as the byte
  sequence a Go string is: \<open>strings\<close> (HasPrefix, TrimPrefix, Split, SplitN, Join, Fields,
  TrimSpace, ToLower, Contains, LastIndex, ReplaceAll), \<open>strconv\<close> (Itoa, Atoi, ParseUint,
  Quote), \<open>encoding/hex\<close> (EncodeToString) and \<open>time.ParseDuration\<close>.  White space and letter
  case are those of ASCII: Go's tables for other code points are not reproduced.
\<close>

section \<open>strings\<close>

abbreviation (input) newline :: char where "newline \<equiv> CHR 0x0A"

definition HasPrefix :: "string \<Rightarrow> string \<Rightarrow> bool" where
  "HasPrefix s p \<longleftrightarrow> take (length p) s = p"

definition TrimPrefix :: "string \<Rightarrow> string \<Rightarrow> string" where
  "TrimPrefix s p = (if HasPrefix s p then drop (length p) s else s)"

text \<open>\<open>strings.Split(s, sep)\<close> for a separator of one byte.\<close>

fun Split :: "string \<Rightarrow> char \<Rightarrow> string list" where
  "Split [] c = [[]]"
| "Split (x # xs) c =
     (if x = c then [] # Split xs c
      else (case Split xs c of [] \<Rightarrow> [[x]] | p # ps \<Rightarrow> (x # p) # ps))"

text \<open>\<open>strings.SplitN(s, sep, 2)\<close>: at most one cut, at the first separator.\<close>

fun SplitN2 :: "string \<Rightarrow> char \<Rightarrow> string list" where
  "SplitN2 [] c = [[]]"
| "SplitN2 (x # xs) c =
     (if x = c then [[], xs]
      else (case SplitN2 xs c of [] \<Rightarrow> [[x]] | p # ps \<Rightarrow> (x # p) # ps))"

fun Join :: "string list \<Rightarrow> string \<Rightarrow> string" where
  "Join [] sep = []"
| "Join [x] sep = x"
| "Join (x # y # ys) sep = x @ sep @ Join (y # ys) sep"

definition isSpace :: "char \<Rightarrow> bool" where
  "isSpace c \<longleftrightarrow> c \<in> {CHR '' '', CHR 0x09, CHR 0x0A, CHR 0x0B, CHR 0x0C, CHR 0x0D}"

definition TrimSpace :: "string \<Rightarrow> string" where
  "TrimSpace s = rev (dropWhile isSpace (rev (dropWhile isSpace s)))"

fun fieldsAux :: "string \<Rightarrow> string \<Rightarrow> string list" where
  "fieldsAux [] acc = (if acc = [] then [] else [rev acc])"
| "fieldsAux (x # xs) acc =
     (if isSpace x then (if acc = [] then fieldsAux xs [] else rev acc # fieldsAux xs [])
      else fieldsAux xs (x # acc))"

definition Fields :: "string \<Rightarrow> string list" where
  "Fields s = fieldsAux s []"

text \<open>The result of an operation on \<open>int\<close> that may overflow: the 64-bit two's complement.\<close>

definition wrap64 :: "int \<Rightarrow> int" where
  "wrap64 n = (n + 2 ^ 63) mod 2 ^ 64 - 2 ^ 63"

lemma wrap64_id: "- (2 ^ 63) \<le> n \<Longrightarrow> n < 2 ^ 63 \<Longrightarrow> wrap64 n = n"
  by (simp add: wrap64_def mod_pos_pos_trivial)

definition toLowerChar :: "char \<Rightarrow> char" where
  "toLowerChar c =
     (let n = of_char c :: nat in if 65 \<le> n \<and> n \<le> 90 then char_of (n + 32) else c)"

definition ToLower :: "string \<Rightarrow> string" where
  "ToLower s = map toLowerChar s"

fun Contains :: "string \<Rightarrow> string \<Rightarrow> bool" where
  "Contains [] sub = (sub = [])"
| "Contains (x # xs) sub = (HasPrefix (x # xs) sub \<or> Contains xs sub)"

text \<open>\<open>strings.LastIndex(s, sep)\<close> for a separator of one byte; -1 when it does not occur.\<close>

fun LastIndex :: "string \<Rightarrow> char \<Rightarrow> int" where
  "LastIndex [] c = -1"
| "LastIndex (x # xs) c =
     (let r = LastIndex xs c in if 0 \<le> r then r + 1 else if x = c then 0 else -1)"

text \<open>\<open>strings.ReplaceAll(s, old, new)\<close> for strings of one byte.\<close>

definition ReplaceAll :: "string \<Rightarrow> char \<Rightarrow> char \<Rightarrow> string" where
  "ReplaceAll s old new = map (\<lambda>c. if c = old then new else c) s"

text \<open>The order of strings, byte by byte.\<close>

fun strLess :: "string \<Rightarrow> string \<Rightarrow> bool" where
  "strLess [] t = (t \<noteq> [])"
| "strLess (x # xs) [] = False"
| "strLess (x # xs) (y # ys) =
     ((of_char x :: nat) < of_char y \<or> x = y \<and> strLess xs ys)"

lemma strLess_irrefl: "\<not> strLess s s"
  by (induction s) auto

lemma strLess_trans: "strLess s t \<Longrightarrow> strLess t u \<Longrightarrow> strLess s u"
proof (induction s t arbitrary: u rule: strLess.induct)
  case (1 t)
  then show ?case by (cases t; cases u) auto
next
  case (3 x xs y ys)
  then show ?case by (cases u) auto
qed auto

lemma strLess_total: "strLess s t \<or> s = t \<or> strLess t s"
proof (induction s t rule: strLess.induct)
  case (1 t)
  then show ?case by (cases t) auto
next
  case (3 x xs y ys)
  have "x = y" if "(of_char x :: nat) = of_char y" using that by simp
  with 3 show ?case by (auto simp: not_less)
qed auto

lemma HasPrefix_append [simp]: "HasPrefix (p @ s) p"
  by (simp add: HasPrefix_def)

lemma HasPrefix_iff: "HasPrefix s p \<longleftrightarrow> (\<exists>t. s = p @ t)"
  unfolding HasPrefix_def by (metis append_eq_conv_conj append_take_drop_id)

lemma TrimPrefix_append [simp]: "TrimPrefix (p @ s) p = s"
  by (simp add: TrimPrefix_def)

lemma Split_nonempty [simp]: "Split s c \<noteq> []"
  by (cases s) (auto split: list.split)

lemma Split_no_sep: "c \<notin> set s \<Longrightarrow> Split s c = [s]"
  by (induction s) auto

lemma Split_append_sep: "Split (s @ c # t) c = Split s c @ Split t c"
proof (induction s)
  case (Cons x s)
  then show ?case by (cases "Split s c") (auto split: list.splits)
qed simp

lemma last_Split_append: "c \<notin> set t \<Longrightarrow> last (Split (s @ c # t) c) = t"
  by (simp add: Split_append_sep Split_no_sep)

lemma Split_elem_no_sep: "p \<in> set (Split s c) \<Longrightarrow> c \<notin> set p"
  by (induction s arbitrary: p) (auto split: if_splits list.splits)

lemma SplitN2_no_sep: "c \<notin> set s \<Longrightarrow> SplitN2 s c = [s]"
  by (induction s) auto

lemma SplitN2_append: "c \<notin> set s \<Longrightarrow> SplitN2 (s @ c # t) c = [s, t]"
  by (induction s) auto

lemma SplitN2_cases:
  "(c \<notin> set s \<and> SplitN2 s c = [s]) \<or> (\<exists>a b. s = a @ c # b \<and> c \<notin> set a \<and> SplitN2 s c = [a, b])"
proof (cases "c \<in> set s")
  case True
  then obtain a b where "s = a @ c # b" and "c \<notin> set a" by (meson split_list_first)
  then show ?thesis using SplitN2_append by blast
qed (simp add: SplitN2_no_sep)

lemma LastIndex_ge: "-1 \<le> LastIndex s c"
  by (induction s) (auto simp: Let_def)

lemma LastIndex_less: "LastIndex s c < int (length s)"
  by (induction s) (auto simp: Let_def)

lemma LastIndex_none: "LastIndex s c = -1 \<longleftrightarrow> c \<notin> set s"
proof (induction s)
  case (Cons x s)
  with LastIndex_ge [of s c] show ?case by (auto simp: Let_def)
qed simp

lemma LastIndex_last: "c \<notin> set t \<Longrightarrow> LastIndex (s @ c # t) c = int (length s)"
  using LastIndex_none [of t c] by (induction s) (auto simp: Let_def)

section \<open>strconv\<close>

definition digitChar :: "int \<Rightarrow> char" where
  "digitChar d = char_of (48 + d)"

definition isDigit :: "char \<Rightarrow> bool" where
  "isDigit c \<longleftrightarrow> (of_char c :: int) \<in> {48..57}"

definition digitVal :: "char \<Rightarrow> int" where
  "digitVal c = of_char c - 48"

function itoaNat :: "int \<Rightarrow> string" where
  "itoaNat n = (if n < 10 then [digitChar n] else itoaNat (n div 10) @ [digitChar (n mod 10)])"
  by pat_completeness auto
termination
  by (relation "measure nat") auto

declare itoaNat.simps [simp del]

definition Itoa :: "int \<Rightarrow> string" where
  "Itoa n = (if n < 0 then CHR ''-'' # itoaNat (- n) else itoaNat n)"

fun digitsVal :: "int \<Rightarrow> string \<Rightarrow> int option" where
  "digitsVal acc [] = Some acc"
| "digitsVal acc (c # cs) = (if isDigit c then digitsVal (acc * 10 + digitVal c) cs else None)"

definition parseDigits :: "string \<Rightarrow> int option" where
  "parseDigits s = (if s = [] then None else digitsVal 0 s)"

text \<open>\<open>strconv.Atoi\<close>: an optional sign and decimal digits, within the 64-bit range.\<close>

definition Atoi :: "string \<Rightarrow> int option" where
  "Atoi s =
     (let (neg, ds) = (case s of
          [] \<Rightarrow> (False, [])
        | c # cs \<Rightarrow> if c = CHR ''-'' then (True, cs) else if c = CHR ''+'' then (False, cs) else (False, s))
      in case parseDigits ds of
           None \<Rightarrow> None
         | Some v \<Rightarrow>
             let n = (if neg then - v else v)
             in if - (2 ^ 63) \<le> n \<and> n < 2 ^ 63 then Some n else None)"

text \<open>
  \<open>strconv.ParseUint(s, 10, 64)\<close>: the value and whether the error is nil.  A syntax error
  comes with the value 0, a value out of range with the largest uint64.
\<close>

definition ParseUint :: "string \<Rightarrow> int \<times> bool" where
  "ParseUint s =
     (case parseDigits s of
        None \<Rightarrow> (0, False)
      | Some v \<Rightarrow> if v < 2 ^ 64 then (v, True) else (2 ^ 64 - 1, False))"

lemma digitChar_props:
  assumes "0 \<le> d" and "d < 10"
  shows "isDigit (digitChar d)" and "digitVal (digitChar d) = d"
    and "digitChar d \<noteq> CHR ''-''" and "digitChar d \<noteq> CHR ''+''" and "\<not> isSpace (digitChar d)"
proof -
  have v: "(of_char (digitChar d) :: int) = 48 + d"
    using assms by (simp add: digitChar_def)
  then show "isDigit (digitChar d)" and "digitVal (digitChar d) = d"
    using assms by (simp_all add: isDigit_def digitVal_def)
  show "digitChar d \<noteq> CHR ''-''" and "digitChar d \<noteq> CHR ''+''" and "\<not> isSpace (digitChar d)"
    using v assms by (auto simp: isSpace_def)
qed

lemma itoaNat_nonempty [simp]: "itoaNat n \<noteq> []"
  by (subst itoaNat.simps) simp

lemma digitsVal_append:
  "digitsVal acc (xs @ ys) = (case digitsVal acc xs of None \<Rightarrow> None | Some v \<Rightarrow> digitsVal v ys)"
  by (induction xs arbitrary: acc) auto

lemma digitsVal_itoaNat: "0 \<le> n \<Longrightarrow> digitsVal 0 (itoaNat n) = Some n"
proof (induction n rule: itoaNat.induct)
  case (1 n)
  show ?case
  proof (cases "n < 10")
    case True
    with "1.prems" show ?thesis by (simp add: itoaNat.simps [of n] digitChar_props)
  next
    case False
    with "1.IH" have "digitsVal 0 (itoaNat (n div 10)) = Some (n div 10)" by simp
    with False show ?thesis
      by (simp add: itoaNat.simps [of n] digitsVal_append digitChar_props)
  qed
qed

lemma itoaNat_chars: "0 \<le> n \<Longrightarrow> c \<in> set (itoaNat n) \<Longrightarrow> \<exists>d. c = digitChar d \<and> 0 \<le> d \<and> d < 10"
proof (induction n rule: itoaNat.induct)
  case (1 n)
  show ?case
  proof (cases "n < 10")
    case True
    with "1.prems" show ?thesis by (auto simp: itoaNat.simps [of n])
  next
    case False
    then have "0 \<le> n mod 10" "n mod 10 < 10" by simp_all
    with False "1.prems" "1.IH" show ?thesis by (auto simp: itoaNat.simps [of n])
  qed
qed

lemma Itoa_chars:
  "c \<in> set (Itoa n) \<Longrightarrow> c = CHR ''-'' \<or> (\<exists>d. c = digitChar d \<and> 0 \<le> d \<and> d < 10)"
  by (auto simp: Itoa_def dest: itoaNat_chars [rotated] split: if_splits)

lemma Itoa_not_in: "\<not> isDigit c \<Longrightarrow> c \<noteq> CHR ''-'' \<Longrightarrow> c \<notin> set (Itoa n)"
  using Itoa_chars [of c n] digitChar_props(1) by auto

lemma Itoa_no_space: "c \<in> set (Itoa n) \<Longrightarrow> \<not> isSpace c"
  using Itoa_chars [of c n] digitChar_props(5) by (auto simp: isSpace_def)

lemma hd_itoaNat: "0 \<le> n \<Longrightarrow> hd (itoaNat n) \<noteq> CHR ''-'' \<and> hd (itoaNat n) \<noteq> CHR ''+''"
  using itoaNat_chars [of n "hd (itoaNat n)"] digitChar_props by force

theorem Atoi_Itoa: "- (2 ^ 63) \<le> n \<Longrightarrow> n < 2 ^ 63 \<Longrightarrow> Atoi (Itoa n) = Some n"
proof (cases "n < 0")
  case True
  moreover assume "- (2 ^ 63) \<le> n" "n < 2 ^ 63"
  ultimately show ?thesis
    by (simp add: Atoi_def Itoa_def parseDigits_def digitsVal_itoaNat)
next
  case False
  moreover assume "- (2 ^ 63) \<le> n" "n < 2 ^ 63"
  moreover obtain c cs where "itoaNat n = c # cs" by (meson itoaNat_nonempty neq_Nil_conv)
  moreover from this False have "c \<noteq> CHR ''-''" "c \<noteq> CHR ''+''" using hd_itoaNat [of n] by auto
  ultimately show ?thesis
    using digitsVal_itoaNat [of n] by (auto simp: Atoi_def Itoa_def parseDigits_def)
qed

lemma ParseUint_Itoa: "0 \<le> n \<Longrightarrow> n < 2 ^ 64 \<Longrightarrow> ParseUint (Itoa n) = (n, True)"
  by (simp add: ParseUint_def parseDigits_def Itoa_def digitsVal_itoaNat)

lemma Itoa_inject: "Itoa m = Itoa n \<Longrightarrow> m = n"
proof -
  have val: "(if k < 0 then - the (digitsVal 0 (tl (Itoa k))) else the (digitsVal 0 (Itoa k))) = k" for k
    by (simp add: Itoa_def digitsVal_itoaNat)
  have neg: "k < 0 \<longleftrightarrow> hd (Itoa k) = CHR ''-''" for k
    using hd_itoaNat [of k] by (auto simp: Itoa_def)
  assume "Itoa m = Itoa n"
  then show ?thesis using val [of m] val [of n] neg [of m] neg [of n] by metis
qed

text \<open>
  \<open>strconv.Quote\<close> (the verb \<open>%q\<close>) on ASCII: the two escaped punctuation marks, the named
  control characters, and \<open>x\<close>-escapes for the other bytes that do not print.
\<close>

definition hexDigit :: "nat \<Rightarrow> char" where
  "hexDigit d = (if d < 10 then char_of (48 + d) else char_of (87 + d))"

definition hexByte :: "nat \<Rightarrow> string" where
  "hexByte b = [hexDigit (b div 16), hexDigit (b mod 16)]"

definition quoteChar :: "char \<Rightarrow> string" where
  "quoteChar c =
     (let n = of_char c :: nat; esc = (\<lambda>x. [CHR 0x5C, x])
      in if c = CHR 0x5C \<or> c = CHR 0x22 then esc c
         else if n = 7 then esc (CHR ''a'') else if n = 8 then esc (CHR ''b'')
         else if n = 12 then esc (CHR ''f'') else if n = 10 then esc (CHR ''n'')
         else if n = 13 then esc (CHR ''r'') else if n = 9 then esc (CHR ''t'')
         else if n = 11 then esc (CHR ''v'')
         else if 32 \<le> n \<and> n < 127 then [c]
         else esc (CHR ''x'') @ hexByte n)"

definition Quote :: "string \<Rightarrow> string" where
  "Quote s = CHR 0x22 # concat (map quoteChar s) @ [CHR 0x22]"

text \<open>\<open>hex.EncodeToString\<close> on a list of bytes.\<close>

definition EncodeToString :: "nat list \<Rightarrow> string" where
  "EncodeToString bs = concat (map hexByte bs)"

lemma EncodeToString_length: "length (EncodeToString bs) = 2 * length bs"
  by (induction bs) (auto simp: EncodeToString_def hexByte_def)

section \<open>time.ParseDuration\<close>

text \<open>
  A duration is a number of nanoseconds.  The loop consumes one number with its unit per
  round, so it makes progress on every round; \<open>leadingInt\<close> and \<open>leadingFraction\<close> are the
  helpers of the same name in Go's \<open>time\<close> package, with their overflow tests.
\<close>

type_synonym duration = int

definition nanosecond :: duration where "nanosecond = 1"
definition second :: duration where "second = 10 ^ 9"
definition minute :: duration where "minute = 60 * 10 ^ 9"
definition hour :: duration where "hour = 3600 * 10 ^ 9"

fun leadingInt :: "int \<Rightarrow> string \<Rightarrow> (int \<times> string) option" where
  "leadingInt x [] = Some (x, [])"
| "leadingInt x (c # cs) =
     (if \<not> isDigit c then Some (x, c # cs)
      else if 2 ^ 63 div 10 < x then None
      else let y = x * 10 + digitVal c in if 2 ^ 63 < y then None else leadingInt y cs)"

text \<open>The fraction's digits as an integer, the power of ten below them, and whether digits were dropped.\<close>

fun leadingFraction :: "int \<Rightarrow> int \<Rightarrow> bool \<Rightarrow> string \<Rightarrow> int \<times> int \<times> string" where
  "leadingFraction x scale ov [] = (x, scale, [])"
| "leadingFraction x scale ov (c # cs) =
     (if \<not> isDigit c then (x, scale, c # cs)
      else if ov then leadingFraction x scale ov cs
      else if (2 ^ 63 - 1) div 10 < x then leadingFraction x scale True cs
      else let y = x * 10 + digitVal c
           in if 2 ^ 63 < y then leadingFraction x scale True cs
              else leadingFraction y (scale * 10) ov cs)"

definition unitMap :: "string \<Rightarrow> int option" where
  "unitMap u =
     (if u = ''ns'' then Some nanosecond
      else if u = ''us'' \<or> u = [CHR 0xC2, CHR 0xB5, CHR ''s''] \<or> u = [CHR 0xCE, CHR 0xBC, CHR ''s'']
        then Some (10 ^ 3)
      else if u = ''ms'' then Some (10 ^ 6)
      else if u = ''s'' then Some second
      else if u = ''m'' then Some minute
      else if u = ''h'' then Some hour
      else None)"

definition isNumChar :: "char \<Rightarrow> bool" where
  "isNumChar c \<longleftrightarrow> c = CHR ''.'' \<or> isDigit c"

text \<open>One round: the value of the first number and unit, and the rest of the text.\<close>

definition parseComponent :: "string \<Rightarrow> (int \<times> string) option" where
  "parseComponent s =
     (if s = [] \<or> \<not> isNumChar (hd s) then None
      else case leadingInt 0 s of
        None \<Rightarrow> None
      | Some (v, s1) \<Rightarrow>
          let pre = (length s \<noteq> length s1);
              (f, scale, s2, post) =
                (case s1 of
                   [] \<Rightarrow> (0, 1, s1, False)
                 | c # cs \<Rightarrow>
                     if c = CHR ''.'' then
                       (case leadingFraction 0 1 False cs of
                          (f, scale, s2) \<Rightarrow> (f, scale, s2, length cs \<noteq> length s2))
                     else (0, 1, s1, False));
              u = takeWhile (\<lambda>c. \<not> isNumChar c) s2;
              rest = dropWhile (\<lambda>c. \<not> isNumChar c) s2
          in if \<not> pre \<and> \<not> post then None
             else if u = [] then None
             else case unitMap u of
               None \<Rightarrow> None
             | Some unit \<Rightarrow>
                 if 2 ^ 63 div unit < v then None
                 else let w = v * unit;
                          w' = (if 0 < f then w + f_trunc (f_mul (f_of_int f)
                                   (f_div (f_of_int unit) (f_of_int scale))) else w)
                      in if 2 ^ 63 < w' then None else Some (w', rest))"

text \<open>A round consumes at least the unit, so the length of the text bounds the rounds.\<close>

fun parseComponents :: "nat \<Rightarrow> int \<Rightarrow> string \<Rightarrow> int option" where
  "parseComponents fuel d [] = Some d"
| "parseComponents 0 d (c # cs) = None"
| "parseComponents (Suc fuel) d (c # cs) =
     (case parseComponent (c # cs) of
        None \<Rightarrow> None
      | Some (v, rest) \<Rightarrow> if 2 ^ 63 < d + v then None else parseComponents fuel (d + v) rest)"

definition ParseDuration :: "string \<Rightarrow> duration option" where
  "ParseDuration s =
     (let (neg, t) = (case s of
          [] \<Rightarrow> (False, [])
        | c # cs \<Rightarrow> if c = CHR ''-'' then (True, cs) else if c = CHR ''+'' then (False, cs) else (False, s))
      in if t = ''0'' then Some 0
         else if t = [] then None
         else case parseComponents (length t) 0 t of
           None \<Rightarrow> None
         | Some d \<Rightarrow>
             if neg then Some (- d) else if 2 ^ 63 - 1 < d then None else Some d)"

lemma leadingInt_length: "leadingInt x s = Some (v, t) \<Longrightarrow> length t \<le> length s"
  by (induction x s rule: leadingInt.induct) (auto simp: Let_def split: if_splits)

lemma leadingFraction_length: "leadingFraction x sc ov s = (v, sc', t) \<Longrightarrow> length t \<le> length s"
  by (induction x sc ov s rule: leadingFraction.induct) (auto simp: Let_def split: if_splits)

lemma dropWhile_shorter:
  "takeWhile P s \<noteq> [] \<Longrightarrow> length (dropWhile P s) < length s"
  by (cases s) (auto split: if_splits simp: less_Suc_eq_le length_dropWhile_le)

text \<open>The fuel is enough: each round shortens the text.\<close>

lemma parseComponent_length:
  assumes "parseComponent s = Some (v, rest)"
  shows "length rest < length s"
proof -
  let ?P = "\<lambda>c. \<not> isNumChar c"
  have shorter: "length (dropWhile ?P t) < length s"
    if "takeWhile ?P t \<noteq> []" and "length t \<le> length s" for t
    using that dropWhile_shorter [of ?P t] by simp
  from assms show ?thesis
    by (auto simp: parseComponent_def Let_def simp del: takeWhile.simps dropWhile.simps
        split: if_splits option.splits prod.splits list.splits
        dest!: leadingInt_length leadingFraction_length intro!: shorter)
qed

lemma parseComponents_fuel:
  "length s \<le> fuel \<Longrightarrow> length s \<le> fuel' \<Longrightarrow> parseComponents fuel d s = parseComponents fuel' d s"
proof (induction fuel d s arbitrary: fuel' rule: parseComponents.induct)
  case (3 fuel d c cs)
  then obtain f where f: "fuel' = Suc f" by (cases fuel') auto
  have "length rest \<le> fuel \<and> length rest \<le> f" if "parseComponent (c # cs) = Some (v, rest)" for v rest
    using parseComponent_length [OF that] "3.prems" f by simp
  with f "3.IH" show ?case by (auto split: option.splits)
qed auto

end
