(* ===== verification/Prelude.thy ===== *)
theory Prelude
  imports Go_Lib "HOL-Library.State_Monad" "HOL-Library.Multiset"
begin

text \<open>
  What every component shares: Go's error values, points in time, the state monad in which the
  handlers are written, and a small program logic for it.

  A handler runs over a state with two fixed parts: the external \<open>world\<close> (the cluster behind the
  Kubernetes API, the clouds, the clock), whose behaviour is a parameter of the model, and the
  \<open>trace\<close> of the calls the handler has made to it, each with its answer.  A component that keeps
  memory of its own extends the record.  \<open>ext\<close> makes one external call: it may change the world
  in any way (other actors included) and appends one event.

  \<open>wp\<close> is the weakest precondition of a handler and \<open>emits\<close> a judgement about the events it
  appends, whatever the world answers.  The rules are collected in \<open>wp\<close> and \<open>emits\<close>.
\<close>

named_theorems wp \<open>weakest-precondition equations of the handler monad\<close>
named_theorems emits \<open>introduction rules of the trace judgement\<close>

section \<open>Go values\<close>

text \<open>
  Error values: the classes the code tells apart (\<open>apierrors.IsNotFound\<close>, \<open>IsAlreadyExists\<close>, the
  sentinel \<open>capacity.ErrICE\<close>, an AWS API error with its code), any other error with its text, and
  an error wrapped with \<open>%w\<close>.  A nil error is \<open>None\<close>.
\<close>

datatype goerror =
    ENotFound string
  | EAlreadyExists string
  | EICE
  | EAPIError string string
  | EMsg string
  | EWrap string goerror

fun ErrorText :: "goerror \<Rightarrow> string" where
  "ErrorText (ENotFound m) = m"
| "ErrorText (EAlreadyExists m) = m"
| "ErrorText EICE = ''insufficient instance capacity''"
| "ErrorText (EAPIError code m) = m"
| "ErrorText (EMsg m) = m"
| "ErrorText (EWrap m e) = m @ ErrorText e"

fun IsNotFound :: "goerror \<Rightarrow> bool" where
  "IsNotFound (ENotFound m) = True"
| "IsNotFound (EWrap m e) = IsNotFound e"
| "IsNotFound e = False"

fun IsAlreadyExists :: "goerror \<Rightarrow> bool" where
  "IsAlreadyExists (EAlreadyExists m) = True"
| "IsAlreadyExists (EWrap m e) = IsAlreadyExists e"
| "IsAlreadyExists e = False"

text \<open>\<open>client.IgnoreNotFound\<close>.\<close>

definition IgnoreNotFound :: "goerror \<Rightarrow> goerror option" where
  "IgnoreNotFound e = (if IsNotFound e then None else Some e)"

text \<open>The result of a call that may panic.\<close>

datatype 'a outcome = Returns 'a | Panics string

text \<open>A point in time is a number of nanoseconds since the Unix epoch; Go's zero time is the start of year 1.\<close>

type_synonym gotime = int

definition zeroTime :: gotime where
  "zeroTime = - 62135596800 * 10 ^ 9"

definition IsZero :: "gotime \<Rightarrow> bool" where
  "IsZero t \<longleftrightarrow> t = zeroTime"

text \<open>\<open>t.Sub(u)\<close> saturates at the ends of the 64-bit range.\<close>

definition Sub :: "gotime \<Rightarrow> gotime \<Rightarrow> duration" where
  "Sub t u = max (- (2 ^ 63)) (min (2 ^ 63 - 1) (t - u))"

text \<open>A read of a Go map with string values gives the empty string for a missing key.\<close>

definition mget :: "(string \<rightharpoonup> string) \<Rightarrow> string \<Rightarrow> string" where
  "mget m k = (case m k of None \<Rightarrow> [] | Some v \<Rightarrow> v)"

lemma mget_simps [simp]:
  "mget Map.empty k = []"
  "mget (m(k \<mapsto> v)) k = v"
  "k \<noteq> k' \<Longrightarrow> mget (m(k' \<mapsto> v)) k = mget m k"
  by (simp_all add: mget_def)

text \<open>The order in which Go iterates over a map: any order of its keys.\<close>

definition map_order :: "('k list \<Rightarrow> 'k list) \<Rightarrow> bool" where
  "map_order ord \<longleftrightarrow> (\<forall>ks. mset (ord ks) = mset ks)"

lemma map_order_rev: "map_order rev"
  by (simp add: map_order_def)

section \<open>The handler monad\<close>

record ('w, 'e) sys =
  world :: 'w
  trace :: "'e list"

abbreviation ret :: "'a \<Rightarrow> ('s, 'a) state" where
  "ret \<equiv> State_Monad.return"

definition gets :: "('s \<Rightarrow> 'a) \<Rightarrow> ('s, 'a) state" where
  "gets f = State (\<lambda>s. (f s, s))"

definition modify :: "('s \<Rightarrow> 's) \<Rightarrow> ('s, unit) state" where
  "modify f = State (\<lambda>s. ((), f s))"

definition ext :: "('w \<Rightarrow> 'a \<times> 'w) \<Rightarrow> ('a \<Rightarrow> 'e) \<Rightarrow> (('w, 'e, 'z) sys_scheme, 'a) state" where
  "ext call ev = State (\<lambda>s. case call (world s) of
     (a, w') \<Rightarrow> (a, s\<lparr>world := w', trace := trace s @ [ev a]\<rparr>))"

lemma run_gets [simp]: "run_state (gets f) s = (f s, s)"
  by (simp add: gets_def)

lemma run_modify [simp]: "run_state (modify f) s = ((), f s)"
  by (simp add: modify_def)

lemma run_ext [simp]:
  "run_state (ext call ev) s =
     (case call (world s) of (a, w') \<Rightarrow> (a, s\<lparr>world := w', trace := trace s @ [ev a]\<rparr>))"
  by (simp add: ext_def)

subsection \<open>Weakest preconditions\<close>

definition wp :: "('s, 'a) state \<Rightarrow> ('a \<Rightarrow> 's \<Rightarrow> bool) \<Rightarrow> 's \<Rightarrow> bool" where
  "wp m Q s \<longleftrightarrow> (case run_state m s of (a, s') \<Rightarrow> Q a s')"

lemma wp_return [wp]: "wp (ret a) Q s = Q a s"
  by (simp add: wp_def)

lemma wp_bind [wp]: "wp (State_Monad.bind m f) Q s = wp m (\<lambda>a. wp (f a) Q) s"
  by (simp add: wp_def split: prod.split)

lemma wp_gets [wp]: "wp (gets f) Q s = Q (f s) s"
  by (simp add: wp_def)

lemma wp_modify [wp]: "wp (modify f) Q s = Q () (f s)"
  by (simp add: wp_def)

lemma wp_ext [wp]:
  "wp (ext call ev) Q s =
     (case call (world s) of (a, w') \<Rightarrow> Q a (s\<lparr>world := w', trace := trace s @ [ev a]\<rparr>))"
  by (simp add: wp_def split: prod.split)

lemma wp_if [wp]: "wp (if b then m else n) Q s = (if b then wp m Q s else wp n Q s)"
  by simp

lemma wp_let [wp]: "wp (Let x f) Q s = Let x (\<lambda>y. wp (f y) Q s)"
  by simp

lemma wp_case_sum [wp]:
  "wp (case r of Inl e \<Rightarrow> m e | Inr x \<Rightarrow> n x) Q s = (case r of Inl e \<Rightarrow> wp (m e) Q s | Inr x \<Rightarrow> wp (n x) Q s)"
  by (simp split: sum.split)

lemma wp_case_option [wp]:
  "wp (case r of None \<Rightarrow> m | Some x \<Rightarrow> n x) Q s = (case r of None \<Rightarrow> wp m Q s | Some x \<Rightarrow> wp (n x) Q s)"
  by (simp split: option.split)

lemma wp_case_prod [wp]:
  "wp (case p of (x, y) \<Rightarrow> m x y) Q s = (case p of (x, y) \<Rightarrow> wp (m x y) Q s)"
  by (simp split: prod.split)

lemma wp_mono:
  assumes "wp m Q s" and "\<And>a s'. Q a s' \<Longrightarrow> R a s'"
  shows "wp m R s"
  using assms by (auto simp: wp_def split: prod.splits)

lemma wp_conj: "wp m Q s \<Longrightarrow> wp m R s \<Longrightarrow> wp m (\<lambda>a s'. Q a s' \<and> R a s') s"
  by (auto simp: wp_def split: prod.splits)

lemma wp_runI: "(\<And>a s'. run_state m s = (a, s') \<Longrightarrow> Q a s') \<Longrightarrow> wp m Q s"
  by (auto simp: wp_def split: prod.split)

lemma wp_runD: "wp m Q s \<Longrightarrow> run_state m s = (a, s') \<Longrightarrow> Q a s'"
  by (simp add: wp_def)

subsection \<open>The events of a handler\<close>

definition emits :: "(('w, 'e, 'z) sys_scheme, 'a) state \<Rightarrow> ('a \<Rightarrow> 'e list \<Rightarrow> bool) \<Rightarrow> bool" where
  "emits m P \<longleftrightarrow> (\<forall>s. wp m (\<lambda>a s'. \<exists>es. trace s' = trace s @ es \<and> P a es) s)"

lemma emits_wp: "emits m P \<Longrightarrow> wp m (\<lambda>a s'. \<exists>es. trace s' = trace s @ es \<and> P a es) s"
  by (simp add: emits_def)

lemma emitsD:
  assumes "emits m P" and "run_state m s = (a, s')"
  shows "\<exists>es. trace s' = trace s @ es \<and> P a es"
  using wp_runD [OF emits_wp [OF assms(1)] assms(2)] .

lemma emits_mono:
  assumes "emits m P" and "\<And>a es. P a es \<Longrightarrow> Q a es"
  shows "emits m Q"
  unfolding emits_def
proof
  fix s
  show "wp m (\<lambda>a s'. \<exists>es. trace s' = trace s @ es \<and> Q a es) s"
    using emits_wp [OF assms(1), of s] by (rule wp_mono) (use assms(2) in blast)
qed

lemma emits_conj:
  assumes "emits m P" and "emits m Q"
  shows "emits m (\<lambda>a es. P a es \<and> Q a es)"
  unfolding emits_def
proof
  fix s
  show "wp m (\<lambda>a s'. \<exists>es. trace s' = trace s @ es \<and> P a es \<and> Q a es) s"
    using wp_conj [OF emits_wp [OF assms(1), of s] emits_wp [OF assms(2), of s]]
    by (rule wp_mono) auto
qed

lemma emits_return [emits]: "P a [] \<Longrightarrow> emits (ret a) P"
  by (simp add: emits_def wp)

lemma emits_gets [emits]: "(\<And>a. P a []) \<Longrightarrow> emits (gets f) P"
  by (simp add: emits_def wp)

lemma emits_modify [emits]: "P () [] \<Longrightarrow> (\<And>s. trace (f s) = trace s) \<Longrightarrow> emits (modify f) P"
  by (simp add: emits_def wp)

lemma emits_ext [emits]: "(\<And>a. P a [ev a]) \<Longrightarrow> emits (ext call ev) P"
  by (simp add: emits_def wp split: prod.split)

lemma emits_bind:
  fixes m :: "(('w, 'e, 'z) sys_scheme, 'a) state"
  assumes "emits m P" and "\<And>a. emits (f a) (\<lambda>b es'. \<forall>es. P a es \<longrightarrow> Q b (es @ es'))"
  shows "emits (State_Monad.bind m f) Q"
  unfolding emits_def wp_bind
proof
  fix s
  show "wp m (\<lambda>a. wp (f a) (\<lambda>b s'. \<exists>es. trace s' = trace s @ es \<and> Q b es)) s"
    using emits_wp [OF assms(1), of s]
  proof (rule wp_mono)
    fix a and s' :: "('w, 'e, 'z) sys_scheme"
    assume "\<exists>es. trace s' = trace s @ es \<and> P a es"
    then obtain es where es: "trace s' = trace s @ es" "P a es" by blast
    show "wp (f a) (\<lambda>b s''. \<exists>es. trace s'' = trace s @ es \<and> Q b es) s'"
      using emits_wp [OF assms(2) [of a], of s'] by (rule wp_mono) (use es in auto)
  qed
qed

text \<open>The same with the events of the first part fixed, when the rest depends on what they show.\<close>

text \<open>That a program can give a result with a trace, from some state.\<close>

definition canRun :: "(('w, 'e, 'z) sys_scheme, 'a) state \<Rightarrow> 'a \<Rightarrow> 'e list \<Rightarrow> bool" where
  "canRun m a es \<longleftrightarrow> (\<exists>s s'. run_state m s = (a, s') \<and> trace s' = trace s @ es)"

lemma emits_canRun: "emits m P \<Longrightarrow> emits m (\<lambda>a es. P a es \<and> canRun m a es)"
  unfolding emits_def wp_def canRun_def by (fastforce split: prod.splits)

lemma emits_bind_fixed:
  fixes m :: "(('w, 'e, 'z) sys_scheme, 'a) state"
  assumes "emits m P" and "\<And>a es. P a es \<Longrightarrow> emits (f a) (\<lambda>b es'. Q b (es @ es'))"
  shows "emits (State_Monad.bind m f) Q"
  unfolding emits_def wp_bind
proof
  fix s
  show "wp m (\<lambda>a. wp (f a) (\<lambda>b s'. \<exists>es. trace s' = trace s @ es \<and> Q b es)) s"
    using emits_wp [OF assms(1), of s]
  proof (rule wp_mono)
    fix a and s' :: "('w, 'e, 'z) sys_scheme"
    assume "\<exists>es. trace s' = trace s @ es \<and> P a es"
    then obtain es where es: "trace s' = trace s @ es" "P a es" by blast
    show "wp (f a) (\<lambda>b s''. \<exists>es. trace s'' = trace s @ es \<and> Q b es) s'"
      using emits_wp [OF assms(2) [OF es(2)], of s'] by (rule wp_mono) (use es in auto)
  qed
qed

lemma emits_bind_prod_fixed:
  assumes "emits m (\<lambda>(a, b) es. P a b es)"
    and "\<And>a b es. P a b es \<Longrightarrow> emits (f a b) (\<lambda>c es'. Q c (es @ es'))"
  shows "emits (State_Monad.bind m (\<lambda>(a, b). f a b)) Q"
  using assms(1) by (rule emits_bind_fixed) (use assms(2) in \<open>auto split: prod.split\<close>)

lemma emits_bind_triple_fixed:
  assumes "emits m (\<lambda>(a, b, c) es. P a b c es)"
    and "\<And>a b c es. P a b c es \<Longrightarrow> emits (f a b c) (\<lambda>d es'. Q d (es @ es'))"
  shows "emits (State_Monad.bind m (\<lambda>(a, b, c). f a b c)) Q"
  using assms(1) by (rule emits_bind_fixed) (use assms(2) in \<open>auto split: prod.split\<close>)

lemma emits_bind_prod:
  assumes "emits m (\<lambda>(a, b) es. P a b es)"
    and "\<And>a b. emits (f a b) (\<lambda>c es'. \<forall>es. P a b es \<longrightarrow> Q c (es @ es'))"
  shows "emits (State_Monad.bind m (\<lambda>(a, b). f a b)) Q"
  using assms(1) by (rule emits_bind) (use assms(2) in \<open>auto split: prod.split\<close>)

lemma emits_ext_bind [emits]:
  assumes "\<And>a. emits (f a) (\<lambda>b es. Q b (ev a # es))"
  shows "emits (State_Monad.bind (ext call ev) f) Q"
  by (rule emits_bind [where P = "\<lambda>a es. es = [ev a]"]) (use assms in \<open>auto intro: emits_ext\<close>)

lemma emits_gets_bind [emits]:
  assumes "\<And>a. emits (f a) Q"
  shows "emits (State_Monad.bind (gets g) f) Q"
  by (rule emits_bind [where P = "\<lambda>a es. es = []"]) (use assms in \<open>auto intro: emits_gets\<close>)

lemma emits_modify_bind [emits]:
  assumes "\<And>s. trace (g s) = trace s" and "emits (f ()) Q"
  shows "emits (State_Monad.bind (modify g) f) Q"
  by (rule emits_bind [where P = "\<lambda>a es. es = []"]) (use assms in \<open>auto intro: emits_modify\<close>)

lemma emits_if [emits]: "(b \<Longrightarrow> emits m P) \<Longrightarrow> (\<not> b \<Longrightarrow> emits n P) \<Longrightarrow> emits (if b then m else n) P"
  by simp

lemma emits_let [emits]: "(\<And>y. y = x \<Longrightarrow> emits (f y) P) \<Longrightarrow> emits (Let x f) P"
  by simp

lemma emits_case_sum [emits]:
  "(\<And>e. r = Inl e \<Longrightarrow> emits (m e) P) \<Longrightarrow> (\<And>x. r = Inr x \<Longrightarrow> emits (n x) P) \<Longrightarrow>
   emits (case r of Inl e \<Rightarrow> m e | Inr x \<Rightarrow> n x) P"
  by (simp split: sum.split)

lemma emits_case_option [emits]:
  "(r = None \<Longrightarrow> emits m P) \<Longrightarrow> (\<And>x. r = Some x \<Longrightarrow> emits (n x) P) \<Longrightarrow>
   emits (case r of None \<Rightarrow> m | Some x \<Rightarrow> n x) P"
  by (simp split: option.split)

lemma emits_case_prod [emits]:
  "(\<And>x y. p = (x, y) \<Longrightarrow> emits (m x y) P) \<Longrightarrow> emits (case p of (x, y) \<Rightarrow> m x y) P"
  by (simp split: prod.split)

lemma emits_case_outcome [emits]:
  "(\<And>x. r = Returns x \<Longrightarrow> emits (m x) P) \<Longrightarrow> (\<And>p. r = Panics p \<Longrightarrow> emits (n p) P) \<Longrightarrow>
   emits (case r of Returns x \<Rightarrow> m x | Panics p \<Rightarrow> n p) P"
  by (simp split: outcome.split)

text \<open>The events of one kind, with what they carry.\<close>

fun select :: "('e \<Rightarrow> 'a option) \<Rightarrow> 'e list \<Rightarrow> 'a list" where
  "select f [] = []"
| "select f (e # es) = (case f e of None \<Rightarrow> select f es | Some x \<Rightarrow> x # select f es)"

lemma select_append [simp]: "select f (es @ fs) = select f es @ select f fs"
  by (induction es) (auto split: option.split)

lemma select_none: "list_all (\<lambda>e. f e = None) es \<Longrightarrow> select f es = []"
  by (induction es) auto

lemma set_select: "set (select f es) = {x. \<exists>e\<in>set es. f e = Some x}"
  by (induction es) (auto split: option.splits)

text \<open>The common case: every event satisfies a predicate.\<close>

abbreviation emits_all :: "(('w, 'e, 'z) sys_scheme, 'a) state \<Rightarrow> ('e \<Rightarrow> bool) \<Rightarrow> bool" where
  "emits_all m p \<equiv> emits m (\<lambda>_ es. list_all p es)"

lemma emits_all_bind:
  assumes "emits_all m p" and "\<And>a. emits_all (f a) p"
  shows "emits_all (State_Monad.bind m f) p"
  using assms(1) by (rule emits_bind) (use assms(2) in \<open>auto intro: emits_mono\<close>)

end
