(* ===== verification/Api_Types.thy ===== *)
theory Api_Types
  imports Prelude
begin

text \<open>
  The custom resources of \<open>api/v1alpha1/opencoda_types.go\<close>, one record per Go struct with the
  fields of the struct under a short prefix, and the label and annotation keys of
  \<open>internal/constants\<close>.  Of the Kubernetes object metadata the fields the code reads or writes
  are kept.  A Go \<open>int\<close> field is an \<open>int\<close>, a \<open>float64\<close> a \<open>float64\<close>, an optional pointer an
  \<open>option\<close>, a \<open>map[string]string\<close> a map (a nil map reads as the empty map).
\<close>

section \<open>Metadata\<close>

record OwnerReference =
  or_APIVersion :: string
  or_Kind :: string
  or_Name :: string
  or_Controller :: bool

record ObjectMeta =
  om_Name :: string
  om_Namespace :: string
  om_Labels :: "string \<rightharpoonup> string"
  om_Annotations :: "string \<rightharpoonup> string"
  om_CreationTimestamp :: gotime
  om_OwnerReferences :: "OwnerReference list"

record Condition =
  cond_Type :: string
  cond_Status :: string
  cond_Reason :: string
  cond_Message :: string
  cond_LastTransitionTime :: gotime

definition ConditionTypeReady :: string where
  "ConditionTypeReady = ''Ready''"

section \<open>Label and annotation keys\<close>

definition AnnotationDesiredReplicas :: string where
  "AnnotationDesiredReplicas = ''opencoda.dev/desired-replicas''"
definition AnnotationSpecHash :: string where
  "AnnotationSpecHash = ''opencoda.dev/spec-hash''"
definition AnnotationXidCritical :: string where
  "AnnotationXidCritical = ''opencoda.dev/xid-critical''"
definition AnnotationPodCreatedAt :: string where
  "AnnotationPodCreatedAt = ''opencoda.dev/pod-created-at''"
definition AnnotationColdStartRecorded :: string where
  "AnnotationColdStartRecorded = ''opencoda.dev/cold-start-recorded''"
definition LabelGPU :: string where
  "LabelGPU = ''opencoda.dev/gpu''"
definition LabelBufferEligible :: string where
  "LabelBufferEligible = ''opencoda.dev/buffer-eligible''"
definition LabelPool :: string where
  "LabelPool = ''opencoda.dev/pool''"
definition LabelEndpoint :: string where
  "LabelEndpoint = ''opencoda.dev/endpoint''"

lemmas key_defs =
  AnnotationDesiredReplicas_def AnnotationSpecHash_def AnnotationXidCritical_def
  AnnotationPodCreatedAt_def AnnotationColdStartRecorded_def LabelGPU_def
  LabelBufferEligible_def LabelPool_def LabelEndpoint_def

section \<open>GPUPool\<close>

record SecretRef =
  sr_SecretName :: string

record ProviderSpec =
  prs_Name :: string
  prs_CredentialsRef :: SecretRef
  prs_Params :: "string \<rightharpoonup> string"

record GPUProfile =
  gp_Type :: string
  gp_PerNode :: int

record PoolLimits =
  pl_MaxNodes :: int
  pl_MaxHourlyUSD :: float64

record TaintSpec =
  ts_Key :: string
  ts_Effect :: string

record GPUPoolSpec =
  gps_Provider :: ProviderSpec
  gps_InstanceTypes :: "string list"
  gps_GPU :: GPUProfile
  gps_Limits :: PoolLimits
  gps_Priority :: int
  gps_Taints :: "TaintSpec list"

record NodeRecord =
  nr_ProviderID :: string
  nr_NodeName :: string
  nr_State :: string
  nr_LaunchedAt :: gotime
  nr_PoolName :: string

record ObservedCapacity =
  oc_Available :: int
  oc_LastICE :: gotime
  oc_ObservedHourlyUSD :: float64

record PoolNodeCounts =
  pc_Active :: int
  pc_Buffered :: int
  pc_Provisioning :: int

record GPUPoolStatus =
  gpt_ObservedCapacity :: ObservedCapacity
  gpt_Nodes :: PoolNodeCounts
  gpt_NodeRecords :: "NodeRecord list"
  gpt_Conditions :: "Condition list"

record GPUPool =
  pool_Meta :: ObjectMeta
  pool_Spec :: GPUPoolSpec
  pool_Status :: GPUPoolStatus

abbreviation pool_Name :: "GPUPool \<Rightarrow> string" where
  "pool_Name p \<equiv> om_Name (pool_Meta p)"

abbreviation pool_Records :: "GPUPool \<Rightarrow> NodeRecord list" where
  "pool_Records p \<equiv> gpt_NodeRecords (pool_Status p)"

abbreviation pool_Nodes :: "GPUPool \<Rightarrow> PoolNodeCounts" where
  "pool_Nodes p \<equiv> gpt_Nodes (pool_Status p)"

abbreviation pool_Observed :: "GPUPool \<Rightarrow> ObservedCapacity" where
  "pool_Observed p \<equiv> gpt_ObservedCapacity (pool_Status p)"

abbreviation pool_Param :: "GPUPool \<Rightarrow> string \<Rightarrow> string" where
  "pool_Param p k \<equiv> mget (prs_Params (gps_Provider (pool_Spec p))) k"

section \<open>BufferPolicy\<close>

record DynamicTarget =
  dt_Window :: string
  dt_Formula :: string
  dt_K :: float64

record BufferTarget =
  bt_Mode :: string
  bt_MinWarmGPUs :: int
  bt_MaxWarmGPUs :: int
  bt_Dynamic :: "DynamicTarget option"

record PoolRef =
  ref_Name :: string

record ScaleDownSpec =
  sd_StabilizationWindow :: string
  sd_DrainTimeout :: string

record BufferPolicySpec =
  bps_Target :: BufferTarget
  bps_Pools :: "PoolRef list"
  bps_ScaleDown :: ScaleDownSpec

record BufferPolicyStatus =
  bpt_CurrentWarmGPUs :: int
  bpt_DemandEWMA :: float64
  bpt_Conditions :: "Condition list"

record BufferPolicy =
  policy_Meta :: ObjectMeta
  policy_Spec :: BufferPolicySpec
  policy_Status :: BufferPolicyStatus

section \<open>CodaEndpoint\<close>

record ModelSpec =
  ms_Source :: string
  ms_Quantization :: string

record EngineSpec =
  es_Type :: string
  es_Version :: string
  es_Args :: "string list"

record ResourceSpec =
  rs_GPU :: int
  rs_GPUType :: string

record RuntimeSpec =
  rt_Class :: string

record ScalingTarget =
  st_Metric :: string
  st_Value :: int

record ScalingSpec =
  sc_MinReplicas :: int
  sc_MaxReplicas :: int
  sc_Target :: ScalingTarget
  sc_ScaleToZeroAfter :: string

record SnapshotRef =
  sn_ClassRef :: string

record RemoteRef =
  rr_Bucket :: string
  rr_Prefix :: string
  rr_Endpoint :: string

record LMCacheSpec =
  lm_Enabled :: bool
  lm_Shared :: bool
  lm_Tiers :: "string list"
  lm_RemoteRef :: RemoteRef

record KVSpec =
  kv_LMCache :: "LMCacheSpec option"

record CodaEndpointSpec =
  eps_Model :: ModelSpec
  eps_Engine :: EngineSpec
  eps_Resources :: ResourceSpec
  eps_Runtime :: RuntimeSpec
  eps_Scaling :: ScalingSpec
  eps_Snapshot :: "SnapshotRef option"
  eps_KV :: KVSpec

record ReplicaStatus =
  rep_Ready :: int
  rep_Starting :: int

record ColdStartMetrics =
  cs_P50Ms :: int
  cs_P95Ms :: int

record CodaEndpointStatus =
  ept_Replicas :: ReplicaStatus
  ept_ColdStart :: ColdStartMetrics
  ept_KVHitRate :: float64
  ept_Conditions :: "Condition list"

record CodaEndpoint =
  ep_Meta :: ObjectMeta
  ep_Spec :: CodaEndpointSpec
  ep_Status :: CodaEndpointStatus

abbreviation ep_Name :: "CodaEndpoint \<Rightarrow> string" where
  "ep_Name ep \<equiv> om_Name (ep_Meta ep)"

abbreviation ep_Namespace :: "CodaEndpoint \<Rightarrow> string" where
  "ep_Namespace ep \<equiv> om_Namespace (ep_Meta ep)"

abbreviation ep_Scaling :: "CodaEndpoint \<Rightarrow> ScalingSpec" where
  "ep_Scaling ep \<equiv> eps_Scaling (ep_Spec ep)"

section \<open>CodaToken\<close>

record CodaTokenSpec =
  tks_TokenID :: string
  tks_SecretHash :: string
  tks_ExpiresAt :: "gotime option"

record CodaTokenStatus =
  tkt_Conditions :: "Condition list"

record CodaToken =
  tok_Meta :: ObjectMeta
  tok_Spec :: CodaTokenSpec
  tok_Status :: CodaTokenStatus

section \<open>Zero values\<close>

text \<open>The values a Go composite literal leaves out, and the objects the witnesses start from.\<close>

definition zeroMeta :: ObjectMeta where
  "zeroMeta = \<lparr>om_Name = [], om_Namespace = [], om_Labels = Map.empty, om_Annotations = Map.empty,
     om_CreationTimestamp = zeroTime, om_OwnerReferences = []\<rparr>"

definition zeroPool :: GPUPool where
  "zeroPool = \<lparr>pool_Meta = zeroMeta,
     pool_Spec = \<lparr>gps_Provider = \<lparr>prs_Name = [], prs_CredentialsRef = \<lparr>sr_SecretName = []\<rparr>,
                    prs_Params = Map.empty\<rparr>,
                  gps_InstanceTypes = [], gps_GPU = \<lparr>gp_Type = [], gp_PerNode = 0\<rparr>,
                  gps_Limits = \<lparr>pl_MaxNodes = 0, pl_MaxHourlyUSD = 0\<rparr>, gps_Priority = 0, gps_Taints = []\<rparr>,
     pool_Status = \<lparr>gpt_ObservedCapacity = \<lparr>oc_Available = 0, oc_LastICE = zeroTime,
                      oc_ObservedHourlyUSD = 0\<rparr>,
                    gpt_Nodes = \<lparr>pc_Active = 0, pc_Buffered = 0, pc_Provisioning = 0\<rparr>,
                    gpt_NodeRecords = [], gpt_Conditions = []\<rparr>\<rparr>"

definition zeroPolicy :: BufferPolicy where
  "zeroPolicy = \<lparr>policy_Meta = zeroMeta,
     policy_Spec = \<lparr>bps_Target = \<lparr>bt_Mode = [], bt_MinWarmGPUs = 0, bt_MaxWarmGPUs = 0, bt_Dynamic = None\<rparr>,
                    bps_Pools = [],
                    bps_ScaleDown = \<lparr>sd_StabilizationWindow = [], sd_DrainTimeout = []\<rparr>\<rparr>,
     policy_Status = \<lparr>bpt_CurrentWarmGPUs = 0, bpt_DemandEWMA = 0, bpt_Conditions = []\<rparr>\<rparr>"

definition zeroEndpoint :: CodaEndpoint where
  "zeroEndpoint = \<lparr>ep_Meta = zeroMeta,
     ep_Spec = \<lparr>eps_Model = \<lparr>ms_Source = [], ms_Quantization = []\<rparr>,
                eps_Engine = \<lparr>es_Type = [], es_Version = [], es_Args = []\<rparr>,
                eps_Resources = \<lparr>rs_GPU = 0, rs_GPUType = []\<rparr>,
                eps_Runtime = \<lparr>rt_Class = []\<rparr>,
                eps_Scaling = \<lparr>sc_MinReplicas = 0, sc_MaxReplicas = 0,
                   sc_Target = \<lparr>st_Metric = [], st_Value = 0\<rparr>, sc_ScaleToZeroAfter = []\<rparr>,
                eps_Snapshot = None, eps_KV = \<lparr>kv_LMCache = None\<rparr>\<rparr>,
     ep_Status = \<lparr>ept_Replicas = \<lparr>rep_Ready = 0, rep_Starting = 0\<rparr>,
                  ept_ColdStart = \<lparr>cs_P50Ms = 0, cs_P95Ms = 0\<rparr>, ept_KVHitRate = 0, ept_Conditions = []\<rparr>\<rparr>"

end
