(* ===== verification/Capacity_Types.thy ===== *)
theory Capacity_Types
  imports Api_Types
begin

text \<open>
  The data that \<open>pkg/capacity\<close> exchanges with its callers (\<open>provider.go\<close>, \<open>errors.go\<close>,
  \<open>registry.go\<close>) and the node bootstrap scripts of \<open>pkg/capacity/bootstrap\<close>.
\<close>

section \<open>provider.go and errors.go\<close>

record Constraints =
  cn_Region :: string
  cn_Zone :: string
  cn_CapacityType :: string
  cn_MaxHourlyUSD :: float64

record GPURequest =
  req_PoolName :: string
  req_GPUType :: string
  req_GPUCount :: int
  req_NodeCount :: int
  req_InstanceTypes :: "string list"
  req_Subnets :: "string list"
  req_Constraints :: Constraints

record Offer =
  of_ID :: string
  of_InstanceType :: string
  of_Zone :: string
  of_HourlyUSD :: float64
  of_ExpiresAt :: gotime
  of_Interruptible :: bool

record NodeHandle =
  nh_ProviderID :: string
  nh_NodeName :: string
  nh_Labels :: "string \<rightharpoonup> string"
  nh_LaunchedAt :: gotime

record CapacityReport =
  cr_Available :: int
  cr_RecentICE :: "gotime list"
  cr_ObservedHourlyUSD :: float64

text \<open>\<open>errors.Is(err, ErrICE)\<close> follows the chain of wrapped errors.\<close>

fun IsICE :: "goerror \<Rightarrow> bool" where
  "IsICE EICE = True"
| "IsICE (EWrap m e) = IsICE e"
| "IsICE e = False"

record BootstrapConfig =
  bc_APIServerURL :: string
  bc_CABundle :: string
  bc_JoinToken :: string
  bc_ClusterName :: string

section \<open>bootstrap.go\<close>

record BootConfig =
  bcf_APIServerURL :: string
  bcf_CABundle :: string
  bcf_JoinToken :: string
  bcf_PoolName :: string
  bcf_ClusterName :: string
  bcf_JoinMode :: string

definition UserData :: "BootConfig \<Rightarrow> string" where
  "UserData cfg =
     (let joinMode = (if bcf_JoinMode cfg = [] then ''kubeadm'' else bcf_JoinMode cfg);
          joinCmd =
            (if joinMode = ''eks'' then
               (let cluster = (if bcf_ClusterName cfg = [] then ''opencoda'' else bcf_ClusterName cfg)
                in ''/etc/eks/bootstrap.sh '' @ Quote cluster @ '' --kubelet-extra-args '' @ [CHR 0x27] @
                   ''--node-labels=opencoda.dev/gpu=true,opencoda.dev/pool='' @ bcf_PoolName cfg @
                   '',opencoda.dev/buffer-eligible=true'' @ [CHR 0x27])
             else if joinMode = ''gke'' then
               ''gcloud container clusters get-credentials ${CLUSTER_NAME:-opencoda} --zone ${ZONE:-us-central1-a}''
             else ''kubeadm join '' @ bcf_APIServerURL cfg @ '' --token '' @ bcf_JoinToken cfg @
                  '' --discovery-token-unsafe-skip-cause-unknown'')
      in ''#!/bin/bash'' @ [newline] @ ''set -euo pipefail'' @ [newline] @
         ''# node labels for OpenCoda (pool='' @ bcf_PoolName cfg @ '')'' @ [newline] @
         joinCmd @ [newline])"

text \<open>\<open>StartupScript\<close> is the same text without surrounding white space.\<close>

definition StartupScript :: "BootConfig \<Rightarrow> string" where
  "StartupScript cfg = TrimSpace (UserData cfg)"

section \<open>encoding/base64\<close>

text \<open>\<open>base64.StdEncoding.EncodeToString\<close>, with padding.\<close>

definition b64Char :: "nat \<Rightarrow> char" where
  "b64Char n = (if n < 26 then char_of (65 + n) else if n < 52 then char_of (71 + n)
                else if n < 62 then char_of (n - 4) else if n = 62 then CHR ''+'' else CHR ''/'')"

fun base64Bytes :: "nat list \<Rightarrow> string" where
  "base64Bytes [] = []"
| "base64Bytes [a] = [b64Char (a div 4), b64Char (a mod 4 * 16), CHR ''='', CHR ''='']"
| "base64Bytes [a, b] =
     [b64Char (a div 4), b64Char (a mod 4 * 16 + b div 16), b64Char (b mod 16 * 4), CHR ''='']"
| "base64Bytes (a # b # c # rest) =
     b64Char (a div 4) # b64Char (a mod 4 * 16 + b div 16) # b64Char (b mod 16 * 4 + c div 64) #
     b64Char (c mod 64) # base64Bytes rest"

definition base64Encode :: "string \<Rightarrow> string" where
  "base64Encode s = base64Bytes (map of_char s)"

end
