(* ===== verification/Kube.thy ===== *)
theory Kube
  imports Capacity_Types
begin

text \<open>
  The world outside the repository, as the code sees it: the Kubernetes objects it reads and
  writes, the requests it sends to the AWS and GCE SDKs, and the external calls themselves.  The
  calls are a parameter of the model: a record \<open>env\<close> of functions over an arbitrary type \<open>'w\<close> of
  worlds.  Each takes the world and returns an answer with the next world, so nothing is assumed
  about the API server, the clouds, the clock or the other actors.  Every call leaves an event
  in the trace.

  An update call answers with the object as the server stored it, which the client decodes into
  the caller's variable.
\<close>

section \<open>Kubernetes objects\<close>

text \<open>An environment variable has a literal value or refers to a secret's key (name, key, optional).\<close>

record EnvVar =
  ev_Name :: string
  ev_Value :: string
  ev_ValueFrom :: "(string \<times> string \<times> bool) option"

record ContainerPort =
  cp_Name :: string
  cp_ContainerPort :: int

text \<open>An HTTP readiness probe.\<close>

record Probe =
  prb_Path :: string
  prb_Port :: int
  prb_InitialDelaySeconds :: int
  prb_PeriodSeconds :: int

record Toleration =
  tol_Key :: string
  tol_Operator :: string
  tol_Effect :: string

text \<open>A quantity is the text it was parsed from; volumes and mounts are passed through by name.\<close>

type_synonym Quantity = string
type_synonym ResourceList = "string \<rightharpoonup> Quantity"
type_synonym Volume = string
type_synonym VolumeMount = string

record Container =
  ctr_Name :: string
  ctr_Image :: string
  ctr_Command :: "string list"
  ctr_Args :: "string list"
  ctr_Env :: "EnvVar list"
  ctr_Ports :: "ContainerPort list"
  ctr_Limits :: ResourceList
  ctr_Requests :: ResourceList
  ctr_VolumeMounts :: "VolumeMount list"
  ctr_ReadinessProbe :: "Probe option"

record PodSpec =
  ps_Containers :: "Container list"
  ps_InitContainers :: "Container list"
  ps_Volumes :: "Volume list"
  ps_NodeSelector :: "string \<rightharpoonup> string"
  ps_Tolerations :: "Toleration list"
  ps_NodeName :: string

record PodCondition =
  pcd_Type :: string
  pcd_Status :: string

record Pod =
  pod_Meta :: ObjectMeta
  pod_Spec :: PodSpec
  pod_PodIP :: string
  pod_Conditions :: "PodCondition list"

record Node =
  node_Meta :: ObjectMeta
  node_Unschedulable :: bool

abbreviation pod_Name :: "Pod \<Rightarrow> string" where
  "pod_Name p \<equiv> om_Name (pod_Meta p)"

abbreviation pod_Namespace :: "Pod \<Rightarrow> string" where
  "pod_Namespace p \<equiv> om_Namespace (pod_Meta p)"

abbreviation pod_Annotation :: "Pod \<Rightarrow> string \<Rightarrow> string" where
  "pod_Annotation p k \<equiv> mget (om_Annotations (pod_Meta p)) k"

abbreviation pod_NodeName :: "Pod \<Rightarrow> string" where
  "pod_NodeName p \<equiv> ps_NodeName (pod_Spec p)"

abbreviation node_Name :: "Node \<Rightarrow> string" where
  "node_Name n \<equiv> om_Name (node_Meta n)"

abbreviation node_Label :: "Node \<Rightarrow> string \<Rightarrow> string" where
  "node_Label n k \<equiv> mget (om_Labels (node_Meta n)) k"

definition zeroPodSpec :: PodSpec where
  "zeroPodSpec = \<lparr>ps_Containers = [], ps_InitContainers = [], ps_Volumes = [],
     ps_NodeSelector = Map.empty, ps_Tolerations = [], ps_NodeName = []\<rparr>"

definition zeroPod :: Pod where
  "zeroPod = \<lparr>pod_Meta = zeroMeta, pod_Spec = zeroPodSpec, pod_PodIP = [], pod_Conditions = []\<rparr>"

definition zeroNode :: Node where
  "zeroNode = \<lparr>node_Meta = zeroMeta, node_Unschedulable = False\<rparr>"

text \<open>The readiness test the endpoint controller and the gateway spell out as a loop with a break.\<close>

definition podReady :: "Pod \<Rightarrow> bool" where
  "podReady p \<longleftrightarrow> list_ex (\<lambda>c. pcd_Type c = ''Ready'' \<and> pcd_Status c = ''True'') (pod_Conditions p)"

section \<open>Cloud requests\<close>

text \<open>An EC2 client is determined by its region and static credentials.\<close>

record EC2Client =
  ec2_Region :: string
  ec2_StaticKeys :: "(string \<times> string \<times> string) option"

record RunInstancesInput =
  ri_ImageId :: string
  ri_InstanceType :: string
  ri_MinCount :: int
  ri_MaxCount :: int
  ri_UserData :: string
  ri_Tags :: "(string \<times> string) list"
  ri_SubnetId :: "string option"
  ri_IamInstanceProfile :: "string option"
  ri_SecurityGroupIds :: "string list"
  ri_Spot :: bool

text \<open>
  A launched instance: its id and its placement, a pointer to a structure of which the
  availability zone is read (\<open>aws.ToString\<close> reads a nil string pointer as the empty string).
\<close>

record EC2Instance =
  ei_InstanceId :: string
  ei_Placement :: "string option"

record EC2Image =
  im_ImageId :: string
  im_CreationDate :: string

record GCEInstance =
  gi_Name :: string
  gi_ProvisioningModel :: string
  gi_SourceImage :: string
  gi_AutoDelete :: bool
  gi_Boot :: bool
  gi_Network :: string
  gi_AccessConfig :: "string \<times> string"
  gi_Metadata :: "(string \<times> string) list"
  gi_AcceleratorCount :: int
  gi_AcceleratorType :: string

record InsertInstanceRequest =
  iir_Project :: string
  iir_Zone :: string
  iir_Instance :: GCEInstance

section \<open>HTTP\<close>

text \<open>
  Outgoing requests and their answers.  Headers are Go's map from a name to its values; a body is
  the bytes a reader of it gets before the end, and the error that ended it early, if any.
\<close>

type_synonym Header = "string \<rightharpoonup> string list"

record HTTPRequest =
  hq_Method :: string
  hq_URL :: string
  hq_Header :: Header
  hq_Body :: string

record HTTPResponse =
  hr_StatusCode :: int
  hr_Header :: Header
  hr_Body :: string
  hr_BodyErr :: "goerror option"

section \<open>Events\<close>

datatype kube_event =
    GetPolicy string "goerror + BufferPolicy"
  | GetPool string "goerror + GPUPool"
  | GetNode string "goerror + Node"
  | GetEndpoint string string "goerror + CodaEndpoint"
  | GetSecret string string "goerror + (string \<rightharpoonup> string)"
  | ListNodes string string "goerror + Node list"
  | ListPods "goerror + Pod list"
  | ListEndpointPods string string "goerror + Pod list"
  | UpdateNode Node "goerror + Node"
  | StatusUpdatePool GPUPool "goerror + GPUPool"
  | StatusUpdatePolicy BufferPolicy "goerror + BufferPolicy"
  | StatusUpdateEndpoint CodaEndpoint "goerror + CodaEndpoint"
  | CreatePod Pod "goerror option"
  | DeletePod Pod "goerror option"
  | EvictPod Pod "goerror option"
  | PatchPod Pod Pod "goerror option"
  | PatchEndpoint CodaEndpoint CodaEndpoint "goerror + CodaEndpoint"
  | ListEndpoints "goerror + CodaEndpoint list"
  | ListPolicies "goerror + BufferPolicy list"
  | ListTokens "goerror + CodaToken list"
  | CreateToken CodaToken "goerror option"

datatype cloud_event =
    LoadAWSConfig EC2Client "goerror option"
  | DescribeSpotPriceHistory EC2Client string "goerror + string option list"
  | RunInstances EC2Client RunInstancesInput "goerror + EC2Instance list"
  | DescribeImages EC2Client string "goerror + EC2Image list"
  | TerminateInstances EC2Client "string list" "goerror option"
  | NewInstancesRESTClient "string option" "goerror option"
  | InsertInstance InsertInstanceRequest "goerror option"
  | WaitOperation "goerror option"
  | DeleteInstance string string string "goerror option"

text \<open>Calls through the CapacityProvider interface, by the name of the pool whose provider is called.\<close>

datatype provider_event =
    Provision string Offer "(goerror + NodeHandle) outcome"
  | Release string NodeHandle "goerror option"

datatype event =
    Kube kube_event
  | Cloud cloud_event
  | Provider provider_event
  | Clock gotime
  | Sleep duration
  | LookPath string "goerror option"
  | RunCommand "string list" "goerror option"
  | CommandOutput "string list" "goerror + string"
  | Stat string "goerror option"
  | MkdirAll string "goerror option"
  | HTTP HTTPRequest "goerror + HTTPResponse"
  | Metric string "string list" float64

section \<open>The external calls\<close>

text \<open>
  The fields after \<open>x_HTTP\<close> are pure: the conversions of text to a float64 (\<open>%f\<close> of \<open>fmt.Sscanf\<close>
  and \<open>strconv.ParseFloat\<close>), the unstable \<open>sort.Slice\<close> on machine images, SHA-256, the RFC 3339
  format of times with its parser, and whether a URL is well-formed.
\<close>

record 'w env =
  x_Now :: "'w \<Rightarrow> gotime \<times> 'w"
  x_Sleep :: "duration \<Rightarrow> 'w \<Rightarrow> unit \<times> 'w"
  x_LookPath :: "string \<Rightarrow> 'w \<Rightarrow> goerror option \<times> 'w"
  x_RunCommand :: "string list \<Rightarrow> 'w \<Rightarrow> goerror option \<times> 'w"
  x_GetPolicy :: "string \<Rightarrow> 'w \<Rightarrow> (goerror + BufferPolicy) \<times> 'w"
  x_GetPool :: "string \<Rightarrow> 'w \<Rightarrow> (goerror + GPUPool) \<times> 'w"
  x_GetNode :: "string \<Rightarrow> 'w \<Rightarrow> (goerror + Node) \<times> 'w"
  x_GetEndpoint :: "string \<Rightarrow> string \<Rightarrow> 'w \<Rightarrow> (goerror + CodaEndpoint) \<times> 'w"
  x_GetSecret :: "string \<Rightarrow> string \<Rightarrow> 'w \<Rightarrow> (goerror + (string \<rightharpoonup> string)) \<times> 'w"
  x_ListNodes :: "string \<Rightarrow> string \<Rightarrow> 'w \<Rightarrow> (goerror + Node list) \<times> 'w"
  x_ListPods :: "'w \<Rightarrow> (goerror + Pod list) \<times> 'w"
  x_ListEndpointPods :: "string \<Rightarrow> string \<Rightarrow> 'w \<Rightarrow> (goerror + Pod list) \<times> 'w"
  x_UpdateNode :: "Node \<Rightarrow> 'w \<Rightarrow> (goerror + Node) \<times> 'w"
  x_StatusUpdatePool :: "GPUPool \<Rightarrow> 'w \<Rightarrow> (goerror + GPUPool) \<times> 'w"
  x_StatusUpdatePolicy :: "BufferPolicy \<Rightarrow> 'w \<Rightarrow> (goerror + BufferPolicy) \<times> 'w"
  x_StatusUpdateEndpoint :: "CodaEndpoint \<Rightarrow> 'w \<Rightarrow> (goerror + CodaEndpoint) \<times> 'w"
  x_CreatePod :: "Pod \<Rightarrow> 'w \<Rightarrow> goerror option \<times> 'w"
  x_DeletePod :: "Pod \<Rightarrow> 'w \<Rightarrow> goerror option \<times> 'w"
  x_EvictPod :: "Pod \<Rightarrow> 'w \<Rightarrow> goerror option \<times> 'w"
  x_PatchPod :: "Pod \<Rightarrow> Pod \<Rightarrow> 'w \<Rightarrow> goerror option \<times> 'w"
  x_LoadAWSConfig :: "EC2Client \<Rightarrow> 'w \<Rightarrow> goerror option \<times> 'w"
  x_DescribeSpotPriceHistory :: "EC2Client \<Rightarrow> string \<Rightarrow> 'w \<Rightarrow> (goerror + string option list) \<times> 'w"
  x_RunInstances :: "EC2Client \<Rightarrow> RunInstancesInput \<Rightarrow> 'w \<Rightarrow> (goerror + EC2Instance list) \<times> 'w"
  x_DescribeImages :: "EC2Client \<Rightarrow> string \<Rightarrow> 'w \<Rightarrow> (goerror + EC2Image list) \<times> 'w"
  x_TerminateInstances :: "EC2Client \<Rightarrow> string list \<Rightarrow> 'w \<Rightarrow> goerror option \<times> 'w"
  x_NewInstancesRESTClient :: "string option \<Rightarrow> 'w \<Rightarrow> goerror option \<times> 'w"
  x_InsertInstance :: "InsertInstanceRequest \<Rightarrow> 'w \<Rightarrow> goerror option \<times> 'w"
  x_WaitOperation :: "'w \<Rightarrow> goerror option \<times> 'w"
  x_DeleteInstance :: "string \<Rightarrow> string \<Rightarrow> string \<Rightarrow> 'w \<Rightarrow> goerror option \<times> 'w"
  x_PatchEndpoint :: "CodaEndpoint \<Rightarrow> CodaEndpoint \<Rightarrow> 'w \<Rightarrow> (goerror + CodaEndpoint) \<times> 'w"
  x_ListEndpoints :: "'w \<Rightarrow> (goerror + CodaEndpoint list) \<times> 'w"
  x_ListPolicies :: "'w \<Rightarrow> (goerror + BufferPolicy list) \<times> 'w"
  x_ListTokens :: "'w \<Rightarrow> (goerror + CodaToken list) \<times> 'w"
  x_CreateToken :: "CodaToken \<Rightarrow> 'w \<Rightarrow> goerror option \<times> 'w"
  x_CommandOutput :: "string list \<Rightarrow> 'w \<Rightarrow> (goerror + string) \<times> 'w"
  x_Stat :: "string \<Rightarrow> 'w \<Rightarrow> goerror option \<times> 'w"
  x_MkdirAll :: "string \<Rightarrow> 'w \<Rightarrow> goerror option \<times> 'w"
  x_HTTP :: "HTTPRequest \<Rightarrow> 'w \<Rightarrow> (goerror + HTTPResponse) \<times> 'w"
  x_ScanFloat :: "string \<Rightarrow> float64 option"
  x_ParseFloat :: "string \<Rightarrow> float64 option"
  x_SortImages :: "(EC2Image \<Rightarrow> EC2Image \<Rightarrow> bool) \<Rightarrow> EC2Image list \<Rightarrow> EC2Image list"
  x_Sha256 :: "string \<Rightarrow> nat list"
  x_FormatTime :: "gotime \<Rightarrow> string"
  x_ParseTime :: "string \<Rightarrow> gotime option"
  x_URLError :: "string \<Rightarrow> goerror option"

type_synonym ('w, 'z, 'a) io = "(('w, event, 'z) sys_scheme, 'a) state"

abbreviation kNow :: "'w env \<Rightarrow> ('w, 'z, gotime) io" where
  "kNow E \<equiv> ext (x_Now E) Clock"
abbreviation kSleep :: "'w env \<Rightarrow> duration \<Rightarrow> ('w, 'z, unit) io" where
  "kSleep E d \<equiv> ext (x_Sleep E d) (\<lambda>_. Sleep d)"
abbreviation kLookPath :: "'w env \<Rightarrow> string \<Rightarrow> ('w, 'z, goerror option) io" where
  "kLookPath E f \<equiv> ext (x_LookPath E f) (LookPath f)"
abbreviation kRunCommand :: "'w env \<Rightarrow> string list \<Rightarrow> ('w, 'z, goerror option) io" where
  "kRunCommand E argv \<equiv> ext (x_RunCommand E argv) (RunCommand argv)"
abbreviation kGetPolicy :: "'w env \<Rightarrow> string \<Rightarrow> ('w, 'z, goerror + BufferPolicy) io" where
  "kGetPolicy E n \<equiv> ext (x_GetPolicy E n) (\<lambda>r. Kube (GetPolicy n r))"
abbreviation kGetPool :: "'w env \<Rightarrow> string \<Rightarrow> ('w, 'z, goerror + GPUPool) io" where
  "kGetPool E n \<equiv> ext (x_GetPool E n) (\<lambda>r. Kube (GetPool n r))"
abbreviation kGetNode :: "'w env \<Rightarrow> string \<Rightarrow> ('w, 'z, goerror + Node) io" where
  "kGetNode E n \<equiv> ext (x_GetNode E n) (\<lambda>r. Kube (GetNode n r))"
abbreviation kGetEndpoint :: "'w env \<Rightarrow> string \<Rightarrow> string \<Rightarrow> ('w, 'z, goerror + CodaEndpoint) io" where
  "kGetEndpoint E ns n \<equiv> ext (x_GetEndpoint E ns n) (\<lambda>r. Kube (GetEndpoint ns n r))"
abbreviation kGetSecret :: "'w env \<Rightarrow> string \<Rightarrow> string \<Rightarrow> ('w, 'z, goerror + (string \<rightharpoonup> string)) io" where
  "kGetSecret E ns n \<equiv> ext (x_GetSecret E ns n) (\<lambda>r. Kube (GetSecret ns n r))"
abbreviation kListNodes :: "'w env \<Rightarrow> string \<Rightarrow> string \<Rightarrow> ('w, 'z, goerror + Node list) io" where
  "kListNodes E k v \<equiv> ext (x_ListNodes E k v) (\<lambda>r. Kube (ListNodes k v r))"
abbreviation kListPods :: "'w env \<Rightarrow> ('w, 'z, goerror + Pod list) io" where
  "kListPods E \<equiv> ext (x_ListPods E) (\<lambda>r. Kube (ListPods r))"
abbreviation kListEndpointPods :: "'w env \<Rightarrow> string \<Rightarrow> string \<Rightarrow> ('w, 'z, goerror + Pod list) io" where
  "kListEndpointPods E ns n \<equiv> ext (x_ListEndpointPods E ns n) (\<lambda>r. Kube (ListEndpointPods ns n r))"
abbreviation kUpdateNode :: "'w env \<Rightarrow> Node \<Rightarrow> ('w, 'z, goerror + Node) io" where
  "kUpdateNode E n \<equiv> ext (x_UpdateNode E n) (\<lambda>r. Kube (UpdateNode n r))"
abbreviation kStatusUpdatePool :: "'w env \<Rightarrow> GPUPool \<Rightarrow> ('w, 'z, goerror + GPUPool) io" where
  "kStatusUpdatePool E p \<equiv> ext (x_StatusUpdatePool E p) (\<lambda>r. Kube (StatusUpdatePool p r))"
abbreviation kStatusUpdatePolicy :: "'w env \<Rightarrow> BufferPolicy \<Rightarrow> ('w, 'z, goerror + BufferPolicy) io" where
  "kStatusUpdatePolicy E p \<equiv> ext (x_StatusUpdatePolicy E p) (\<lambda>r. Kube (StatusUpdatePolicy p r))"
abbreviation kStatusUpdateEndpoint :: "'w env \<Rightarrow> CodaEndpoint \<Rightarrow> ('w, 'z, goerror + CodaEndpoint) io" where
  "kStatusUpdateEndpoint E p \<equiv> ext (x_StatusUpdateEndpoint E p) (\<lambda>r. Kube (StatusUpdateEndpoint p r))"
abbreviation kCreatePod :: "'w env \<Rightarrow> Pod \<Rightarrow> ('w, 'z, goerror option) io" where
  "kCreatePod E p \<equiv> ext (x_CreatePod E p) (\<lambda>r. Kube (CreatePod p r))"
abbreviation kDeletePod :: "'w env \<Rightarrow> Pod \<Rightarrow> ('w, 'z, goerror option) io" where
  "kDeletePod E p \<equiv> ext (x_DeletePod E p) (\<lambda>r. Kube (DeletePod p r))"
abbreviation kEvictPod :: "'w env \<Rightarrow> Pod \<Rightarrow> ('w, 'z, goerror option) io" where
  "kEvictPod E p \<equiv> ext (x_EvictPod E p) (\<lambda>r. Kube (EvictPod p r))"
abbreviation kPatchPod :: "'w env \<Rightarrow> Pod \<Rightarrow> Pod \<Rightarrow> ('w, 'z, goerror option) io" where
  "kPatchPod E old new \<equiv> ext (x_PatchPod E old new) (\<lambda>r. Kube (PatchPod old new r))"

abbreviation cLoadAWSConfig :: "'w env \<Rightarrow> EC2Client \<Rightarrow> ('w, 'z, goerror option) io" where
  "cLoadAWSConfig E c \<equiv> ext (x_LoadAWSConfig E c) (\<lambda>r. Cloud (LoadAWSConfig c r))"
abbreviation cDescribeSpotPriceHistory ::
  "'w env \<Rightarrow> EC2Client \<Rightarrow> string \<Rightarrow> ('w, 'z, goerror + string option list) io" where
  "cDescribeSpotPriceHistory E c t \<equiv>
     ext (x_DescribeSpotPriceHistory E c t) (\<lambda>r. Cloud (DescribeSpotPriceHistory c t r))"
abbreviation cRunInstances ::
  "'w env \<Rightarrow> EC2Client \<Rightarrow> RunInstancesInput \<Rightarrow> ('w, 'z, goerror + EC2Instance list) io" where
  "cRunInstances E c i \<equiv> ext (x_RunInstances E c i) (\<lambda>r. Cloud (RunInstances c i r))"
abbreviation cDescribeImages :: "'w env \<Rightarrow> EC2Client \<Rightarrow> string \<Rightarrow> ('w, 'z, goerror + EC2Image list) io" where
  "cDescribeImages E c pat \<equiv> ext (x_DescribeImages E c pat) (\<lambda>r. Cloud (DescribeImages c pat r))"
abbreviation cTerminateInstances :: "'w env \<Rightarrow> EC2Client \<Rightarrow> string list \<Rightarrow> ('w, 'z, goerror option) io" where
  "cTerminateInstances E c ids \<equiv> ext (x_TerminateInstances E c ids) (\<lambda>r. Cloud (TerminateInstances c ids r))"
abbreviation cNewInstancesRESTClient :: "'w env \<Rightarrow> string option \<Rightarrow> ('w, 'z, goerror option) io" where
  "cNewInstancesRESTClient E j \<equiv> ext (x_NewInstancesRESTClient E j) (\<lambda>r. Cloud (NewInstancesRESTClient j r))"
abbreviation cInsertInstance :: "'w env \<Rightarrow> InsertInstanceRequest \<Rightarrow> ('w, 'z, goerror option) io" where
  "cInsertInstance E i \<equiv> ext (x_InsertInstance E i) (\<lambda>r. Cloud (InsertInstance i r))"
abbreviation cWaitOperation :: "'w env \<Rightarrow> ('w, 'z, goerror option) io" where
  "cWaitOperation E \<equiv> ext (x_WaitOperation E) (\<lambda>r. Cloud (WaitOperation r))"
abbreviation cDeleteInstance :: "'w env \<Rightarrow> string \<Rightarrow> string \<Rightarrow> string \<Rightarrow> ('w, 'z, goerror option) io" where
  "cDeleteInstance E p z n \<equiv> ext (x_DeleteInstance E p z n) (\<lambda>r. Cloud (DeleteInstance p z n r))"

abbreviation kPatchEndpoint ::
  "'w env \<Rightarrow> CodaEndpoint \<Rightarrow> CodaEndpoint \<Rightarrow> ('w, 'z, goerror + CodaEndpoint) io" where
  "kPatchEndpoint E old new \<equiv> ext (x_PatchEndpoint E old new) (\<lambda>r. Kube (PatchEndpoint old new r))"
abbreviation kListEndpoints :: "'w env \<Rightarrow> ('w, 'z, goerror + CodaEndpoint list) io" where
  "kListEndpoints E \<equiv> ext (x_ListEndpoints E) (\<lambda>r. Kube (ListEndpoints r))"
abbreviation kListPolicies :: "'w env \<Rightarrow> ('w, 'z, goerror + BufferPolicy list) io" where
  "kListPolicies E \<equiv> ext (x_ListPolicies E) (\<lambda>r. Kube (ListPolicies r))"
abbreviation kListTokens :: "'w env \<Rightarrow> ('w, 'z, goerror + CodaToken list) io" where
  "kListTokens E \<equiv> ext (x_ListTokens E) (\<lambda>r. Kube (ListTokens r))"
abbreviation kCreateToken :: "'w env \<Rightarrow> CodaToken \<Rightarrow> ('w, 'z, goerror option) io" where
  "kCreateToken E t \<equiv> ext (x_CreateToken E t) (\<lambda>r. Kube (CreateToken t r))"
abbreviation kCommandOutput :: "'w env \<Rightarrow> string list \<Rightarrow> ('w, 'z, goerror + string) io" where
  "kCommandOutput E argv \<equiv> ext (x_CommandOutput E argv) (CommandOutput argv)"
abbreviation kStat :: "'w env \<Rightarrow> string \<Rightarrow> ('w, 'z, goerror option) io" where
  "kStat E f \<equiv> ext (x_Stat E f) (Stat f)"
abbreviation kMkdirAll :: "'w env \<Rightarrow> string \<Rightarrow> ('w, 'z, goerror option) io" where
  "kMkdirAll E f \<equiv> ext (x_MkdirAll E f) (MkdirAll f)"
abbreviation kHTTP :: "'w env \<Rightarrow> HTTPRequest \<Rightarrow> ('w, 'z, goerror + HTTPResponse) io" where
  "kHTTP E q \<equiv> ext (x_HTTP E q) (HTTP q)"

text \<open>A metric of \<open>internal/metrics\<close> set or observed: its name, label values and value.\<close>

definition metric :: "string \<Rightarrow> string list \<Rightarrow> float64 \<Rightarrow> ('w, 'z, unit) io" where
  "metric name labels v = modify (\<lambda>s. s\<lparr>trace := trace s @ [Metric name labels v]\<rparr>)"

lemma wp_metric [wp]:
  "wp (metric name labels v) Q s = Q () (s\<lparr>trace := trace s @ [Metric name labels v]\<rparr>)"
  by (simp add: metric_def wp)

lemma emits_metric [emits]: "P () [Metric name labels v] \<Longrightarrow> emits (metric name labels v) P"
  by (simp add: emits_def wp)

lemma emits_metric_bind [emits]:
  "emits (f ()) (\<lambda>b es. Q b (Metric name labels v # es)) \<Longrightarrow>
   emits (State_Monad.bind (metric name labels v) f) Q"
  by (rule emits_bind [where P = "\<lambda>a es. es = [Metric name labels v]"]) (auto intro: emits_metric)

text \<open>
  An environment over any world in which nothing exists and every command succeeds; the witnesses
  override the calls they need.
\<close>

definition idleEnv :: "'w env" where
  "idleEnv = \<lparr>
     x_Now = (\<lambda>w. (0, w)), x_Sleep = (\<lambda>_ w. ((), w)),
     x_LookPath = (\<lambda>_ w. (None, w)), x_RunCommand = (\<lambda>_ w. (None, w)),
     x_GetPolicy = (\<lambda>n w. (Inl (ENotFound n), w)), x_GetPool = (\<lambda>n w. (Inl (ENotFound n), w)),
     x_GetNode = (\<lambda>n w. (Inl (ENotFound n), w)), x_GetEndpoint = (\<lambda>_ n w. (Inl (ENotFound n), w)),
     x_GetSecret = (\<lambda>_ n w. (Inl (ENotFound n), w)),
     x_ListNodes = (\<lambda>_ _ w. (Inr [], w)), x_ListPods = (\<lambda>w. (Inr [], w)),
     x_ListEndpointPods = (\<lambda>_ _ w. (Inr [], w)),
     x_UpdateNode = (\<lambda>n w. (Inr n, w)), x_StatusUpdatePool = (\<lambda>p w. (Inr p, w)),
     x_StatusUpdatePolicy = (\<lambda>p w. (Inr p, w)), x_StatusUpdateEndpoint = (\<lambda>p w. (Inr p, w)),
     x_CreatePod = (\<lambda>_ w. (None, w)), x_DeletePod = (\<lambda>_ w. (None, w)),
     x_EvictPod = (\<lambda>_ w. (None, w)), x_PatchPod = (\<lambda>_ _ w. (None, w)),
     x_LoadAWSConfig = (\<lambda>_ w. (None, w)),
     x_DescribeSpotPriceHistory = (\<lambda>_ _ w. (Inr [], w)),
     x_RunInstances = (\<lambda>_ _ w. (Inr [], w)), x_DescribeImages = (\<lambda>_ _ w. (Inr [], w)),
     x_TerminateInstances = (\<lambda>_ _ w. (None, w)),
     x_NewInstancesRESTClient = (\<lambda>_ w. (None, w)), x_InsertInstance = (\<lambda>_ w. (None, w)),
     x_WaitOperation = (\<lambda>w. (None, w)), x_DeleteInstance = (\<lambda>_ _ _ w. (None, w)),
     x_PatchEndpoint = (\<lambda>_ p w. (Inr p, w)), x_ListEndpoints = (\<lambda>w. (Inr [], w)),
     x_ListPolicies = (\<lambda>w. (Inr [], w)), x_ListTokens = (\<lambda>w. (Inr [], w)),
     x_CreateToken = (\<lambda>_ w. (None, w)), x_CommandOutput = (\<lambda>_ w. (Inr [], w)),
     x_Stat = (\<lambda>f w. (Some (ENotFound f), w)), x_MkdirAll = (\<lambda>_ w. (None, w)),
     x_HTTP = (\<lambda>_ w. (Inl (EMsg ''connection refused''), w)),
     x_ScanFloat = (\<lambda>_. None), x_ParseFloat = (\<lambda>_. None), x_SortImages = (\<lambda>_ xs. xs),
     x_Sha256 = (\<lambda>_. []), x_FormatTime = Itoa, x_ParseTime = Atoi, x_URLError = (\<lambda>_. None)\<rparr>"

end
