(* ===== verification/Scheduler.thy ===== *)
theory Scheduler
  imports Kube
begin

text \<open>
  \<open>pkg/scheduler\<close> (PoolView, Plan, the Scheduler interface) and \<open>pkg/scheduler/greedy\<close>.

  The interface is the locale \<open>scheduler\<close>: what a plan may contain, which is all the buffer
  controller relies on.  \<open>Fill\<close> sorts the pools by \<open>Priority + ObservedHourlyUSD * ICEPenalty\<close>
  with \<open>sort.Slice\<close> and takes from each as much as it can.  The sort is not stable by contract,
  so it is an argument of \<open>Fill\<close>; its contract is the locale \<open>sort_slice\<close>, interpreted on the
  insertion sort that Go runs for slices of up to twelve elements.  For every such sort the plan
  respects the limits, provisions the largest possible number of nodes up to the need, and has
  the least cost of all allocations of that many nodes.
\<close>

section \<open>sort.Slice\<close>

definition strict_weak_order :: "('a \<Rightarrow> 'a \<Rightarrow> bool) \<Rightarrow> bool" where
  "strict_weak_order lt \<longleftrightarrow>
     (\<forall>a. \<not> lt a a) \<and> (\<forall>a b c. lt a b \<longrightarrow> lt b c \<longrightarrow> lt a c) \<and>
     (\<forall>a b c. \<not> lt a b \<longrightarrow> \<not> lt b c \<longrightarrow> \<not> lt a c)"

locale sort_slice =
  fixes srt :: "('a \<Rightarrow> 'a \<Rightarrow> bool) \<Rightarrow> 'a list \<Rightarrow> 'a list"
  assumes srt_mset: "mset (srt lt xs) = mset xs"
    and srt_sorted: "strict_weak_order lt \<Longrightarrow> sorted_wrt (\<lambda>a b. \<not> lt b a) (srt lt xs)"
begin

lemma srt_set [simp]: "set (srt lt xs) = set xs"
  using srt_mset by (metis set_mset_mset)

lemma srt_key_sorted: "sorted_wrt (\<lambda>a b. (k a :: 'b::linorder) \<le> k b) (srt (\<lambda>a b. k a < k b) xs)"
proof -
  have "strict_weak_order (\<lambda>a b. k a < k b)" by (fastforce simp: strict_weak_order_def not_less)
  from srt_sorted [OF this] show ?thesis by (simp add: not_less)
qed

end

text \<open>
  Go's \<open>insertionSort_func\<close>: each element moves left past the greater ones.  The sorted prefix is
  kept reversed, so that its end is at the front of the list.
\<close>

fun moveLeft :: "('a \<Rightarrow> 'a \<Rightarrow> bool) \<Rightarrow> 'a \<Rightarrow> 'a list \<Rightarrow> 'a list" where
  "moveLeft lt x [] = [x]"
| "moveLeft lt x (y # ys) = (if lt x y then y # moveLeft lt x ys else x # y # ys)"

fun insertionSortAux :: "('a \<Rightarrow> 'a \<Rightarrow> bool) \<Rightarrow> 'a list \<Rightarrow> 'a list \<Rightarrow> 'a list" where
  "insertionSortAux lt acc [] = rev acc"
| "insertionSortAux lt acc (x # xs) = insertionSortAux lt (moveLeft lt x acc) xs"

definition insertionSort :: "('a \<Rightarrow> 'a \<Rightarrow> bool) \<Rightarrow> 'a list \<Rightarrow> 'a list" where
  "insertionSort lt xs = insertionSortAux lt [] xs"

lemma mset_moveLeft [simp]: "mset (moveLeft lt x ys) = add_mset x (mset ys)"
  by (induction ys) auto

lemma set_moveLeft [simp]: "set (moveLeft lt x ys) = insert x (set ys)"
  by (induction ys) auto

lemma mset_insertionSortAux: "mset (insertionSortAux lt acc xs) = mset acc + mset xs"
  by (induction xs arbitrary: acc) auto

lemma sorted_moveLeft:
  assumes "strict_weak_order lt" and "sorted_wrt (\<lambda>a b. \<not> lt a b) ys"
  shows "sorted_wrt (\<lambda>a b. \<not> lt a b) (moveLeft lt x ys)"
  using assms(2)
proof (induction ys)
  case (Cons y ys)
  have swo: "\<not> lt a a" "lt a b \<Longrightarrow> lt b c \<Longrightarrow> lt a c" "\<not> lt a b \<Longrightarrow> \<not> lt b c \<Longrightarrow> \<not> lt a c" for a b c
    using assms(1) unfolding strict_weak_order_def by blast+
  have "\<not> lt y x" if "lt x y" using swo(1) swo(2) [OF that] by blast
  moreover have "\<forall>z\<in>set ys. \<not> lt x z" if "\<not> lt x y"
    using Cons.prems swo(3) [OF that] by simp
  ultimately show ?case using Cons by auto
qed simp

lemma sorted_insertionSortAux:
  assumes "strict_weak_order lt" and "sorted_wrt (\<lambda>a b. \<not> lt a b) acc"
  shows "sorted_wrt (\<lambda>a b. \<not> lt b a) (insertionSortAux lt acc xs)"
  using assms(2)
  by (induction xs arbitrary: acc) (simp_all add: sorted_wrt_rev sorted_moveLeft [OF assms(1)])

interpretation ins: sort_slice insertionSort
  by unfold_locales (simp_all add: insertionSort_def mset_insertionSortAux sorted_insertionSortAux)

section \<open>The interface\<close>

record PoolView =
  pv_Name :: string
  pv_Priority :: int
  pv_ObservedHourlyUSD :: float64
  pv_ICEPenalty :: float64
  pv_MaxNodes :: int
  pv_CurrentNodes :: int
  pv_Available :: int

record PlanEntry =
  pe_PoolName :: string
  pe_NodeCount :: int

record Plan =
  plan_Entries :: "PlanEntry list"

definition planTotal :: "Plan \<Rightarrow> int" where
  "planTotal p = (\<Sum>e\<leftarrow>plan_Entries p. pe_NodeCount e)"

text \<open>How many nodes a pool can still take: its headroom, capped by the observed availability if that is known.\<close>

definition room :: "PoolView \<Rightarrow> int" where
  "room p = (let capacity = pv_MaxNodes p - pv_CurrentNodes p
             in if capacity \<le> 0 then 0
                else if 0 < pv_Available p \<and> pv_Available p < capacity then pv_Available p
                else capacity)"

lemma room_nonneg: "0 \<le> room p"
  by (simp add: room_def Let_def)

lemma room_le_headroom: "0 < room p \<Longrightarrow> pv_CurrentNodes p + room p \<le> pv_MaxNodes p"
  by (auto simp: room_def Let_def split: if_splits)

locale scheduler =
  fixes fill :: "int \<Rightarrow> PoolView list \<Rightarrow> goerror + Plan"
  assumes fill_total: "fill need pools = Inr plan \<Longrightarrow> planTotal plan \<le> max 0 need"
    and fill_pos: "fill need pools = Inr plan \<Longrightarrow> e \<in> set (plan_Entries plan) \<Longrightarrow> 0 < pe_NodeCount e"
    and fill_room: "fill need pools = Inr plan \<Longrightarrow> e \<in> set (plan_Entries plan) \<Longrightarrow>
      \<exists>p\<in>set pools. pv_Name p = pe_PoolName e \<and> pe_NodeCount e \<le> room p"
begin

lemma fill_no_need: "fill need pools = Inr plan \<Longrightarrow> need \<le> 0 \<Longrightarrow> plan_Entries plan = []"
proof (rule ccontr)
  assume plan: "fill need pools = Inr plan" and "need \<le> 0" and "plan_Entries plan \<noteq> []"
  then obtain e es where es: "plan_Entries plan = e # es" by (cases "plan_Entries plan") auto
  have "0 \<le> (\<Sum>e\<leftarrow>es. pe_NodeCount e)"
    by (rule sum_list_nonneg) (use es fill_pos [OF plan] in force)
  moreover have "0 < pe_NodeCount e" using es fill_pos [OF plan] by simp
  moreover have "planTotal plan = pe_NodeCount e + (\<Sum>e\<leftarrow>es. pe_NodeCount e)"
    by (simp add: planTotal_def es)
  ultimately show False using fill_total [OF plan] \<open>need \<le> 0\<close> by simp
qed

lemma fill_within_limit:
  assumes "fill need pools = Inr plan" and "e \<in> set (plan_Entries plan)"
  shows "\<exists>p\<in>set pools. pv_Name p = pe_PoolName e \<and> pv_CurrentNodes p + pe_NodeCount e \<le> pv_MaxNodes p"
proof -
  obtain p where p: "p \<in> set pools" "pv_Name p = pe_PoolName e" "pe_NodeCount e \<le> room p"
    using fill_room [OF assms] by blast
  moreover have "0 < room p" using fill_pos [OF assms] p(3) by simp
  ultimately show ?thesis using room_le_headroom [of p] by force
qed

end

section \<open>The greedy scheduler\<close>

definition cost :: "PoolView \<Rightarrow> float64" where
  "cost p = f_add (f_of_int (pv_Priority p)) (f_mul (pv_ObservedHourlyUSD p) (pv_ICEPenalty p))"

fun fillLoop :: "int \<Rightarrow> PoolView list \<Rightarrow> PlanEntry list" where
  "fillLoop remaining [] = []"
| "fillLoop remaining (pool # pools) =
     (if remaining \<le> 0 then []
      else let capacity = pv_MaxNodes pool - pv_CurrentNodes pool
        in if capacity \<le> 0 then fillLoop remaining pools
           else let capacity' = (if 0 < pv_Available pool \<and> pv_Available pool < capacity
                                 then pv_Available pool else capacity);
                    n = (if capacity' < remaining then capacity' else remaining)
             in if n \<le> 0 then fillLoop remaining pools
                else \<lparr>pe_PoolName = pv_Name pool, pe_NodeCount = n\<rparr> # fillLoop (remaining - n) pools)"

definition Fill ::
  "((PoolView \<Rightarrow> PoolView \<Rightarrow> bool) \<Rightarrow> PoolView list \<Rightarrow> PoolView list) \<Rightarrow> int \<Rightarrow> PoolView list \<Rightarrow> goerror + Plan"
where
  "Fill srt need pools =
     (if need \<le> 0 then Inr \<lparr>plan_Entries = []\<rparr>
      else Inr \<lparr>plan_Entries = fillLoop need (srt (\<lambda>a b. cost a < cost b) pools)\<rparr>)"

text \<open>The allocation behind a plan: for each pool, in sorted order, the number of nodes taken.\<close>

fun take_greedy :: "int \<Rightarrow> PoolView list \<Rightarrow> (PoolView \<times> int) list" where
  "take_greedy r [] = []"
| "take_greedy r (p # ps) = (p, min (max 0 r) (room p)) # take_greedy (r - min (max 0 r) (room p)) ps"

definition entry_of :: "PoolView \<times> int \<Rightarrow> PlanEntry" where
  "entry_of x = \<lparr>pe_PoolName = pv_Name (fst x), pe_NodeCount = snd x\<rparr>"

lemma fillLoop_take_greedy:
  "fillLoop r ps = map entry_of (filter (\<lambda>x. 0 < snd x) (take_greedy r ps))"
proof (induction ps arbitrary: r)
  case (Cons p ps)
  have none: "filter (\<lambda>x. 0 < snd x) (take_greedy r qs) = []" if "r \<le> 0" for r qs
    using that by (induction qs arbitrary: r) (auto simp: room_nonneg)
  show ?case
  proof (cases "r \<le> 0 \<or> pv_MaxNodes p - pv_CurrentNodes p \<le> 0")
    case True
    then show ?thesis using Cons none [of r "p # ps"] by (auto simp: room_def Let_def)
  next
    case False
    then have "0 < room p" by (auto simp: room_def Let_def)
    with False show ?thesis
      using Cons by (auto simp: room_def Let_def entry_of_def min_def max_def)
  qed
qed simp

definition alloc_total :: "(PoolView \<times> int) list \<Rightarrow> int" where
  "alloc_total as = (\<Sum>x\<leftarrow>as. snd x)"

definition alloc_cost :: "(PoolView \<times> int) list \<Rightarrow> rat" where
  "alloc_cost as = (\<Sum>x\<leftarrow>as. of_int (snd x) * cost (fst x))"

definition feasible :: "(PoolView \<times> int) list \<Rightarrow> bool" where
  "feasible as \<longleftrightarrow> list_all (\<lambda>x. 0 \<le> snd x \<and> snd x \<le> room (fst x)) as"

lemma alloc_simps [simp]:
  "alloc_total [] = 0" "alloc_total (x # as) = snd x + alloc_total as"
  "alloc_cost [] = 0" "alloc_cost (x # as) = of_int (snd x) * cost (fst x) + alloc_cost as"
  "feasible [] \<longleftrightarrow> True"
  "feasible (x # as) \<longleftrightarrow> 0 \<le> snd x \<and> snd x \<le> room (fst x) \<and> feasible as"
  by (simp_all add: alloc_total_def alloc_cost_def feasible_def)

lemma take_greedy_fst [simp]: "map fst (take_greedy r ps) = ps"
  by (induction ps arbitrary: r) auto

lemma take_greedy_feasible [simp]: "feasible (take_greedy r ps)"
  by (induction ps arbitrary: r) (auto simp: room_nonneg)

lemma rooms_nonneg: "0 \<le> (\<Sum>p\<leftarrow>ps. room p)"
  by (rule sum_list_nonneg) (auto simp: room_nonneg)

lemma take_greedy_total: "alloc_total (take_greedy r ps) = min (max 0 r) (\<Sum>p\<leftarrow>ps. room p)"
proof (induction ps arbitrary: r)
  case (Cons p ps)
  then show ?case using room_nonneg [of p] rooms_nonneg [of ps] by (auto simp: min_def max_def)
qed (simp add: min_def max_def)

lemma planTotal_fillLoop:
  "(\<Sum>e\<leftarrow>fillLoop r ps. pe_NodeCount e) = min (max 0 r) (\<Sum>p\<leftarrow>ps. room p)"
proof -
  have "(\<Sum>e\<leftarrow>map entry_of (filter (\<lambda>x. 0 < snd x) as). pe_NodeCount e) = alloc_total as"
    if "feasible as" for as
    using that by (induction as) (auto simp: entry_of_def)
  then show ?thesis by (simp add: fillLoop_take_greedy take_greedy_total)
qed

subsection \<open>Optimality\<close>

text \<open>Taking more from pools that all cost at least \<open>c\<close> costs at least \<open>c\<close> for each extra node.\<close>

lemma take_greedy_cost_mono:
  assumes "\<forall>p\<in>set ps. c \<le> cost p" and "sorted_wrt (\<lambda>a b. cost a \<le> cost b) ps" and "r \<le> r'"
  shows "alloc_cost (take_greedy r ps)
           + c * of_int (alloc_total (take_greedy r' ps) - alloc_total (take_greedy r ps))
         \<le> alloc_cost (take_greedy r' ps)"
  using assms
proof (induction ps arbitrary: r r' c)
  case (Cons p ps)
  let ?n = "min (max 0 r) (room p)" and ?n' = "min (max 0 r') (room p)"
  let ?a = "take_greedy (r - ?n) ps" and ?a' = "take_greedy (r' - ?n') ps"
  have n: "?n \<le> ?n'" and r: "r - ?n \<le> r' - ?n'"
    using Cons.prems(3) room_nonneg [of p] by (auto simp: min_def max_def)
  have "alloc_cost ?a + c * of_int (alloc_total ?a' - alloc_total ?a) \<le> alloc_cost ?a'"
    using Cons.prems r by (intro Cons.IH) auto
  moreover have "c * of_int (?n' - ?n) \<le> cost p * of_int (?n' - ?n)"
    using Cons.prems(1) n by (intro mult_right_mono) auto
  ultimately show ?case by (simp add: algebra_simps)
qed simp

lemma take_greedy_optimal_aligned:
  assumes "map fst as = ps" and "feasible as" and "sorted_wrt (\<lambda>a b. cost a \<le> cost b) ps"
  shows "alloc_cost (take_greedy (alloc_total as) ps) \<le> alloc_cost as"
  using assms
proof (induction ps arbitrary: as)
  case (Cons p ps)
  then obtain x bs where as: "as = (p, x) # bs" and bs: "map fst bs = ps" "feasible bs"
    and x: "0 \<le> x" "x \<le> room p"
    by (cases as) auto
  have nn: "0 \<le> alloc_total bs"
    using bs(2) unfolding alloc_total_def feasible_def by (intro sum_list_nonneg) (auto simp: list_all_iff)
  let ?r = "x + alloc_total bs"
  let ?n = "min ?r (room p)"
  have n: "x \<le> ?n" "max 0 ?r = ?r" using x nn by auto
  have le: "?r - ?n \<le> alloc_total bs" using n by simp
  have cap: "alloc_total (take_greedy (alloc_total bs) ps) = alloc_total bs"
  proof -
    have "alloc_total bs \<le> (\<Sum>p\<leftarrow>map fst bs. room p)" using bs(2) by (induction bs) auto
    then show ?thesis using nn bs(1) by (simp add: take_greedy_total)
  qed
  have cap': "alloc_total (take_greedy (?r - ?n) ps) = ?r - ?n"
    using take_greedy_total [of "?r - ?n" ps] take_greedy_total [of "alloc_total bs" ps] cap le nn
    by (simp add: min_def max_def split: if_splits)
  have "alloc_cost (take_greedy (?r - ?n) ps) + cost p * of_int (alloc_total bs - (?r - ?n))
          \<le> alloc_cost (take_greedy (alloc_total bs) ps)"
    using take_greedy_cost_mono [of ps "cost p" "?r - ?n" "alloc_total bs"] Cons.prems(3) le
    by (simp add: cap cap')
  also have "\<dots> \<le> alloc_cost bs" using Cons.prems(3) bs by (intro Cons.IH) auto
  finally show ?case using n by (simp add: as algebra_simps)
qed simp

lemma mset_map_align:
  assumes "mset (map f xs) = mset ys"
  shows "\<exists>zs. mset zs = mset xs \<and> map f zs = ys"
  using assms
proof (induction ys arbitrary: xs)
  case (Cons y ys)
  then have "y \<in> set (map f xs)" by (metis list.set_intros(1) set_mset_mset)
  then obtain x where x: "x \<in> set xs" "f x = y" by auto
  have "mset (map f (remove1 x xs)) = mset ys"
    using Cons.prems x by (simp add: image_mset_Diff)
  then obtain zs where zs: "mset zs = mset (remove1 x xs)" "map f zs = ys" using Cons.IH by blast
  have "mset (x # zs) = mset xs" using x(1) zs(1) by simp
  then show ?case using x(2) zs(2) by (metis list.simps(9))
qed simp

text \<open>For a sorted list of pools, no feasible allocation of as many nodes is cheaper.\<close>

lemma take_greedy_optimal:
  assumes "mset (map fst as) = mset ps" and "feasible as"
    and "sorted_wrt (\<lambda>a b. cost a \<le> cost b) ps"
    and "alloc_total as = alloc_total (take_greedy r ps)"
  shows "alloc_cost (take_greedy r ps) \<le> alloc_cost as"
proof -
  obtain bs where bs: "mset bs = mset as" "map fst bs = ps" using mset_map_align [OF assms(1)] by blast
  have "set bs = set as" using bs(1) by (rule mset_eq_setD)
  then have feas: "feasible bs" using assms(2) by (simp add: feasible_def list_all_iff)
  have same: "alloc_total bs = alloc_total as" "alloc_cost bs = alloc_cost as"
    unfolding alloc_total_def alloc_cost_def by (simp_all only: sum_mset_sum_list [symmetric] mset_map bs(1))
  have self: "take_greedy (alloc_total (take_greedy r ps)) ps = take_greedy r ps"
  proof (induction ps arbitrary: r)
    case (Cons p ps)
    have "0 \<le> alloc_total (take_greedy (r - min (max 0 r) (room p)) ps)"
      by (simp add: take_greedy_total rooms_nonneg)
    then show ?case
      using Cons [of "r - min (max 0 r) (room p)"] room_nonneg [of p]
      by (auto simp: take_greedy_total min_def max_def split: if_splits)
  qed simp
  show ?thesis
    using take_greedy_optimal_aligned [OF bs(2) feas assms(3)] same assms(4) self by simp
qed

section \<open>Properties\<close>

lemma Fill_entries:
  assumes "Fill srt need pools = Inr plan"
  shows "plan_Entries plan = fillLoop need (srt (\<lambda>a b. cost a < cost b) pools)"
proof (cases "need \<le> 0")
  case True
  then have "fillLoop need xs = []" for xs by (cases xs) auto
  with assms True show ?thesis by (auto simp: Fill_def)
qed (use assms in \<open>auto simp: Fill_def\<close>)

lemma fillLoop_entry:
  "e \<in> set (fillLoop r ps) \<Longrightarrow>
   \<exists>p\<in>set ps. pv_Name p = pe_PoolName e \<and> 0 < pe_NodeCount e \<and> pe_NodeCount e \<le> room p"
proof -
  assume "e \<in> set (fillLoop r ps)"
  then obtain x where x: "x \<in> set (take_greedy r ps)" "0 < snd x" "e = entry_of x"
    by (auto simp: fillLoop_take_greedy)
  moreover have "snd x \<le> room (fst x)"
    using take_greedy_feasible [of r ps] x(1) by (auto simp: feasible_def list_all_iff)
  moreover have "fst x \<in> set ps" using x(1) take_greedy_fst [of r ps] by (metis image_eqI set_map)
  ultimately show ?thesis by (auto simp: entry_of_def)
qed

lemma sum_list_srt:
  assumes "sort_slice srt"
  shows "(\<Sum>p\<leftarrow>srt lt pools. f p) = (\<Sum>p\<leftarrow>pools. f p :: int)"
  by (simp only: sum_mset_sum_list [symmetric] mset_map sort_slice.srt_mset [OF assms])

lemma Fill_scheduler:
  assumes "sort_slice srt"
  shows "scheduler (Fill srt)"
proof
  fix need pools plan
  assume "Fill srt need pools = Inr plan"
  then have plan: "plan_Entries plan = fillLoop need (srt (\<lambda>a b. cost a < cost b) pools)"
    by (rule Fill_entries)
  show "planTotal plan \<le> max 0 need" by (simp add: planTotal_def plan planTotal_fillLoop)
  fix e
  assume "e \<in> set (plan_Entries plan)"
  from fillLoop_entry [OF this [unfolded plan]]
  show "0 < pe_NodeCount e" and "\<exists>p\<in>set pools. pv_Name p = pe_PoolName e \<and> pe_NodeCount e \<le> room p"
    by (auto simp: sort_slice.srt_set [OF assms])
qed

interpretation greedy: scheduler "Fill insertionSort"
  by (rule Fill_scheduler) unfold_locales

text \<open>Two pools of the repository's own scheduler test, the cheap one nearly full.\<close>

definition viewA :: PoolView where
  "viewA = \<lparr>pv_Name = ''expensive'', pv_Priority = 20, pv_ObservedHourlyUSD = 50, pv_ICEPenalty = 1,
            pv_MaxNodes = 10, pv_CurrentNodes = 0, pv_Available = 10\<rparr>"

definition viewB :: PoolView where
  "viewB = \<lparr>pv_Name = ''cheap'', pv_Priority = 10, pv_ObservedHourlyUSD = 5, pv_ICEPenalty = 1,
            pv_MaxNodes = 10, pv_CurrentNodes = 8, pv_Available = 10\<rparr>"

lemma fill_views:
  "Fill insertionSort 3 [viewA, viewB] =
     Inr \<lparr>plan_Entries = [\<lparr>pe_PoolName = ''cheap'', pe_NodeCount = 2\<rparr>, \<lparr>pe_PoolName = ''expensive'', pe_NodeCount = 1\<rparr>]\<rparr>"
  by code_simp

text \<open>
  C28: the greedy scheduler always returns a plan, and whatever order \<open>sort.Slice\<close> gives to pools
  of equal cost, the plan asks for exactly as many nodes as are needed or, if the pools cannot
  take that many, for as many as they can take together.
\<close>

theorem fill_complete:
  assumes "sort_slice srt"
  shows "\<exists>plan. Fill srt need pools = Inr plan \<and>
           planTotal plan = min (max 0 need) (\<Sum>p\<leftarrow>pools. room p)"
proof -
  obtain plan where plan: "Fill srt need pools = Inr plan" by (cases "need \<le> 0") (auto simp: Fill_def)
  have "planTotal plan = min (max 0 need) (\<Sum>p\<leftarrow>pools. room p)"
    by (simp add: planTotal_def Fill_entries [OF plan] planTotal_fillLoop sum_list_srt [OF assms])
  with plan show ?thesis by blast
qed

theorem fill_complete_witness:
  "\<exists>plan. Fill insertionSort 3 [viewA, viewB] = Inr plan \<and> planTotal plan = 3"
proof -
  have srt: "sort_slice (insertionSort :: (PoolView \<Rightarrow> PoolView \<Rightarrow> bool) \<Rightarrow> _)" by unfold_locales
  have "min (max 0 3) (\<Sum>p\<leftarrow>[viewA, viewB]. room p) = 3" by code_simp
  then show ?thesis using fill_complete [OF srt, of 3 "[viewA, viewB]"] by simp
qed

text \<open>
  C4: no allocation of the same number of nodes that respects the pools' room has a lower total
  cost (nodes times \<open>Priority + ObservedHourlyUSD * ICEPenalty\<close>) than the one the plan lists.
  The plan's entries are the allocation's positive parts, in sorted order.
\<close>

theorem fill_optimal:
  assumes "sort_slice srt" and "Fill srt need pools = Inr plan"
  shows "\<exists>as. plan_Entries plan = map entry_of (filter (\<lambda>x. 0 < snd x) as) \<and>
           mset (map fst as) = mset pools \<and> feasible as \<and>
           (\<forall>bs. mset (map fst bs) = mset pools \<and> feasible bs \<and> alloc_total bs = alloc_total as
                \<longrightarrow> alloc_cost as \<le> alloc_cost bs)"
proof (intro exI conjI allI impI)
  let ?ps = "srt (\<lambda>a b. cost a < cost b) pools"
  show "plan_Entries plan = map entry_of (filter (\<lambda>x. 0 < snd x) (take_greedy need ?ps))"
    using Fill_entries [OF assms(2)] by (simp add: fillLoop_take_greedy)
  show "mset (map fst (take_greedy need ?ps)) = mset pools"
    using sort_slice.srt_mset [OF assms(1)] by simp
  show "feasible (take_greedy need ?ps)" by simp
  fix bs
  assume bs: "mset (map fst bs) = mset pools \<and> feasible bs \<and> alloc_total bs = alloc_total (take_greedy need ?ps)"
  then have "mset (map fst bs) = mset ?ps" using sort_slice.srt_mset [OF assms(1)] by simp
  then show "alloc_cost (take_greedy need ?ps) \<le> alloc_cost bs"
    using bs sort_slice.srt_key_sorted [OF assms(1)] by (intro take_greedy_optimal) auto
qed

theorem fill_optimal_witness:
  "\<exists>as. [\<lparr>pe_PoolName = ''cheap'', pe_NodeCount = 2\<rparr>, \<lparr>pe_PoolName = ''expensive'', pe_NodeCount = 1\<rparr>]
          = map entry_of (filter (\<lambda>x. 0 < snd x) as) \<and>
        mset (map fst as) = mset [viewA, viewB] \<and> feasible as \<and>
        (\<forall>bs. mset (map fst bs) = mset [viewA, viewB] \<and> feasible bs \<and> alloc_total bs = alloc_total as
             \<longrightarrow> alloc_cost as \<le> alloc_cost bs)"
proof -
  have "sort_slice (insertionSort :: (PoolView \<Rightarrow> PoolView \<Rightarrow> bool) \<Rightarrow> _)" by unfold_locales
  from fill_optimal [OF this fill_views] show ?thesis by simp
qed

text \<open>
  every entry of a plan asks a pool of the list for a positive number of nodes that, with the
  nodes the pool already has, stays within the pool's \<open>MaxNodes\<close>, and within its observed
  availability where that is known.
\<close>

theorem fill_limits:
  assumes "sort_slice srt" and "Fill srt need pools = Inr plan" and "e \<in> set (plan_Entries plan)"
  shows "0 < pe_NodeCount e \<and>
         (\<exists>p\<in>set pools. pv_Name p = pe_PoolName e \<and> pv_CurrentNodes p + pe_NodeCount e \<le> pv_MaxNodes p \<and>
            (0 < pv_Available p \<longrightarrow> pe_NodeCount e \<le> pv_Available p))"
proof -
  note sch = Fill_scheduler [OF assms(1)]
  obtain p where p: "p \<in> set pools" "pv_Name p = pe_PoolName e" "pe_NodeCount e \<le> room p"
    using scheduler.fill_room [OF sch assms(2,3)] by blast
  moreover have pos: "0 < pe_NodeCount e" using scheduler.fill_pos [OF sch assms(2,3)] .
  moreover have "0 < pv_Available p \<Longrightarrow> room p \<le> pv_Available p"
    using p(3) pos by (auto simp: room_def Let_def split: if_splits)
  ultimately show ?thesis using room_le_headroom [of p] by fastforce
qed

theorem fill_limits_witness:
  "0 < (2::int) \<and> (\<exists>p\<in>{viewA, viewB}. pv_Name p = ''cheap'' \<and> pv_CurrentNodes p + 2 \<le> pv_MaxNodes p \<and>
     (0 < pv_Available p \<longrightarrow> 2 \<le> pv_Available p))"
proof -
  have "sort_slice (insertionSort :: (PoolView \<Rightarrow> PoolView \<Rightarrow> bool) \<Rightarrow> _)" by unfold_locales
  from fill_limits [OF this fill_views, of "\<lparr>pe_PoolName = ''cheap'', pe_NodeCount = 2\<rparr>"]
  show ?thesis by simp
qed

end
