(* ===== verification/Providers.thy ===== *)
theory Providers
  imports Scheduler
begin

text \<open>
  \<open>pkg/capacity\<close>: the capacity providers \<open>static\<close>, \<open>aws\<close> and \<open>gcp\<close>, the registries, the
  \<open>ProviderCache\<close> and \<open>internal/capacityfactory\<close>.

  A provider is a value; its methods return the updated value beside the result, since \<open>Quote\<close>
  and \<open>Provision\<close> write to \<open>hourlyUSD\<close> and \<open>lastICE\<close>.  The controllers hold the pointers that
  \<open>ProviderCache.ForPool\<close> returns, all of which point into the cache, so a pointer is the name of
  the pool under which the cache keeps the provider (\<open>ProviderRef\<close>).

  Interfaces: the locale \<open>registry\<close> (what \<open>Get\<close> returns after a series of \<open>Register\<close>) is
  interpreted on the two registries of this package, and by the engine and KV registries later;
  the locale \<open>capacity_provider\<close> (an offer for every quote; insufficient-capacity errors are
  remembered and reported) is interpreted on the dispatch over the three providers.
\<close>

section \<open>Registries\<close>

text \<open>Values are registered under their own key; the last registration wins.\<close>

locale registry =
  fixes newReg :: 'r
    and register :: "'r \<Rightarrow> 'v \<Rightarrow> 'r"
    and get :: "'r \<Rightarrow> string \<Rightarrow> 'v option"
    and key :: "'v \<Rightarrow> string"
  assumes get_new: "get newReg k = None"
    and get_register: "get (register r v) k = (if k = key v then Some v else get r k)"
begin

lemma get_registered: "get (fold (\<lambda>v r. register r v) vs r) k =
  (case find (\<lambda>v. key v = k) (rev vs) of Some v \<Rightarrow> Some v | None \<Rightarrow> get r k)"
proof (induction vs rule: rev_induct)
  case (snoc v vs)
  then show ?case by (auto simp: get_register split: option.splits)
qed (simp add: get_register)

lemma find_rev_SomeD: "find P (rev vs) = Some v \<Longrightarrow> P v \<and> v \<in> set vs"
  by (metis find_Some_iff nth_mem set_rev)

lemma get_key: "get (fold (\<lambda>v r. register r v) vs newReg) k = Some v \<Longrightarrow> key v = k \<and> v \<in> set vs"
  by (auto simp: get_registered get_new dest: find_rev_SomeD split: option.splits)

lemma get_unknown:
  "get (fold (\<lambda>v r. register r v) vs newReg) k = None \<longleftrightarrow> k \<notin> key ` set vs"
  by (auto simp: get_registered get_new find_None_iff dest: find_rev_SomeD split: option.splits)

end

section \<open>pkg/capacity/static\<close>

record StaticProvider =
  stp_poolName :: string

definition static_ProviderName :: string where
  "static_ProviderName = ''static''"

definition static_Quote ::
  "'w env \<Rightarrow> StaticProvider \<Rightarrow> GPURequest \<Rightarrow> ('w, 'z, (goerror + Offer list) \<times> StaticProvider) io" where
  "static_Quote E p req = do {
     now \<leftarrow> kNow E;
     ret (Inr [\<lparr>of_ID = ''static-'' @ stp_poolName p, of_InstanceType = ''static'', of_Zone = ''local'',
                of_HourlyUSD = 0, of_ExpiresAt = now + 24 * hour, of_Interruptible = False\<rparr>], p)
   }"

definition static_Provision ::
  "'w env \<Rightarrow> StaticProvider \<Rightarrow> Offer \<Rightarrow> ('w, 'z, (goerror + NodeHandle) outcome \<times> StaticProvider) io" where
  "static_Provision E p offer = do {
     t \<leftarrow> kNow E;
     let nodeName = ''static-pending-'' @ Itoa t;
     now \<leftarrow> kNow E;
     ret (Returns (Inr \<lparr>nh_ProviderID = ''static://'' @ stp_poolName p @ ''/'' @ nodeName,
            nh_NodeName = nodeName,
            nh_Labels = [''opencoda.dev/provider'' \<mapsto> static_ProviderName,
                         ''opencoda.dev/pool'' \<mapsto> stp_poolName p],
            nh_LaunchedAt = now\<rparr>), p)
   }"

definition static_Release ::
  "'w env \<Rightarrow> StaticProvider \<Rightarrow> NodeHandle \<Rightarrow> ('w, 'z, goerror option \<times> StaticProvider) io" where
  "static_Release E p h = ret (None, p)"

definition static_Capacity ::
  "'w env \<Rightarrow> StaticProvider \<Rightarrow> string \<Rightarrow> ('w, 'z, (goerror + CapacityReport) \<times> StaticProvider) io" where
  "static_Capacity E p pool =
     ret (Inr \<lparr>cr_Available = 100, cr_RecentICE = [], cr_ObservedHourlyUSD = 0\<rparr>, p)"

section \<open>pkg/capacity/aws\<close>

record AwsProvider =
  aws_client :: EC2Client
  aws_region :: string
  aws_poolName :: string
  aws_instanceTypes :: "string list"
  aws_subnets :: "string list"
  aws_capacityType :: string
  aws_params :: "string \<rightharpoonup> string"
  aws_boot :: BootstrapConfig
  aws_lastICE :: "gotime list"
  aws_hourlyUSD :: float64

definition aws_ProviderName :: string where
  "aws_ProviderName = ''aws''"

text \<open>The configuration is the region with the static credentials; loading it may fail.\<close>

definition loadAWSConfig ::
  "'w env \<Rightarrow> string \<Rightarrow> (string \<rightharpoonup> string) \<Rightarrow> ('w, 'z, goerror + EC2Client) io" where
  "loadAWSConfig E region creds =
     (let cfg = \<lparr>ec2_Region = region,
                 ec2_StaticKeys = (case creds ''AWS_ACCESS_KEY_ID'' of
                    None \<Rightarrow> None
                  | Some ak \<Rightarrow> Some (ak, mget creds ''AWS_SECRET_ACCESS_KEY'', mget creds ''AWS_SESSION_TOKEN''))\<rparr>
      in do {
        err \<leftarrow> cLoadAWSConfig E cfg;
        ret (case err of Some e \<Rightarrow> Inl e | None \<Rightarrow> Inr cfg)
      })"

definition splitCSV :: "string \<Rightarrow> string list" where
  "splitCSV s = (if s = [] then [] else filter (\<lambda>p. p \<noteq> []) (map TrimSpace (Split s (CHR '',''))))"

definition aws_Factory ::
  "'w env \<Rightarrow> GPUPool \<Rightarrow> (string \<rightharpoonup> string) \<Rightarrow> BootstrapConfig \<Rightarrow> ('w, 'z, goerror + AwsProvider) io" where
  "aws_Factory E pool creds boot =
     (let region = (if pool_Param pool ''region'' = [] then ''us-east-1'' else pool_Param pool ''region'')
      in do {
        r \<leftarrow> loadAWSConfig E region creds;
        case r of
          Inl err \<Rightarrow> ret (Inl err)
        | Inr cfg \<Rightarrow>
            let capType = (if pool_Param pool ''capacityType'' = [] then ''spot''
                           else pool_Param pool ''capacityType'');
                subnets = splitCSV (pool_Param pool ''subnets'')
            in ret (Inr \<lparr>aws_client = cfg, aws_region = region, aws_poolName = pool_Name pool,
                  aws_instanceTypes = gps_InstanceTypes (pool_Spec pool), aws_subnets = subnets,
                  aws_capacityType = capType,
                  aws_params = prs_Params (gps_Provider (pool_Spec pool)),
                  aws_boot = boot, aws_lastICE = [], aws_hourlyUSD = 0\<rparr>)
      })"

text \<open>\<open>Sscanf\<close> with \<open>%f\<close> is a parameter; \<open>None\<close> is its error.\<close>

definition parseSpotPrice :: "'w env \<Rightarrow> string option \<Rightarrow> float64 option" where
  "parseSpotPrice E s = (case s of None \<Rightarrow> None | Some t \<Rightarrow> x_ScanFloat E t)"

text \<open>The instance type is the first of the request, else the first of the pool, else a default.\<close>

definition quoteType :: "string \<Rightarrow> string list \<Rightarrow> GPURequest \<Rightarrow> string" where
  "quoteType dflt types req =
     (let t = (case types of [] \<Rightarrow> dflt | x # _ \<Rightarrow> x)
      in case req_InstanceTypes req of [] \<Rightarrow> t | x # _ \<Rightarrow> x)"

definition aws_Quote ::
  "'w env \<Rightarrow> AwsProvider \<Rightarrow> GPURequest \<Rightarrow> ('w, 'z, (goerror + Offer list) \<times> AwsProvider) io" where
  "aws_Quote E p req =
     (let instanceType = quoteType ''p5.48xlarge'' (aws_instanceTypes p) req;
          zone = (if cn_Zone (req_Constraints req) \<noteq> [] then cn_Zone (req_Constraints req)
                  else aws_region p @ ''a'')
      in do {
        (price, p) \<leftarrow>
          (if aws_hourlyUSD p = 0 then do {
             out \<leftarrow> cDescribeSpotPriceHistory E (aws_client p) instanceType;
             ret (case out of
                    Inr (sp # _) \<Rightarrow>
                      (case parseSpotPrice E sp of
                         Some v \<Rightarrow> (v, p\<lparr>aws_hourlyUSD := v\<rparr>)
                       | None \<Rightarrow> (aws_hourlyUSD p, p))
                  | _ \<Rightarrow> (aws_hourlyUSD p, p))
           } else ret (aws_hourlyUSD p, p));
        let price = (if price = 0 then 21 else price);
        t \<leftarrow> kNow E;
        now \<leftarrow> kNow E;
        ret (Inr [\<lparr>of_ID = ''aws-'' @ aws_poolName p @ ''-'' @ Itoa t, of_InstanceType = instanceType,
                   of_Zone = zone, of_HourlyUSD = price, of_ExpiresAt = now + 5 * minute,
                   of_Interruptible = (aws_capacityType p = ''spot'' \<or>
                      cn_CapacityType (req_Constraints req) = ''spot'')\<rparr>], p)
      })"

definition latestGPUAMI :: "'w env \<Rightarrow> AwsProvider \<Rightarrow> string \<Rightarrow> ('w, 'z, goerror + string) io" where
  "latestGPUAMI E p namePattern = do {
     out \<leftarrow> cDescribeImages E (aws_client p) namePattern;
     ret (case out of
            Inl err \<Rightarrow> Inl err
          | Inr [] \<Rightarrow> Inr []
          | Inr images \<Rightarrow>
              Inr (im_ImageId (hd (x_SortImages E (\<lambda>a b. strLess (im_CreationDate b) (im_CreationDate a)) images))))
   }"

fun tryPatterns :: "'w env \<Rightarrow> AwsProvider \<Rightarrow> string list \<Rightarrow> ('w, 'z, goerror + string) io" where
  "tryPatterns E p [] = ret (Inl (EMsg (''no EKS GPU AMI found in '' @ aws_region p)))"
| "tryPatterns E p (pat # pats) = do {
     r \<leftarrow> latestGPUAMI E p pat;
     case r of
       Inl err \<Rightarrow> ret (Inl err)
     | Inr ami \<Rightarrow> if ami \<noteq> [] then ret (Inr ami) else tryPatterns E p pats
   }"

definition resolveAMI :: "'w env \<Rightarrow> AwsProvider \<Rightarrow> ('w, 'z, goerror + string) io" where
  "resolveAMI E p =
     (let ami = TrimSpace (mget (aws_params p) ''ami'')
      in if ami \<noteq> [] then ret (Inr ami)
         else let version = TrimSpace (mget (aws_params p) ''kubernetesVersion'')
              in tryPatterns E p
                   ((if version \<noteq> [] then [''amazon-eks-gpu-node-'' @ version @ ''-*''] else []) @
                    [''amazon-eks-gpu-node-1.32-*'', ''amazon-eks-gpu-node-1.31-*'', ''amazon-eks-gpu-node-*'']))"

text \<open>\<open>errors.As\<close> finds the API error along the chain of wrapped errors.\<close>

fun isInsufficientCapacity :: "goerror \<Rightarrow> bool" where
  "isInsufficientCapacity (EAPIError code m) =
     (code = ''InsufficientInstanceCapacity'' \<or> code = ''InsufficientCapacityException'')"
| "isInsufficientCapacity (EWrap m e) = isInsufficientCapacity e"
| "isInsufficientCapacity e = False"

definition aws_clusterName :: "AwsProvider \<Rightarrow> string" where
  "aws_clusterName p = (if mget (aws_params p) ''clusterName'' = [] then bc_ClusterName (aws_boot p)
                        else mget (aws_params p) ''clusterName'')"

definition aws_input :: "AwsProvider \<Rightarrow> Offer \<Rightarrow> string \<Rightarrow> RunInstancesInput" where
  "aws_input p offer ami =
     (let clusterName = aws_clusterName p;
          userdata = UserData \<lparr>bcf_APIServerURL = bc_APIServerURL (aws_boot p),
             bcf_CABundle = bc_CABundle (aws_boot p), bcf_JoinToken = bc_JoinToken (aws_boot p),
             bcf_PoolName = aws_poolName p, bcf_ClusterName = clusterName, bcf_JoinMode = ''eks''\<rparr>
      in \<lparr>ri_ImageId = ami, ri_InstanceType = of_InstanceType offer, ri_MinCount = 1, ri_MaxCount = 1,
          ri_UserData = base64Encode userdata,
          ri_Tags = [(''opencoda.dev/pool'', aws_poolName p), (''opencoda.dev/provider'', aws_ProviderName),
                     (''kubernetes.io/cluster/'' @ clusterName, ''owned'')],
          ri_SubnetId = (case aws_subnets p of [] \<Rightarrow> None | x # _ \<Rightarrow> Some x),
          ri_IamInstanceProfile = (let profile = mget (aws_params p) ''nodeInstanceProfile''
                                   in if profile \<noteq> [] then Some profile else None),
          ri_SecurityGroupIds = splitCSV (mget (aws_params p) ''securityGroupIds''),
          ri_Spot = (aws_capacityType p = ''spot'' \<or> of_Interruptible offer)\<rparr>)"

text \<open>A nil \<open>Placement\<close> in the answer is dereferenced.\<close>

definition aws_Provision ::
  "'w env \<Rightarrow> AwsProvider \<Rightarrow> Offer \<Rightarrow> ('w, 'z, (goerror + NodeHandle) outcome \<times> AwsProvider) io" where
  "aws_Provision E p offer = do {
     r \<leftarrow> resolveAMI E p;
     case r of
       Inl err \<Rightarrow> ret (Returns (Inl err), p)
     | Inr ami \<Rightarrow> do {
         out \<leftarrow> cRunInstances E (aws_client p) (aws_input p offer ami);
         case out of
           Inl err \<Rightarrow>
             if isInsufficientCapacity err then do {
               now \<leftarrow> kNow E;
               ret (Returns (Inl EICE), p\<lparr>aws_lastICE := aws_lastICE p @ [now]\<rparr>)
             } else ret (Returns (Inl err), p)
         | Inr insts \<Rightarrow>
             (case insts of
                [] \<Rightarrow> ret (Returns (Inl (EMsg ''no instances returned'')), p)
              | inst # _ \<Rightarrow>
                  (case ei_Placement inst of
                     None \<Rightarrow> ret (Panics ''nil pointer dereference'', p)
                   | Some zone \<Rightarrow> do {
                       let id = ei_InstanceId inst;
                       now \<leftarrow> kNow E;
                       ret (Returns (Inr
                         \<lparr>nh_ProviderID = ''aws://'' @ zone @ ''/'' @ id,
                          nh_NodeName = ''aws-'' @ id,
                          nh_Labels = [''opencoda.dev/provider'' \<mapsto> aws_ProviderName,
                             ''opencoda.dev/pool'' \<mapsto> aws_poolName p,
                             ''opencoda.dev/gpu'' \<mapsto> ''true'',
                             ''opencoda.dev/buffer-eligible'' \<mapsto> ''true'',
                             ''node.kubernetes.io/instance-type'' \<mapsto> of_InstanceType offer],
                          nh_LaunchedAt = now\<rparr>), p)
                     }))
       }
   }"

definition parseInstanceID :: "string \<Rightarrow> string" where
  "parseInstanceID providerID =
     (let parts = Split providerID (CHR ''/'') in if parts = [] then [] else last parts)"

definition aws_Release ::
  "'w env \<Rightarrow> AwsProvider \<Rightarrow> NodeHandle \<Rightarrow> ('w, 'z, goerror option \<times> AwsProvider) io" where
  "aws_Release E p h =
     (let id = parseInstanceID (nh_ProviderID h)
      in if id = [] then ret (None, p)
         else do { err \<leftarrow> cTerminateInstances E (aws_client p) [id]; ret (err, p) })"

definition aws_Capacity ::
  "'w env \<Rightarrow> AwsProvider \<Rightarrow> string \<Rightarrow> ('w, 'z, (goerror + CapacityReport) \<times> AwsProvider) io" where
  "aws_Capacity E p pool =
     ret (Inr \<lparr>cr_Available = 8, cr_RecentICE = aws_lastICE p, cr_ObservedHourlyUSD = aws_hourlyUSD p\<rparr>, p)"

section \<open>pkg/capacity/gcp\<close>

text \<open>The REST client is determined by the credentials it was created with and is not kept.\<close>

record GcpProvider =
  gcp_project :: string
  gcp_zone :: string
  gcp_poolName :: string
  gcp_instanceTypes :: "string list"
  gcp_boot :: BootstrapConfig
  gcp_lastICE :: "gotime list"
  gcp_hourlyUSD :: float64

definition gcp_ProviderName :: string where
  "gcp_ProviderName = ''gcp''"

definition gcp_Factory ::
  "'w env \<Rightarrow> GPUPool \<Rightarrow> (string \<rightharpoonup> string) \<Rightarrow> BootstrapConfig \<Rightarrow> ('w, 'z, goerror + GcpProvider) io" where
  "gcp_Factory E pool creds boot =
     (let project = (if pool_Param pool ''project'' = [] then mget creds ''GCP_PROJECT''
                     else pool_Param pool ''project'');
          zone = (if pool_Param pool ''zone'' = [] then ''us-central1-a'' else pool_Param pool ''zone'');
          jsonCreds = mget creds ''GOOGLE_APPLICATION_CREDENTIALS_JSON''
      in do {
        err \<leftarrow> cNewInstancesRESTClient E (if jsonCreds \<noteq> [] then Some jsonCreds else None);
        ret (case err of
               Some e \<Rightarrow> Inl e
             | None \<Rightarrow> Inr \<lparr>gcp_project = project, gcp_zone = zone, gcp_poolName = pool_Name pool,
                 gcp_instanceTypes = gps_InstanceTypes (pool_Spec pool), gcp_boot = boot,
                 gcp_lastICE = [], gcp_hourlyUSD = 0\<rparr>)
      })"

definition gcp_Quote ::
  "'w env \<Rightarrow> GcpProvider \<Rightarrow> GPURequest \<Rightarrow> ('w, 'z, (goerror + Offer list) \<times> GcpProvider) io" where
  "gcp_Quote E p req =
     (let instanceType = quoteType ''a2-highgpu-1g'' (gcp_instanceTypes p) req;
          zone = (if cn_Zone (req_Constraints req) \<noteq> [] then cn_Zone (req_Constraints req) else gcp_zone p);
          price = (if gcp_hourlyUSD p = 0 then 5 / 2 else gcp_hourlyUSD p)
      in do {
        t \<leftarrow> kNow E;
        now \<leftarrow> kNow E;
        ret (Inr [\<lparr>of_ID = ''gcp-'' @ gcp_poolName p @ ''-'' @ Itoa t, of_InstanceType = instanceType,
                   of_Zone = zone, of_HourlyUSD = price, of_ExpiresAt = now + 5 * minute,
                   of_Interruptible = True\<rparr>], p)
      })"

definition isGCPExhausted :: "goerror option \<Rightarrow> bool" where
  "isGCPExhausted err =
     (case err of
        None \<Rightarrow> False
      | Some e \<Rightarrow> (let msg = ErrorText e
                  in Contains msg ''ZONE_RESOURCE_POOL_EXHAUSTED'' \<or>
                     Contains msg ''RESOURCE_POOL_EXHAUSTED'' \<or> Contains msg ''QUOTA_EXCEEDED''))"

definition gcp_request :: "GcpProvider \<Rightarrow> string \<Rightarrow> InsertInstanceRequest" where
  "gcp_request p name =
     (let startup = StartupScript \<lparr>bcf_APIServerURL = bc_APIServerURL (gcp_boot p),
             bcf_CABundle = bc_CABundle (gcp_boot p), bcf_JoinToken = bc_JoinToken (gcp_boot p),
             bcf_PoolName = gcp_poolName p, bcf_ClusterName = [], bcf_JoinMode = ''gke''\<rparr>
      in \<lparr>iir_Project = gcp_project p, iir_Zone = gcp_zone p,
          iir_Instance = \<lparr>gi_Name = name, gi_ProvisioningModel = ''SPOT'',
             gi_SourceImage = ''projects/debian-cloud/global/images/family/debian-12'',
             gi_AutoDelete = True, gi_Boot = True, gi_Network = ''global/networks/default'',
             gi_AccessConfig = (''External NAT'', ''ONE_TO_ONE_NAT''),
             gi_Metadata = [(''startup-script'', startup), (''opencoda-pool'', gcp_poolName p)],
             gi_AcceleratorCount = 1,
             gi_AcceleratorType = ''zones/'' @ gcp_zone p @ ''/acceleratorTypes/nvidia-tesla-a100''\<rparr>\<rparr>)"

text \<open>The error branch that \<open>Insert\<close> and \<open>Wait\<close> share.\<close>

definition gcp_fail ::
  "'w env \<Rightarrow> GcpProvider \<Rightarrow> goerror \<Rightarrow> ('w, 'z, (goerror + NodeHandle) outcome \<times> GcpProvider) io" where
  "gcp_fail E p err =
     (if isGCPExhausted (Some err) then do {
        now \<leftarrow> kNow E;
        ret (Returns (Inl EICE), p\<lparr>gcp_lastICE := gcp_lastICE p @ [now]\<rparr>)
      } else ret (Returns (Inl err), p))"

definition gcp_Provision ::
  "'w env \<Rightarrow> GcpProvider \<Rightarrow> Offer \<Rightarrow> ('w, 'z, (goerror + NodeHandle) outcome \<times> GcpProvider) io" where
  "gcp_Provision E p offer = do {
     t \<leftarrow> kNow E;
     let name = ''coda-'' @ gcp_poolName p @ ''-'' @ Itoa t;
     err \<leftarrow> cInsertInstance E (gcp_request p name);
     case err of
       Some e \<Rightarrow> gcp_fail E p e
     | None \<Rightarrow> do {
         err \<leftarrow> cWaitOperation E;
         case err of
           Some e \<Rightarrow> gcp_fail E p e
         | None \<Rightarrow> do {
             now \<leftarrow> kNow E;
             ret (Returns (Inr
               \<lparr>nh_ProviderID = ''gcp://'' @ gcp_project p @ ''/'' @ gcp_zone p @ ''/'' @ name,
                nh_NodeName = name,
                nh_Labels = [''opencoda.dev/provider'' \<mapsto> gcp_ProviderName,
                             ''opencoda.dev/pool'' \<mapsto> gcp_poolName p],
                nh_LaunchedAt = now\<rparr>), p)
           }
       }
   }"

definition parseInstanceName :: "string \<Rightarrow> string" where
  "parseInstanceName providerID =
     (let parts = Split providerID (CHR ''/'') in if parts = [] then [] else last parts)"

definition gcp_Release ::
  "'w env \<Rightarrow> GcpProvider \<Rightarrow> NodeHandle \<Rightarrow> ('w, 'z, goerror option \<times> GcpProvider) io" where
  "gcp_Release E p h =
     (let name = (if parseInstanceName (nh_ProviderID h) = [] then nh_NodeName h
                  else parseInstanceName (nh_ProviderID h))
      in do {
        err \<leftarrow> cDeleteInstance E (gcp_project p) (gcp_zone p) name;
        case err of
          Some e \<Rightarrow> ret (Some e, p)
        | None \<Rightarrow> do { err \<leftarrow> cWaitOperation E; ret (err, p) }
      })"

definition gcp_Capacity ::
  "'w env \<Rightarrow> GcpProvider \<Rightarrow> string \<Rightarrow> ('w, 'z, (goerror + CapacityReport) \<times> GcpProvider) io" where
  "gcp_Capacity E p pool =
     ret (Inr \<lparr>cr_Available = 4, cr_RecentICE = gcp_lastICE p, cr_ObservedHourlyUSD = gcp_hourlyUSD p\<rparr>, p)"

section \<open>The CapacityProvider interface\<close>

text \<open>A value of the interface type is one of the three; each method dispatches on it.\<close>

datatype provider = Static StaticProvider | Aws AwsProvider | Gcp GcpProvider

definition provider_Name :: "provider \<Rightarrow> string" where
  "provider_Name p = (case p of Static _ \<Rightarrow> static_ProviderName | Aws _ \<Rightarrow> aws_ProviderName
                       | Gcp _ \<Rightarrow> gcp_ProviderName)"

text \<open>\<open>onProvider\<close> runs a method of the dynamic type and puts the updated value back under its tag.\<close>

definition onProvider :: "('p \<Rightarrow> provider) \<Rightarrow> ('s, 'a \<times> 'p) state \<Rightarrow> ('s, 'a \<times> provider) state" where
  "onProvider tag m = do { (r, p) \<leftarrow> m; ret (r, tag p) }"

definition provider_Quote ::
  "'w env \<Rightarrow> provider \<Rightarrow> GPURequest \<Rightarrow> ('w, 'z, (goerror + Offer list) \<times> provider) io" where
  "provider_Quote E p req = (case p of
      Static x \<Rightarrow> onProvider Static (static_Quote E x req)
    | Aws x \<Rightarrow> onProvider Aws (aws_Quote E x req)
    | Gcp x \<Rightarrow> onProvider Gcp (gcp_Quote E x req))"

definition provider_Provision ::
  "'w env \<Rightarrow> provider \<Rightarrow> Offer \<Rightarrow> ('w, 'z, (goerror + NodeHandle) outcome \<times> provider) io" where
  "provider_Provision E p offer = (case p of
      Static x \<Rightarrow> onProvider Static (static_Provision E x offer)
    | Aws x \<Rightarrow> onProvider Aws (aws_Provision E x offer)
    | Gcp x \<Rightarrow> onProvider Gcp (gcp_Provision E x offer))"

definition provider_Release ::
  "'w env \<Rightarrow> provider \<Rightarrow> NodeHandle \<Rightarrow> ('w, 'z, goerror option \<times> provider) io" where
  "provider_Release E p h = (case p of
      Static x \<Rightarrow> onProvider Static (static_Release E x h)
    | Aws x \<Rightarrow> onProvider Aws (aws_Release E x h)
    | Gcp x \<Rightarrow> onProvider Gcp (gcp_Release E x h))"

definition provider_Capacity ::
  "'w env \<Rightarrow> provider \<Rightarrow> string \<Rightarrow> ('w, 'z, (goerror + CapacityReport) \<times> provider) io" where
  "provider_Capacity E p pool = (case p of
      Static x \<Rightarrow> onProvider Static (static_Capacity E x pool)
    | Aws x \<Rightarrow> onProvider Aws (aws_Capacity E x pool)
    | Gcp x \<Rightarrow> onProvider Gcp (gcp_Capacity E x pool))"

subsection \<open>Registry and FactoryRegistry\<close>

type_synonym Registry = "string \<rightharpoonup> provider"

definition Registry_Register :: "Registry \<Rightarrow> provider \<Rightarrow> Registry" where
  "Registry_Register r p = r(provider_Name p \<mapsto> p)"

definition Registry_Get :: "Registry \<Rightarrow> string \<Rightarrow> provider option" where
  "Registry_Get r name = r name"

type_synonym ('w, 'z) Factory =
  "GPUPool \<Rightarrow> (string \<rightharpoonup> string) \<Rightarrow> BootstrapConfig \<Rightarrow> ('w, 'z, goerror + provider) io"

type_synonym ('w, 'z) FactoryRegistry = "string \<rightharpoonup> ('w, 'z) Factory"

definition FactoryRegistry_Register ::
  "('w, 'z) FactoryRegistry \<Rightarrow> string \<Rightarrow> ('w, 'z) Factory \<Rightarrow> ('w, 'z) FactoryRegistry" where
  "FactoryRegistry_Register r name f = r(name \<mapsto> f)"

definition FactoryRegistry_ForPool ::
  "('w, 'z) FactoryRegistry \<Rightarrow> GPUPool \<Rightarrow> (string \<rightharpoonup> string) \<Rightarrow> BootstrapConfig \<Rightarrow>
     ('w, 'z, goerror + provider) io" where
  "FactoryRegistry_ForPool r pool creds boot =
     (case r (prs_Name (gps_Provider (pool_Spec pool))) of
        None \<Rightarrow> ret (Inl (EMsg (''unknown capacity provider '' @ Quote (prs_Name (gps_Provider (pool_Spec pool))))))
      | Some f \<Rightarrow> f pool creds boot)"

text \<open>The factories of the three packages, at the interface type.\<close>

definition tagResult :: "('p \<Rightarrow> provider) \<Rightarrow> ('s, goerror + 'p) state \<Rightarrow> ('s, goerror + provider) state" where
  "tagResult tag m = do { r \<leftarrow> m; ret (case r of Inl e \<Rightarrow> Inl e | Inr p \<Rightarrow> Inr (tag p)) }"

definition static_NewFactory :: "'w env \<Rightarrow> ('w, 'z) Factory" where
  "static_NewFactory E pool creds boot = ret (Inr (Static \<lparr>stp_poolName = pool_Name pool\<rparr>))"

definition aws_NewFactory :: "'w env \<Rightarrow> ('w, 'z) Factory" where
  "aws_NewFactory E pool creds boot = tagResult Aws (aws_Factory E pool creds boot)"

definition gcp_NewFactory :: "'w env \<Rightarrow> ('w, 'z) Factory" where
  "gcp_NewFactory E pool creds boot = tagResult Gcp (gcp_Factory E pool creds boot)"

text \<open>\<open>capacityfactory.NewRegistry\<close>.\<close>

definition capacityfactory_NewRegistry :: "'w env \<Rightarrow> ('w, 'z) FactoryRegistry" where
  "capacityfactory_NewRegistry E =
     (let r = Map.empty;
          r = FactoryRegistry_Register r static_ProviderName (static_NewFactory E);
          r = FactoryRegistry_Register r aws_ProviderName (aws_NewFactory E);
          r = FactoryRegistry_Register r gcp_ProviderName (gcp_NewFactory E)
      in r)"

section \<open>ProviderCache\<close>

text \<open>
  The memory the controllers of one manager process share.  \<open>mu\<close> serialises \<open>ForPool\<close>, which the
  model runs as one step of the handler.
\<close>

record ('w, 'e) mgr = "('w, 'e) sys" +
  pcache :: "string \<rightharpoonup> provider"

type_synonym ('w, 'z, 'a) mio = "(('w, event, 'z) mgr_scheme, 'a) state"

type_synonym ProviderRef = string

text \<open>
  The fields of \<open>ProviderCache\<close> that never change: the client is the environment, the bootstrap
  configuration is an argument, the factories are those of \<open>capacityfactory\<close>.  A secret's data
  (bytes) is copied to strings.
\<close>

definition loadCredentials :: "'w env \<Rightarrow> GPUPool \<Rightarrow> ('w, 'z, goerror + (string \<rightharpoonup> string)) io" where
  "loadCredentials E pool =
     (let ref = sr_SecretName (prs_CredentialsRef (gps_Provider (pool_Spec pool)))
      in if ref = [] then ret (Inr Map.empty)
         else do {
           r \<leftarrow> kGetSecret E ''opencoda-system'' ref;
           ret (case r of
                  Inl err \<Rightarrow> Inl (EWrap (''credentials secret '' @ ref @ '': '') err)
                | Inr data \<Rightarrow> Inr data)
         })"

definition ForPool :: "'w env \<Rightarrow> BootstrapConfig \<Rightarrow> GPUPool \<Rightarrow> ('w, 'z, goerror + ProviderRef) mio" where
  "ForPool E boot pool = do {
     c \<leftarrow> gets pcache;
     case c (pool_Name pool) of
       Some prov \<Rightarrow> ret (Inr (pool_Name pool))
     | None \<Rightarrow> do {
         r \<leftarrow> loadCredentials E pool;
         case r of
           Inl err \<Rightarrow> ret (Inl err)
         | Inr creds \<Rightarrow> do {
             r \<leftarrow> FactoryRegistry_ForPool (capacityfactory_NewRegistry E) pool creds boot;
             case r of
               Inl err \<Rightarrow> ret (Inl err)
             | Inr prov \<Rightarrow> do {
                 modify (pcache_update (\<lambda>c. c(pool_Name pool \<mapsto> prov)));
                 ret (Inr (pool_Name pool))
               }
           }
       }
   }"

text \<open>
  A method call through a pointer: read the provider, run the method, write the new value back.  A
  pointer comes from \<open>ForPool\<close>, which has stored the provider, so the last branch is not reached.
\<close>

definition callProvider ::
  "ProviderRef \<Rightarrow> 'a \<Rightarrow> (provider \<Rightarrow> ('w, 'z, 'a \<times> provider) mio) \<Rightarrow> ('w, 'z, 'a) mio" where
  "callProvider ref nil call = do {
     c \<leftarrow> gets pcache;
     case c ref of
       Some p \<Rightarrow> do {
         (r, p') \<leftarrow> call p;
         modify (pcache_update (\<lambda>c. c(ref \<mapsto> p')));
         ret r
       }
     | None \<Rightarrow> ret nil
   }"

text \<open>Calls that launch or destroy nodes are marked in the trace, after the cloud calls they consist of.\<close>

definition mark :: "provider_event \<Rightarrow> ('w, 'z, unit) io" where
  "mark e = modify (trace_update (\<lambda>t. t @ [Provider e]))"

definition Quote_via :: "'w env \<Rightarrow> ProviderRef \<Rightarrow> GPURequest \<Rightarrow> ('w, 'z, goerror + Offer list) mio" where
  "Quote_via E ref req = callProvider ref (Inl (EMsg ''nil provider'')) (\<lambda>p. provider_Quote E p req)"

definition Provision_via ::
  "'w env \<Rightarrow> ProviderRef \<Rightarrow> Offer \<Rightarrow> ('w, 'z, (goerror + NodeHandle) outcome) mio" where
  "Provision_via E ref offer = do {
     r \<leftarrow> callProvider ref (Panics ''nil provider'') (\<lambda>p. provider_Provision E p offer);
     mark (Provision ref offer r);
     ret r
   }"

definition Release_via :: "'w env \<Rightarrow> ProviderRef \<Rightarrow> NodeHandle \<Rightarrow> ('w, 'z, goerror option) mio" where
  "Release_via E ref h = do {
     r \<leftarrow> callProvider ref None (\<lambda>p. provider_Release E p h);
     mark (Release ref h r);
     ret r
   }"

definition Capacity_via :: "'w env \<Rightarrow> ProviderRef \<Rightarrow> string \<Rightarrow> ('w, 'z, goerror + CapacityReport) mio" where
  "Capacity_via E ref pool =
     callProvider ref (Inl (EMsg ''nil provider'')) (\<lambda>p. provider_Capacity E p pool)"

section \<open>The registries\<close>

interpretation capreg: registry Map.empty Registry_Register Registry_Get provider_Name
  by unfold_locales (simp_all add: Registry_Register_def Registry_Get_def)

interpretation facreg: registry "Map.empty :: ('w, 'z) FactoryRegistry"
    "\<lambda>r v. FactoryRegistry_Register r (fst v) (snd v)" "\<lambda>r name. map_option (Pair name) (r name)" fst
  by unfold_locales (auto simp: FactoryRegistry_Register_def)

lemma capacityfactory_fold:
  "capacityfactory_NewRegistry E = fold (\<lambda>v r. FactoryRegistry_Register r (fst v) (snd v))
     [(static_ProviderName, static_NewFactory E), (aws_ProviderName, aws_NewFactory E),
      (gcp_ProviderName, gcp_NewFactory E)] Map.empty"
  by (simp add: capacityfactory_NewRegistry_def)

lemma capacityfactory_known:
  fixes E :: "'w env"
  shows "(capacityfactory_NewRegistry E :: ('w, 'z) FactoryRegistry) name \<noteq> None \<longleftrightarrow>
     name \<in> {static_ProviderName, aws_ProviderName, gcp_ProviderName}"
  using facreg.get_unknown [of name "[(static_ProviderName, static_NewFactory E :: ('w, 'z) Factory),
      (aws_ProviderName, aws_NewFactory E), (gcp_ProviderName, gcp_NewFactory E)]"]
  unfolding capacityfactory_fold by (simp del: not_None_eq)

section \<open>What a provider promises\<close>

definition provider_ICE :: "provider \<Rightarrow> gotime list" where
  "provider_ICE p = (case p of Static _ \<Rightarrow> [] | Aws a \<Rightarrow> aws_lastICE a | Gcp g \<Rightarrow> gcp_lastICE g)"

text \<open>The cloud's answers that mean that it has no capacity.\<close>

fun exhaustedEvent :: "event \<Rightarrow> bool" where
  "exhaustedEvent (Cloud (RunInstances c i (Inl err))) = isInsufficientCapacity err"
| "exhaustedEvent (Cloud (InsertInstance i err)) = isGCPExhausted err"
| "exhaustedEvent (Cloud (WaitOperation err)) = isGCPExhausted err"
| "exhaustedEvent e = False"

definition exhausted :: "event list \<Rightarrow> bool" where
  "exhausted es \<longleftrightarrow> list_ex exhaustedEvent es"

lemma exhausted_simps [simp]:
  "exhausted [] \<longleftrightarrow> False"
  "exhausted (e # es) \<longleftrightarrow> exhaustedEvent e \<or> exhausted es"
  "exhausted (es @ fs) \<longleftrightarrow> exhausted es \<or> exhausted fs"
  by (simp_all add: exhausted_def)

text \<open>Calls that create or destroy nothing in a cloud.\<close>

fun readOnlyEvent :: "event \<Rightarrow> bool" where
  "readOnlyEvent (Clock t) = True"
| "readOnlyEvent (Cloud (DescribeSpotPriceHistory c t r)) = True"
| "readOnlyEvent (Cloud (DescribeImages c t r)) = True"
| "readOnlyEvent e = False"

locale capacity_provider =
  fixes quote :: "'p \<Rightarrow> GPURequest \<Rightarrow> ('w, 'z, (goerror + Offer list) \<times> 'p) io"
    and provision :: "'p \<Rightarrow> Offer \<Rightarrow> ('w, 'z, (goerror + NodeHandle) outcome \<times> 'p) io"
    and release :: "'p \<Rightarrow> NodeHandle \<Rightarrow> ('w, 'z, goerror option \<times> 'p) io"
    and capacity :: "'p \<Rightarrow> string \<Rightarrow> ('w, 'z, (goerror + CapacityReport) \<times> 'p) io"
    and ice :: "'p \<Rightarrow> gotime list"
  assumes quote_offer: "emits (quote p req)
      (\<lambda>(r, p') es. (\<exists>off. r = Inr [off]) \<and> ice p' = ice p \<and> list_all readOnlyEvent es)"
    and provision_ice: "emits (provision p off)
      (\<lambda>(r, p') es. if exhausted es
         then r = Returns (Inl EICE) \<and> (\<exists>t. Clock t \<in> set es \<and> ice p' = ice p @ [t])
         else ice p' = ice p)"
    and release_ice: "emits (release p h) (\<lambda>(r, p') es. ice p' = ice p)"
    and capacity_report: "emits (capacity p pool)
      (\<lambda>(r, p') es. p' = p \<and> es = [] \<and> (\<exists>rep. r = Inr rep \<and> cr_RecentICE rep = ice p))"
begin

lemma ice_reported:
  "emits (do { (r, p1) \<leftarrow> provision p off; (rep, p2) \<leftarrow> capacity p1 pool; ret (r, rep) })
     (\<lambda>(r, rep) es. \<exists>cr. rep = Inr cr \<and>
        (if exhausted es
         then r = Returns (Inl EICE) \<and> (\<exists>t. Clock t \<in> set es \<and> cr_RecentICE cr = ice p @ [t])
         else cr_RecentICE cr = ice p))"
  by (rule emits_bind_prod [OF provision_ice], rule emits_bind_prod [OF capacity_report])
    (auto intro!: emits split: if_splits)

end

lemma emits_onProvider:
  assumes "emits m (\<lambda>(r, p) es. P r (tag p) es)"
  shows "emits (onProvider tag m) (\<lambda>(r, p) es. P r p es)"
  unfolding onProvider_def using assms by (rule emits_bind_prod) (auto intro!: emits)

lemma emits_latestGPUAMI: "emits_all (latestGPUAMI E p pat) readOnlyEvent"
  by (auto simp: latestGPUAMI_def intro!: emits)

lemma emits_tryPatterns: "emits_all (tryPatterns E p pats) readOnlyEvent"
  by (induction pats) (auto intro!: emits emits_all_bind emits_latestGPUAMI)

lemma emits_resolveAMI: "emits_all (resolveAMI E p) readOnlyEvent"
  by (auto simp: resolveAMI_def intro!: emits emits_tryPatterns)

lemma readOnly_not_exhausted: "list_all readOnlyEvent es \<Longrightarrow> \<not> exhausted es"
proof (induction es)
  case (Cons e es)
  then show ?case by (cases e rule: readOnlyEvent.cases) auto
qed simp

lemma aws_Quote_offer:
  "emits (aws_Quote E p req) (\<lambda>(r, p') es. (\<exists>off. r = Inr [off]) \<and>
     aws_lastICE p' = aws_lastICE p \<and> list_all readOnlyEvent es)"
  unfolding aws_Quote_def Let_def
  by (rule emits_bind_prod [where P = "\<lambda>_ p' es. aws_lastICE p' = aws_lastICE p \<and> list_all readOnlyEvent es"])
    (auto intro!: emits split: sum.splits list.splits option.splits)

lemma aws_Provision_ice:
  "emits (aws_Provision E p off) (\<lambda>(r, p') es. if exhausted es
     then r = Returns (Inl EICE) \<and> (\<exists>t. Clock t \<in> set es \<and> aws_lastICE p' = aws_lastICE p @ [t])
     else aws_lastICE p' = aws_lastICE p)"
  unfolding aws_Provision_def
  by (rule emits_bind [OF emits_resolveAMI])
    (auto intro!: emits simp: readOnly_not_exhausted split: list.split option.split)

lemma gcp_Provision_ice:
  "emits (gcp_Provision E p off) (\<lambda>(r, p') es. if exhausted es
     then r = Returns (Inl EICE) \<and> (\<exists>t. Clock t \<in> set es \<and> gcp_lastICE p' = gcp_lastICE p @ [t])
     else gcp_lastICE p' = gcp_lastICE p)"
  by (auto simp: gcp_Provision_def gcp_fail_def isGCPExhausted_def Let_def intro!: emits)

lemmas provider_methods =
  provider_Quote_def provider_Provision_def provider_Release_def provider_Capacity_def

lemmas static_methods =
  static_Quote_def static_Provision_def static_Release_def static_Capacity_def

interpretation prov: capacity_provider "provider_Quote E" "provider_Provision E" "provider_Release E"
    "provider_Capacity E" provider_ICE for E :: "'w env"
proof unfold_locales
  fix p :: provider and req off h pool
  show "emits (provider_Quote E p req) (\<lambda>(r, p') es. (\<exists>off. r = Inr [off]) \<and>
          provider_ICE p' = provider_ICE p \<and> list_all readOnlyEvent es)"
    by (cases p) (auto simp: provider_methods provider_ICE_def static_methods gcp_Quote_def Let_def
        intro!: emits emits_onProvider aws_Quote_offer)
  show "emits (provider_Provision E p off) (\<lambda>(r, p') es. if exhausted es
         then r = Returns (Inl EICE) \<and> (\<exists>t. Clock t \<in> set es \<and> provider_ICE p' = provider_ICE p @ [t])
         else provider_ICE p' = provider_ICE p)"
  proof (cases p)
    case (Static x)
    then show ?thesis
      by (auto simp: provider_methods provider_ICE_def static_methods Let_def intro!: emits emits_onProvider)
  next
    case (Aws x)
    then show ?thesis
      by (simp add: provider_methods)
        (rule emits_onProvider, rule emits_mono [OF aws_Provision_ice],
          auto simp: provider_ICE_def split: if_splits)
  next
    case (Gcp x)
    then show ?thesis
      by (simp add: provider_methods)
        (rule emits_onProvider, rule emits_mono [OF gcp_Provision_ice],
          auto simp: provider_ICE_def split: if_splits)
  qed
  show "emits (provider_Release E p h) (\<lambda>(r, p') es. provider_ICE p' = provider_ICE p)"
    by (cases p) (auto simp: provider_methods provider_ICE_def static_methods aws_Release_def
        gcp_Release_def Let_def intro!: emits emits_onProvider)
  show "emits (provider_Capacity E p pool) (\<lambda>(r, p') es. p' = p \<and> es = [] \<and>
          (\<exists>rep. r = Inr rep \<and> cr_RecentICE rep = provider_ICE p))"
    by (cases p) (auto simp: provider_methods provider_ICE_def static_methods aws_Capacity_def
        gcp_Capacity_def intro!: emits emits_onProvider)
qed

section \<open>Provision and Release\<close>

text \<open>
  The instances a run created and destroyed in the clouds: an EC2 instance with the client used, a
  Compute Engine instance with its project and zone.
\<close>

datatype cloud_instance = EC2 EC2Client string | GCE string string string

fun createdBy :: "event \<Rightarrow> cloud_instance list" where
  "createdBy (Cloud (RunInstances c i (Inr insts))) = map (\<lambda>x. EC2 c (ei_InstanceId x)) insts"
| "createdBy (Cloud (InsertInstance r None)) = [GCE (iir_Project r) (iir_Zone r) (gi_Name (iir_Instance r))]"
| "createdBy e = []"

fun destroyedBy :: "event \<Rightarrow> cloud_instance list" where
  "destroyedBy (Cloud (TerminateInstances c ids err)) = map (EC2 c) ids"
| "destroyedBy (Cloud (DeleteInstance p z n err)) = [GCE p z n]"
| "destroyedBy e = []"

definition created :: "event list \<Rightarrow> cloud_instance list" where
  "created es = concat (map createdBy es)"

definition destroyed :: "event list \<Rightarrow> cloud_instance list" where
  "destroyed es = concat (map destroyedBy es)"

lemma effects_simps [simp]:
  "created [] = []" "created (e # es) = createdBy e @ created es" "created (es @ fs) = created es @ created fs"
  "destroyed [] = []" "destroyed (e # es) = destroyedBy e @ destroyed es"
  "destroyed (es @ fs) = destroyed es @ destroyed fs"
  by (simp_all add: created_def destroyed_def)

lemma readOnly_no_effect: "list_all readOnlyEvent es \<Longrightarrow> created es = [] \<and> destroyed es = []"
proof (induction es)
  case (Cons e es)
  then show ?case by (cases e rule: readOnlyEvent.cases) auto
qed simp

lemma parseInstanceID_append: "CHR ''/'' \<notin> set i \<Longrightarrow> parseInstanceID (s @ CHR ''/'' # i) = i"
  by (simp add: parseInstanceID_def last_Split_append)

lemma parseInstanceName_append: "CHR ''/'' \<notin> set i \<Longrightarrow> parseInstanceName (s @ CHR ''/'' # i) = i"
  by (simp add: parseInstanceName_def last_Split_append)

lemma Itoa_no_slash: "CHR ''/'' \<notin> set (Itoa n)"
  by (simp add: Itoa_not_in isDigit_def)

lemma aws_id_parsed: "CHR ''/'' \<notin> set i \<Longrightarrow> parseInstanceID (''aws://'' @ zone @ ''/'' @ i) = i"
  using parseInstanceID_append [of i "''aws://'' @ zone"] by simp

lemma gcp_name_parsed: "CHR ''/'' \<notin> set i \<Longrightarrow> parseInstanceName (''gcp://'' @ project @ ''/'' @ zone @ ''/'' @ i) = i"
  using parseInstanceName_append [of i "''gcp://'' @ project @ ''/'' @ zone"] by simp

text \<open>The instance a handle stands for, as the \<open>Release\<close> of each provider reads it.\<close>

definition handleInstances :: "provider \<Rightarrow> NodeHandle \<Rightarrow> cloud_instance list" where
  "handleInstances p h = (case p of
      Static x \<Rightarrow> []
    | Aws x \<Rightarrow> (if parseInstanceID (nh_ProviderID h) = [] then []
               else [EC2 (aws_client x) (parseInstanceID (nh_ProviderID h))])
    | Gcp x \<Rightarrow> [GCE (gcp_project x) (gcp_zone x)
               (if parseInstanceName (nh_ProviderID h) = [] then nh_NodeName h
                else parseInstanceName (nh_ProviderID h))])"

text \<open>At most one instance per launch, with an id as EC2 gives them: not empty and without a slash.\<close>

definition sane :: "cloud_instance list \<Rightarrow> bool" where
  "sane is \<longleftrightarrow> length is \<le> 1 \<and> list_all (\<lambda>x. case x of EC2 c i \<Rightarrow> i \<noteq> [] \<and> CHR ''/'' \<notin> set i | GCE p z n \<Rightarrow> True) is"

text \<open>The name of a pool, a Kubernetes name, has no slash.\<close>

definition poolNamed :: "provider \<Rightarrow> bool" where
  "poolNamed p \<longleftrightarrow> (case p of Gcp x \<Rightarrow> CHR ''/'' \<notin> set (gcp_poolName x) | _ \<Rightarrow> True)"

definition launches :: "provider \<Rightarrow> (goerror + NodeHandle) outcome \<Rightarrow> provider \<Rightarrow> event list \<Rightarrow> bool" where
  "launches p r p' es \<longleftrightarrow> destroyed es = [] \<and>
     (\<forall>h. r = Returns (Inr h) \<longrightarrow> p' = p \<and> (sane (created es) \<longrightarrow> created es = handleInstances p h) \<and>
        (created es = [] \<longleftrightarrow> (\<exists>x. p = Static x)))"

lemma aws_launches: "emits (aws_Provision E p offer) (\<lambda>(r, p') es. launches (Aws p) r (Aws p') es)"
  unfolding aws_Provision_def
  by (rule emits_bind [OF emits_resolveAMI])
    (auto intro!: emits simp: launches_def sane_def handleInstances_def readOnly_no_effect aws_id_parsed [simplified]
      split: list.split option.split)

lemma gcp_launches:
  assumes "CHR ''/'' \<notin> set (gcp_poolName p)"
  shows "emits (gcp_Provision E p offer) (\<lambda>(r, p') es. launches (Gcp p) r (Gcp p') es)"
proof -
  have "CHR ''/'' \<notin> set (''coda-'' @ gcp_poolName p @ ''-'' @ Itoa t)" for t
    using assms Itoa_no_slash by simp
  note name = gcp_name_parsed [OF this, simplified]
  show ?thesis
    unfolding gcp_Provision_def gcp_fail_def Let_def
    by (auto intro!: emits simp: launches_def handleInstances_def gcp_request_def Let_def name)
qed

lemma static_launches: "emits (static_Provision E p offer) (\<lambda>(r, p') es. launches (Static p) r (Static p') es)"
  by (auto intro!: emits simp: static_Provision_def launches_def handleInstances_def Let_def)

lemma provider_launches:
  assumes "poolNamed p"
  shows "emits (provider_Provision E p offer) (\<lambda>(r, p') es. launches p r p' es)"
  using assms unfolding provider_Provision_def poolNamed_def
  by (cases p) (auto intro!: emits_onProvider static_launches aws_launches gcp_launches)

lemma provider_Release_effect:
  "emits (provider_Release E p h) (\<lambda>(r, p') es. created es = [] \<and> destroyed es = handleInstances p h)"
  unfolding provider_Release_def static_Release_def aws_Release_def gcp_Release_def Let_def
  by (cases p) (auto intro!: emits emits_onProvider simp: handleInstances_def)

text \<open>Concrete providers and clouds for the witnesses.\<close>

definition demoBoot :: BootstrapConfig where
  "demoBoot = \<lparr>bc_APIServerURL = ''https://api'', bc_CABundle = [], bc_JoinToken = ''t'', bc_ClusterName = ''c''\<rparr>"

definition demoAws :: AwsProvider where
  "demoAws = \<lparr>aws_client = \<lparr>ec2_Region = ''us-east-1'', ec2_StaticKeys = None\<rparr>, aws_region = ''us-east-1'',
     aws_poolName = ''p'', aws_instanceTypes = [], aws_subnets = [], aws_capacityType = ''spot'',
     aws_params = Map.empty, aws_boot = demoBoot, aws_lastICE = [], aws_hourlyUSD = 0\<rparr>"

definition demoState :: "(unit, event) sys" where
  "demoState = \<lparr>world = (), trace = []\<rparr>"

definition demoOffer :: Offer where
  "demoOffer = \<lparr>of_ID = ''o'', of_InstanceType = ''g5.xlarge'', of_Zone = ''z'', of_HourlyUSD = 1,
     of_ExpiresAt = 0, of_Interruptible = False\<rparr>"

definition launchEnv :: "unit env" where
  "launchEnv = idleEnv\<lparr>
     x_DescribeImages := (\<lambda>_ _ w. (Inr [\<lparr>im_ImageId = ''ami-1'', im_CreationDate = ''2024-01-01''\<rparr>], w)),
     x_RunInstances := (\<lambda>_ _ w. (Inr [\<lparr>ei_InstanceId = ''i-1'', ei_Placement = Some ''us-east-1a''\<rparr>], w))\<rparr>"

definition demoGcp :: GcpProvider where
  "demoGcp = \<lparr>gcp_project = ''proj'', gcp_zone = ''z'', gcp_poolName = ''p'', gcp_instanceTypes = [],
     gcp_boot = demoBoot, gcp_lastICE = [], gcp_hourlyUSD = 0\<rparr>"

text \<open>
  When a cloud answers a launch with an insufficient-capacity error, \<open>Provision\<close> returns
  \<open>ErrICE\<close> and the provider remembers the time, so that the next \<open>Capacity\<close> report ends with it;
  after any other answer the report is unchanged.
\<close>
theorem provision_ice_reported:
  "emits (do { (r, p1) \<leftarrow> provider_Provision E p off; (rep, p2) \<leftarrow> provider_Capacity E p1 pool; ret (r, rep) })
     (\<lambda>(r, rep) es. \<exists>cr. rep = Inr cr \<and>
        (if exhausted es
         then r = Returns (Inl EICE) \<and> (\<exists>t. Clock t \<in> set es \<and> cr_RecentICE cr = provider_ICE p @ [t])
         else cr_RecentICE cr = provider_ICE p))"
  by (rule prov.ice_reported)

section \<open>The newest image\<close>

lemma creationDate_order:
  "strict_weak_order (\<lambda>a b. strLess (im_CreationDate b) (im_CreationDate a))"
  unfolding strict_weak_order_def using strLess_irrefl strLess_trans strLess_total by metis

text \<open>
  \<open>latestGPUAMI\<close> returns the id of an image of the answer than which no other was created
  later, whatever order \<open>sort.Slice\<close> leaves equal dates in.
\<close>
theorem latestGPUAMI_newest:
  assumes "sort_slice (x_SortImages E)"
  shows "emits (latestGPUAMI E p pat) (\<lambda>r es. \<forall>images.
     es = [Cloud (DescribeImages (aws_client p) pat (Inr images))] \<longrightarrow> images \<noteq> [] \<longrightarrow>
     (\<exists>best \<in> set images. r = Inr (im_ImageId best) \<and>
        (\<forall>x \<in> set images. \<not> strLess (im_CreationDate best) (im_CreationDate x))))"
proof -
  let ?srt = "x_SortImages E (\<lambda>a b. strLess (im_CreationDate b) (im_CreationDate a))"
  have "hd (?srt images) \<in> set images \<and>
      (\<forall>x\<in>set images. \<not> strLess (im_CreationDate (hd (?srt images))) (im_CreationDate x))"
    if "images \<noteq> []" for images
  proof -
    have set: "set images = set (?srt images)" by (simp only: sort_slice.srt_set [OF assms])
    with that obtain y ys where ys: "?srt images = y # ys" by (cases "?srt images") auto
    have "sorted_wrt (\<lambda>a b. \<not> strLess (im_CreationDate a) (im_CreationDate b)) (?srt images)"
      using sort_slice.srt_sorted [OF assms creationDate_order] .
    with ys set show ?thesis using strLess_irrefl by auto
  qed
  then show ?thesis by (auto simp: latestGPUAMI_def intro!: emits split: sum.split list.split)
qed

text \<open>Two images, the second one newer.\<close>

definition demoImages :: "EC2Image list" where
  "demoImages = [\<lparr>im_ImageId = ''ami-1'', im_CreationDate = ''2024-01-01''\<rparr>,
     \<lparr>im_ImageId = ''ami-2'', im_CreationDate = ''2024-06-01''\<rparr>]"

definition imagesEnv :: "unit env" where
  "imagesEnv = idleEnv\<lparr>x_SortImages := insertionSort, x_DescribeImages := (\<lambda>_ _ w. (Inr demoImages, w))\<rparr>"

lemma sort_slice_imagesEnv: "sort_slice (x_SortImages imagesEnv)"
  by (simp add: imagesEnv_def ins.sort_slice_axioms)

lemma imagesEnv_run:
  "wp (latestGPUAMI imagesEnv demoAws ''x'') (\<lambda>r s. r = Inr ''ami-2'' \<and>
     trace s = [Cloud (DescribeImages (aws_client demoAws) ''x'' (Inr demoImages))]) demoState"
  by (simp add: latestGPUAMI_def imagesEnv_def idleEnv_def demoState_def demoImages_def insertionSort_def wp)

theorem latestGPUAMI_newest_witness:
  "\<exists>best. best \<in> set demoImages \<and> im_ImageId best = ''ami-2'' \<and>
     list_all (\<lambda>x. \<not> strLess (im_CreationDate best) (im_CreationDate x)) demoImages"
proof -
  have "demoImages \<noteq> []" by (simp add: demoImages_def)
  then show ?thesis
    using wp_conj [OF imagesEnv_run emits_wp [OF latestGPUAMI_newest [OF sort_slice_imagesEnv]]]
    by (auto simp: wp_def demoState_def list_all_iff split: prod.splits) blast
qed

section \<open>The cache\<close>

lemma wp_aws_NewFactory:
  "wp (aws_NewFactory E pool creds boot) (\<lambda>r s'. pcache s' = pcache s \<and>
     (\<forall>prov. r = Inr prov \<longrightarrow> provider_Name prov = aws_ProviderName)) s"
  by (simp add: aws_NewFactory_def tagResult_def aws_Factory_def loadAWSConfig_def Let_def wp provider_Name_def
      split: option.split prod.split)

lemma wp_gcp_NewFactory:
  "wp (gcp_NewFactory E pool creds boot) (\<lambda>r s'. pcache s' = pcache s \<and>
     (\<forall>prov. r = Inr prov \<longrightarrow> provider_Name prov = gcp_ProviderName)) s"
  by (simp add: gcp_NewFactory_def tagResult_def gcp_Factory_def Let_def wp provider_Name_def
      split: option.split prod.split)

lemma wp_FactoryForPool:
  "wp (FactoryRegistry_ForPool (capacityfactory_NewRegistry E) pool creds boot)
     (\<lambda>r s'. pcache s' = pcache s \<and>
        (\<forall>prov. r = Inr prov \<longrightarrow> provider_Name prov = prs_Name (gps_Provider (pool_Spec pool)))) s"
  using wp_aws_NewFactory [of E pool creds boot s] wp_gcp_NewFactory [of E pool creds boot s]
  by (simp add: FactoryRegistry_ForPool_def capacityfactory_NewRegistry_def FactoryRegistry_Register_def
      static_NewFactory_def Let_def wp provider_Name_def)

text \<open>
  \<open>ForPool\<close> builds a provider once per pool name: a cached provider is returned without any
  call and whatever has become of the pool's spec; a failure leaves the cache as it was; a success
  stores a provider of the kind the pool names, under the pool's name and nowhere else.
\<close>
theorem ForPool_cached:
  "wp (ForPool E boot pool) (\<lambda>r s'.
     case pcache s (pool_Name pool) of
       Some prov \<Rightarrow> r = Inr (pool_Name pool) \<and> s' = s
     | None \<Rightarrow>
         (case r of
            Inl e \<Rightarrow> pcache s' = pcache s
          | Inr ref \<Rightarrow> ref = pool_Name pool \<and> (\<exists>prov.
              provider_Name prov = prs_Name (gps_Provider (pool_Spec pool)) \<and>
              pcache s' = (pcache s)(pool_Name pool \<mapsto> prov)))) s"
proof (cases "pcache s (pool_Name pool)")
  case None
  then show ?thesis
    by (auto simp: ForPool_def loadCredentials_def wp Let_def intro!: wp_mono [OF wp_FactoryForPool]
        split: sum.splits prod.splits) blast+
qed (simp add: ForPool_def wp)

section \<open>The trace of a call through a pointer\<close>

text \<open>The calls of which the providers and the cache consist: clouds, clock and credentials.\<close>

fun backgroundEvent :: "event \<Rightarrow> bool" where
  "backgroundEvent (Cloud c) = True"
| "backgroundEvent (Clock t) = True"
| "backgroundEvent (Kube (GetSecret ns n r)) = True"
| "backgroundEvent e = False"

lemma readOnly_background: "list_all readOnlyEvent es \<Longrightarrow> list_all backgroundEvent es"
proof (induction es)
  case (Cons e es)
  then show ?case by (cases e rule: readOnlyEvent.cases) auto
qed simp

lemma background_resolveAMI: "emits_all (resolveAMI E p) backgroundEvent"
  using emits_resolveAMI by (rule emits_mono) (rule readOnly_background)

lemma background_Quote: "emits_all (provider_Quote E p req) backgroundEvent"
  using prov.quote_offer by (rule emits_mono) (auto intro: readOnly_background)

lemma emits_all_onProvider: "emits_all m p \<Longrightarrow> emits_all (onProvider tag m) p"
  unfolding onProvider_def by (erule emits_all_bind) (auto intro!: emits)

lemma background_aws_Provision: "emits_all (aws_Provision E p offer) backgroundEvent"
  unfolding aws_Provision_def
  by (rule emits_all_bind [OF background_resolveAMI]) (auto intro!: emits split: list.split option.split)

lemma background_Provision: "emits_all (provider_Provision E p offer) backgroundEvent"
  by (auto simp: provider_Provision_def static_Provision_def gcp_Provision_def gcp_fail_def Let_def
      intro!: emits_all_onProvider background_aws_Provision emits split: provider.split)

lemma background_Release: "emits_all (provider_Release E p h) backgroundEvent"
  by (auto simp: provider_Release_def static_Release_def aws_Release_def gcp_Release_def Let_def
      intro!: emits_all_onProvider emits split: provider.split)

lemma background_Capacity: "emits_all (provider_Capacity E p pool) backgroundEvent"
  using prov.capacity_report by (rule emits_mono) auto

lemma emits_all_tagResult: "emits_all m p \<Longrightarrow> emits_all (tagResult tag m) p"
  unfolding tagResult_def by (erule emits_all_bind) (auto intro!: emits)

lemma background_aws_NewFactory: "emits_all (aws_NewFactory E pool creds boot) backgroundEvent"
  unfolding aws_NewFactory_def aws_Factory_def loadAWSConfig_def Let_def
  by (intro emits_all_tagResult emits_all_bind) (auto intro!: emits)

lemma background_gcp_NewFactory: "emits_all (gcp_NewFactory E pool creds boot) backgroundEvent"
  unfolding gcp_NewFactory_def gcp_Factory_def Let_def
  by (intro emits_all_tagResult emits_all_bind) (auto intro!: emits)

lemma background_FactoryForPool:
  "emits_all (FactoryRegistry_ForPool (capacityfactory_NewRegistry E) pool creds boot) backgroundEvent"
  by (simp add: FactoryRegistry_ForPool_def capacityfactory_NewRegistry_def FactoryRegistry_Register_def
      static_NewFactory_def Let_def emits_return background_aws_NewFactory background_gcp_NewFactory)

lemma emits_ForPool:
  "emits (ForPool E boot pool) (\<lambda>r es. list_all backgroundEvent es \<and> (\<forall>ref. r = Inr ref \<longrightarrow> ref = pool_Name pool))"
proof -
  have "emits_all (loadCredentials E pool) backgroundEvent"
    by (auto simp: loadCredentials_def Let_def intro!: emits)
  then show ?thesis
    unfolding ForPool_def
    by (auto intro!: emits emits_bind [OF \<open>emits_all (loadCredentials E pool) backgroundEvent\<close>]
        emits_bind [OF background_FactoryForPool])
qed

lemma emits_callProvider:
  assumes "\<And>p. emits (call p) (\<lambda>(r, p') es. P r es)" and "P nil []"
  shows "emits (callProvider ref nil call) P"
  unfolding callProvider_def
  by (auto intro!: emits emits_bind_prod [OF assms(1)] simp: assms(2))

lemma emits_Quote_via:
  "emits (Quote_via E ref req) (\<lambda>r es. list_all backgroundEvent es \<and> (\<forall>offs. r = Inr offs \<longrightarrow> offs \<noteq> []))"
  unfolding Quote_via_def
proof (rule emits_callProvider)
  fix p
  show "emits (provider_Quote E p req)
     (\<lambda>(r, p') es. list_all backgroundEvent es \<and> (\<forall>offs. r = Inr offs \<longrightarrow> offs \<noteq> []))"
    using prov.quote_offer by (rule emits_mono) (auto intro: readOnly_background)
qed simp

lemma emits_mark: "P () [Provider e] \<Longrightarrow> emits (mark e) P"
  by (simp add: emits_def mark_def wp)

lemma emits_Provision_via:
  "emits (Provision_via E ref offer)
     (\<lambda>r es. \<exists>pre. es = pre @ [Provider (Provision ref offer r)] \<and> list_all backgroundEvent pre)"
proof -
  have "emits (callProvider ref (Panics ''nil provider'') (\<lambda>p. provider_Provision E p offer))
          (\<lambda>_. list_all backgroundEvent)"
    by (rule emits_callProvider) (auto intro: emits_mono [OF background_Provision])
  then show ?thesis
    unfolding Provision_via_def
    by (rule emits_bind) (rule emits_bind [where P = "\<lambda>_ es. es = [Provider (Provision ref offer a)]" for a],
        auto intro!: emits_mark emits)
qed

lemma emits_Release_via:
  "emits (Release_via E ref h)
     (\<lambda>r es. \<exists>pre. es = pre @ [Provider (Release ref h r)] \<and> list_all backgroundEvent pre)"
proof -
  have "emits (callProvider ref None (\<lambda>p. provider_Release E p h)) (\<lambda>_. list_all backgroundEvent)"
    by (rule emits_callProvider) (auto intro: emits_mono [OF background_Release])
  then show ?thesis
    unfolding Release_via_def
    by (rule emits_bind) (rule emits_bind [where P = "\<lambda>_ es. es = [Provider (Release ref h a)]" for a],
        auto intro!: emits_mark emits)
qed

lemma emits_Capacity_via: "emits_all (Capacity_via E ref pool) backgroundEvent"
  unfolding Capacity_via_def
  by (rule emits_callProvider) (auto intro: emits_mono [OF background_Capacity])

text \<open>The calls through the interface, and the writes of a pool's status, that a trace contains.\<close>

fun provisionEv :: "event \<Rightarrow> (string \<times> (goerror + NodeHandle) outcome) option" where
  "provisionEv (Provider (Provision ref off r)) = Some (ref, r)"
| "provisionEv e = None"

fun handleEv :: "event \<Rightarrow> NodeHandle option" where
  "handleEv (Provider (Provision ref off (Returns (Inr h)))) = Some h"
| "handleEv e = None"

fun releaseEv :: "event \<Rightarrow> (string \<times> NodeHandle \<times> goerror option) option" where
  "releaseEv (Provider (Release ref h err)) = Some (ref, h, err)"
| "releaseEv e = None"

fun poolUpdateEv :: "event \<Rightarrow> GPUPool option" where
  "poolUpdateEv (Kube (StatusUpdatePool p r)) = Some p"
| "poolUpdateEv e = None"

fun podDeleteEv :: "event \<Rightarrow> Pod option" where
  "podDeleteEv (Kube (DeletePod p r)) = Some p"
| "podDeleteEv e = None"

lemma background_projections:
  assumes "backgroundEvent e"
  shows "provisionEv e = None" "handleEv e = None" "releaseEv e = None" "poolUpdateEv e = None"
  using assms by (cases e rule: backgroundEvent.cases; simp)+

lemma background_select:
  assumes "list_all backgroundEvent es"
  shows "select provisionEv es = []" "select handleEv es = []" "select releaseEv es = []"
    "select poolUpdateEv es = []"
  using assms by (auto intro!: select_none simp: list_all_iff background_projections)

end
