(* ===== verification/Buffer_Controller.thy ===== *)
theory Buffer_Controller
  imports Providers
begin

text \<open>
  \<open>internal/controller/buffer\<close>: the reconciler that keeps a buffer of warm nodes per
  \<open>BufferPolicy\<close>.  It compares the warm nodes of the policy's pools with the target, and either
  lets the scheduler plan new nodes and provisions them, or drains and releases surplus ones.

  The scheduler is an argument, as it is a field of \<open>Reconciler\<close>; what is proved about plans uses
  only the locale \<open>scheduler\<close>, and the properties are stated for the greedy scheduler that
  \<open>NewReconciler\<close> installs.  The handler is a function of the environment, so every property holds
  for every behaviour of the API server and the clouds.  Log output is left out.
\<close>

definition RequeueInterval :: duration where
  "RequeueInterval = 15 * second"

text \<open>A reconcile result: the delay before the next run (0 in \<open>ctrl.Result{}\<close>) and the error.\<close>

type_synonym Result = "(duration \<times> goerror option) outcome"

section \<open>Target and pool views\<close>

fun countPools :: "'w env \<Rightarrow> PoolRef list \<Rightarrow> int \<Rightarrow> ('w, 'z, int) io" where
  "countPools E [] tot = ret tot"
| "countPools E (ref # refs) tot = do {
     r \<leftarrow> kGetPool E (ref_Name ref);
     case r of
       Inl err \<Rightarrow> countPools E refs tot
     | Inr pool \<Rightarrow> countPools E refs (tot + (pc_Buffered (pool_Nodes pool) + pc_Provisioning (pool_Nodes pool)))
   }"

definition countWarmGPUs :: "'w env \<Rightarrow> BufferPolicy \<Rightarrow> ('w, 'z, int) io" where
  "countWarmGPUs E policy = countPools E (bps_Pools (policy_Spec policy)) 0"

definition desiredWarmGPUs :: "BufferPolicy \<Rightarrow> int" where
  "desiredWarmGPUs policy =
     (let t = bps_Target (policy_Spec policy);
          static = (if 0 < bt_MinWarmGPUs t then bt_MinWarmGPUs t else 0)
      in if bt_Mode t = ''dynamic'' then
           (case bt_Dynamic t of
              None \<Rightarrow> static
            | Some dyn \<Rightarrow>
                (let demand = bpt_DemandEWMA (policy_Status policy);
                     base = (if 0 < demand \<and> 0 < dt_K dyn
                             then wrap64 (bt_MinWarmGPUs t + f_to_int (f_mul (dt_K dyn) demand))
                             else bt_MinWarmGPUs t)
                 in if bt_MaxWarmGPUs t < base then bt_MaxWarmGPUs t
                    else if base < bt_MinWarmGPUs t then bt_MinWarmGPUs t
                    else base))
         else static)"

definition poolNodeTotal :: "GPUPool \<Rightarrow> int" where
  "poolNodeTotal pool = pc_Active (pool_Nodes pool) + pc_Buffered (pool_Nodes pool) + pc_Provisioning (pool_Nodes pool)"

definition poolView :: "GPUPool \<Rightarrow> gotime \<Rightarrow> PoolView" where
  "poolView pool now =
     \<lparr>pv_Name = pool_Name pool, pv_Priority = gps_Priority (pool_Spec pool),
      pv_ObservedHourlyUSD = oc_ObservedHourlyUSD (pool_Observed pool),
      pv_ICEPenalty = (if now - 15 * minute < oc_LastICE (pool_Observed pool) then 2 else 1),
      pv_MaxNodes = pl_MaxNodes (gps_Limits (pool_Spec pool)),
      pv_CurrentNodes = poolNodeTotal pool,
      pv_Available = oc_Available (pool_Observed pool)\<rparr>"

fun viewPools :: "'w env \<Rightarrow> PoolRef list \<Rightarrow> PoolView list \<Rightarrow> ('w, 'z, PoolView list) io" where
  "viewPools E [] views = ret views"
| "viewPools E (ref # refs) views = do {
     r \<leftarrow> kGetPool E (ref_Name ref);
     case r of
       Inl err \<Rightarrow> viewPools E refs views
     | Inr pool \<Rightarrow> do { now \<leftarrow> kNow E; viewPools E refs (views @ [poolView pool now]) }
   }"

definition buildPoolViews :: "'w env \<Rightarrow> BufferPolicy \<Rightarrow> ('w, 'z, PoolView list) io" where
  "buildPoolViews E policy = viewPools E (bps_Pools (policy_Spec policy)) []"

section \<open>Provisioning\<close>

definition spendAllowed :: "GPUPool \<Rightarrow> int \<Rightarrow> bool" where
  "spendAllowed pool addNodes =
     (let mx = pl_MaxHourlyUSD (gps_Limits (pool_Spec pool));
          current = poolNodeTotal pool;
          hourly = (if oc_ObservedHourlyUSD (pool_Observed pool) \<le> 0 then 1
                    else oc_ObservedHourlyUSD (pool_Observed pool))
      in if mx \<le> 0 then True else f_mul hourly (f_of_int (current + addNodes)) \<le> mx)"

definition splitSubnets :: "string \<Rightarrow> string list" where
  "splitSubnets s = (if s = [] then [] else filter (\<lambda>p. p \<noteq> []) (map TrimSpace (Split s (CHR '',''))))"

definition poolRequest :: "GPUPool \<Rightarrow> string \<Rightarrow> int \<Rightarrow> GPURequest" where
  "poolRequest pool poolName cnt =
     \<lparr>req_PoolName = poolName, req_GPUType = gp_Type (gps_GPU (pool_Spec pool)),
      req_GPUCount = gp_PerNode (gps_GPU (pool_Spec pool)), req_NodeCount = cnt,
      req_InstanceTypes = gps_InstanceTypes (pool_Spec pool),
      req_Subnets = splitSubnets (pool_Param pool ''subnets''),
      req_Constraints = \<lparr>cn_Region = pool_Param pool ''region'', cn_Zone = pool_Param pool ''zone'',
         cn_CapacityType = pool_Param pool ''capacityType'',
         cn_MaxHourlyUSD = pl_MaxHourlyUSD (gps_Limits (pool_Spec pool))\<rparr>\<rparr>"

definition provisionedRecord :: "string \<Rightarrow> NodeHandle \<Rightarrow> NodeRecord" where
  "provisionedRecord poolName h =
     \<lparr>nr_ProviderID = nh_ProviderID h, nr_NodeName = nh_NodeName h, nr_State = ''provisioning'',
      nr_LaunchedAt = nh_LaunchedAt h, nr_PoolName = poolName\<rparr>"

definition addProvisioned :: "string \<Rightarrow> NodeHandle \<Rightarrow> GPUPool \<Rightarrow> GPUPool" where
  "addProvisioned poolName h pool =
     pool\<lparr>pool_Status := (pool_Status pool)
        \<lparr>gpt_NodeRecords := pool_Records pool @ [provisionedRecord poolName h],
         gpt_Nodes := (pool_Nodes pool)\<lparr>pc_Provisioning := pc_Provisioning (pool_Nodes pool) + 1\<rparr>\<rparr>\<rparr>"

text \<open>The loop over \<open>i\<close>: the index and the number of rounds left.\<close>

fun provisionLoop ::
  "'w env \<Rightarrow> ProviderRef \<Rightarrow> string \<Rightarrow> Offer list \<Rightarrow> nat \<Rightarrow> nat \<Rightarrow> GPUPool \<Rightarrow>
     ('w, 'z, goerror option outcome \<times> GPUPool) mio" where
  "provisionLoop E provider poolName offers i 0 pool = ret (Returns None, pool)"
| "provisionLoop E provider poolName offers i (Suc k) pool =
     (if offers = [] then ret (Panics ''index out of range'', pool)
      else do {
        let offer = (if i < length offers then offers ! i else offers ! 0);
        r \<leftarrow> Provision_via E provider offer;
        case r of
          Panics m \<Rightarrow> ret (Panics m, pool)
        | Returns x \<Rightarrow>
            (case x of
               Inl err \<Rightarrow> ret (Returns (Some err), pool)
             | Inr handle \<Rightarrow> provisionLoop E provider poolName offers (i + 1) k (addProvisioned poolName handle pool))
      })"

definition provisionNodes ::
  "'w env \<Rightarrow> BootstrapConfig \<Rightarrow> GPUPool \<Rightarrow> string \<Rightarrow> int \<Rightarrow> ('w, 'z, goerror option outcome) mio" where
  "provisionNodes E boot pool poolName cnt = do {
     r \<leftarrow> ForPool E boot pool;
     case r of
       Inl err \<Rightarrow> ret (Returns (Some err))
     | Inr provider \<Rightarrow> do {
         r \<leftarrow> Quote_via E provider (poolRequest pool poolName cnt);
         case r of
           Inl err \<Rightarrow> ret (Returns (Some err))
         | Inr offers \<Rightarrow> do {
             (r, pool) \<leftarrow> provisionLoop E provider poolName offers 0 (nat cnt) pool;
             case r of
               Panics m \<Rightarrow> ret (Panics m)
             | Returns e \<Rightarrow>
                 (case e of
                    Some err \<Rightarrow> ret (Returns (Some err))
                  | None \<Rightarrow> do {
                      u \<leftarrow> kStatusUpdatePool E pool;
                      ret (Returns (case u of Inl err \<Rightarrow> Some err | Inr _ \<Rightarrow> None))
                    })
           }
       }
   }"

definition provisionPool ::
  "'w env \<Rightarrow> BootstrapConfig \<Rightarrow> string \<Rightarrow> int \<Rightarrow> ('w, 'z, goerror option outcome) mio" where
  "provisionPool E boot poolName cnt = do {
     r \<leftarrow> kGetPool E poolName;
     case r of
       Inl err \<Rightarrow> ret (Returns (Some err))
     | Inr pool \<Rightarrow>
         if \<not> spendAllowed pool cnt
         then ret (Returns (Some (EMsg (''maxHourlyUSD ceiling for pool '' @ poolName))))
         else if prs_Name (gps_Provider (pool_Spec pool)) = static_ProviderName then do {
           nodes \<leftarrow> kListNodes E LabelPool poolName;
           (case nodes of
              Inr items \<Rightarrow>
                if cnt \<le> int (length items) then ret (Returns None)
                else provisionNodes E boot pool poolName cnt
            | Inl err \<Rightarrow> provisionNodes E boot pool poolName cnt)
         }
         else provisionNodes E boot pool poolName cnt
   }"

text \<open>The loop over the plan goes on after an error, ICE or not, and stops only at a panic.\<close>

fun provisionEntries ::
  "'w env \<Rightarrow> BootstrapConfig \<Rightarrow> PlanEntry list \<Rightarrow> ('w, 'z, unit outcome) mio" where
  "provisionEntries E boot [] = ret (Returns ())"
| "provisionEntries E boot (entry # entries) = do {
     r \<leftarrow> provisionPool E boot (pe_PoolName entry) (pe_NodeCount entry);
     case r of
       Panics m \<Rightarrow> ret (Panics m)
     | Returns err \<Rightarrow> provisionEntries E boot entries
   }"

section \<open>Scale-down\<close>

definition bufferParseDuration :: "string \<Rightarrow> duration \<Rightarrow> duration" where
  "bufferParseDuration s def =
     (if s = [] then def else (case ParseDuration s of None \<Rightarrow> def | Some d \<Rightarrow> d))"

text \<open>Eviction of the pods of a node, the system ones excepted; the answers are ignored.\<close>

fun evictPods :: "'w env \<Rightarrow> string \<Rightarrow> Pod list \<Rightarrow> ('w, 'z, unit) io" where
  "evictPods E nodeName [] = ret ()"
| "evictPods E nodeName (pod # pods) =
     (if pod_NodeName pod \<noteq> nodeName then evictPods E nodeName pods
      else if pod_Namespace pod = ''kube-system'' then evictPods E nodeName pods
      else do { _ \<leftarrow> kEvictPod E pod; evictPods E nodeName pods })"

definition evictNode :: "'w env \<Rightarrow> string \<Rightarrow> ('w, 'z, unit) io" where
  "evictNode E nodeName = do {
     pods \<leftarrow> kListPods E;
     case pods of Inr items \<Rightarrow> evictPods E nodeName items | Inl err \<Rightarrow> ret ()
   }"

definition releasedPool :: "nat \<Rightarrow> GPUPool \<Rightarrow> GPUPool" where
  "releasedPool i pool =
     pool\<lparr>pool_Status := (pool_Status pool)
        \<lparr>gpt_NodeRecords := (pool_Records pool)[i := (pool_Records pool ! i)\<lparr>nr_State := ''released''\<rparr>],
         gpt_Nodes := (pool_Nodes pool)\<lparr>pc_Buffered := pc_Buffered (pool_Nodes pool) - 1\<rparr>\<rparr>\<rparr>"

text \<open>The pointer \<open>rec\<close> into the pool's records is their index; the pool is returned updated.\<close>

definition drainAndRelease ::
  "'w env \<Rightarrow> BootstrapConfig \<Rightarrow> GPUPool \<Rightarrow> nat \<Rightarrow> duration \<Rightarrow> ('w, 'z, goerror option \<times> GPUPool) mio" where
  "drainAndRelease E boot pool i drainTimeout =
     (let rec = pool_Records pool ! i
      in if nr_NodeName rec = [] then ret (None, pool)
         else do {
           r \<leftarrow> kGetNode E (nr_NodeName rec);
           case r of
             Inl err \<Rightarrow> ret (IgnoreNotFound err, pool)
           | Inr node \<Rightarrow> do {
               u \<leftarrow> kUpdateNode E (node\<lparr>node_Unschedulable := True\<rparr>);
               case u of
                 Inl err \<Rightarrow> ret (Some err, pool)
               | Inr _ \<Rightarrow> do {
                   evictNode E (nr_NodeName rec);
                   kSleep E drainTimeout;
                   p \<leftarrow> ForPool E boot pool;
                   (case p of
                      Inl err \<Rightarrow> ret (Some err, pool)
                    | Inr provider \<Rightarrow> do {
                        err \<leftarrow> Release_via E provider
                          \<lparr>nh_ProviderID = nr_ProviderID rec, nh_NodeName = nr_NodeName rec,
                           nh_Labels = Map.empty, nh_LaunchedAt = zeroTime\<rparr>;
                        (case err of
                           Some e \<Rightarrow> ret (Some e, pool)
                         | None \<Rightarrow> ret (None, releasedPool i pool))
                      })
                 }
             }
         })"

text \<open>A record may be released when it is buffered and older than the stabilization window.\<close>

definition releasable :: "duration \<Rightarrow> gotime \<Rightarrow> NodeRecord \<Rightarrow> bool" where
  "releasable stab now rec \<longleftrightarrow> nr_State rec = ''buffered'' \<and> \<not> now < nr_LaunchedAt rec + stab"

fun releaseRecords ::
  "'w env \<Rightarrow> BootstrapConfig \<Rightarrow> duration \<Rightarrow> duration \<Rightarrow> gotime \<Rightarrow> nat list \<Rightarrow> GPUPool \<Rightarrow> int \<Rightarrow>
     ('w, 'z, goerror option \<times> GPUPool \<times> int) mio" where
  "releaseRecords E boot stab drainTimeout now [] pool excess = ret (None, pool, excess)"
| "releaseRecords E boot stab drainTimeout now (i # is) pool excess =
     (if excess \<le> 0 then ret (None, pool, excess)
      else if \<not> releasable stab now (pool_Records pool ! i)
      then releaseRecords E boot stab drainTimeout now is pool excess
      else do {
        (err, pool) \<leftarrow> drainAndRelease E boot pool i drainTimeout;
        case err of
          Some e \<Rightarrow> ret (Some e, pool, excess)
        | None \<Rightarrow> releaseRecords E boot stab drainTimeout now is pool (excess - 1)
      })"

fun scaleDownPools ::
  "'w env \<Rightarrow> BootstrapConfig \<Rightarrow> duration \<Rightarrow> duration \<Rightarrow> gotime \<Rightarrow> PoolRef list \<Rightarrow> int \<Rightarrow>
     ('w, 'z, goerror option) mio" where
  "scaleDownPools E boot stab drainTimeout now [] excess = ret None"
| "scaleDownPools E boot stab drainTimeout now (ref # refs) excess = do {
     r \<leftarrow> kGetPool E (ref_Name ref);
     case r of
       Inl err \<Rightarrow> scaleDownPools E boot stab drainTimeout now refs excess
     | Inr pool \<Rightarrow> do {
         (err, pool, excess) \<leftarrow>
           releaseRecords E boot stab drainTimeout now [0..<length (pool_Records pool)] pool excess;
         case err of
           Some e \<Rightarrow> ret (Some e)
         | None \<Rightarrow> do {
             u \<leftarrow> kStatusUpdatePool E pool;
             case u of
               Inl err \<Rightarrow> ret (Some err)
             | Inr _ \<Rightarrow> scaleDownPools E boot stab drainTimeout now refs excess
           }
       }
   }"

definition scaleDown ::
  "'w env \<Rightarrow> BootstrapConfig \<Rightarrow> BufferPolicy \<Rightarrow> int \<Rightarrow> ('w, 'z, goerror option) mio" where
  "scaleDown E boot policy excess =
     (let stab = bufferParseDuration (sd_StabilizationWindow (bps_ScaleDown (policy_Spec policy))) (10 * minute);
          drainTimeout = bufferParseDuration (sd_DrainTimeout (bps_ScaleDown (policy_Spec policy))) (5 * minute)
      in do {
        now \<leftarrow> kNow E;
        scaleDownPools E boot stab drainTimeout now (bps_Pools (policy_Spec policy)) excess
      })"

section \<open>Reconcile\<close>

definition bufferAct ::
  "(int \<Rightarrow> PoolView list \<Rightarrow> goerror + Plan) \<Rightarrow> 'w env \<Rightarrow> BootstrapConfig \<Rightarrow> BufferPolicy \<Rightarrow> int \<Rightarrow> int \<Rightarrow>
     ('w, 'z, goerror option outcome) mio" where
  "bufferAct fill E boot policy desired current =
     (if current < desired then do {
        views \<leftarrow> buildPoolViews E policy;
        case fill (desired - current) views of
          Inl err \<Rightarrow> ret (Returns (Some err))
        | Inr plan \<Rightarrow> do {
            r \<leftarrow> provisionEntries E boot (plan_Entries plan);
            ret (case r of Panics m \<Rightarrow> Panics m | Returns _ \<Rightarrow> Returns None)
          }
      }
      else if desired < current then do {
        err \<leftarrow> scaleDown E boot policy (current - desired);
        ret (Returns None)
      }
      else ret (Returns None))"

definition buffer_Reconcile ::
  "(int \<Rightarrow> PoolView list \<Rightarrow> goerror + Plan) \<Rightarrow> 'w env \<Rightarrow> BootstrapConfig \<Rightarrow> string \<Rightarrow> ('w, 'z, Result) mio" where
  "buffer_Reconcile fill E boot name = do {
     r \<leftarrow> kGetPolicy E name;
     case r of
       Inl err \<Rightarrow> ret (Returns (0, IgnoreNotFound err))
     | Inr policy \<Rightarrow> do {
         current \<leftarrow> countWarmGPUs E policy;
         res \<leftarrow> bufferAct fill E boot policy (desiredWarmGPUs policy) current;
         case res of
           Panics m \<Rightarrow> ret (Panics m)
         | Returns e \<Rightarrow>
             (case e of
                Some err \<Rightarrow> ret (Returns (0, Some err))
              | None \<Rightarrow> do {
                  n \<leftarrow> countWarmGPUs E policy;
                  u \<leftarrow> kStatusUpdatePolicy E
                    (policy\<lparr>policy_Status := (policy_Status policy)\<lparr>bpt_CurrentWarmGPUs := n\<rparr>\<rparr>);
                  ret (case u of Inl err \<Rightarrow> Returns (0, Some err) | Inr _ \<Rightarrow> Returns (RequeueInterval, None))
                })
       }
   }"

section \<open>Provisioning: counts, bookkeeping, spend\<close>

lemma pool_fold_addProvisioned:
  "pool_Records (fold (addProvisioned poolName) hs pool) = pool_Records pool @ map (provisionedRecord poolName) hs"
  "pc_Provisioning (pool_Nodes (fold (addProvisioned poolName) hs pool)) =
     pc_Provisioning (pool_Nodes pool) + int (length hs)"
  by (induction hs arbitrary: pool) (auto simp: addProvisioned_def)

lemma emits_provisionLoop:
  "emits (provisionLoop E ref poolName offers i k pool) (\<lambda>(r, pool') es.
     length (select provisionEv es) \<le> k \<and> select releaseEv es = [] \<and> select poolUpdateEv es = [] \<and>
     (r = Returns None \<longrightarrow> length (select handleEv es) = k \<and>
        pool' = fold (addProvisioned poolName) (select handleEv es) pool))"
proof (induction k arbitrary: i pool)
  case (Suc k)
  show ?case
    unfolding provisionLoop.simps Let_def
    by (rule emits_if, rule emits_return, simp, rule emits_bind [OF emits_Provision_via])
      (auto intro!: emits emits_mono [OF Suc.IH] simp: background_select split: outcome.split sum.split)
qed (auto intro!: emits)

text \<open>What one call of \<open>provisionNodes\<close> leaves in the trace.\<close>

definition provisionTrace :: "GPUPool \<Rightarrow> string \<Rightarrow> int \<Rightarrow> goerror option outcome \<Rightarrow> event list \<Rightarrow> bool" where
  "provisionTrace pool poolName cnt r es \<longleftrightarrow>
     length (select provisionEv es) \<le> nat cnt \<and> select releaseEv es = [] \<and>
     (case select poolUpdateEv es of
        [] \<Rightarrow> r \<noteq> Returns None
      | p' # ps \<Rightarrow> ps = [] \<and> length (select handleEv es) = nat cnt \<and>
          p' = fold (addProvisioned poolName) (select handleEv es) pool)"

lemma provisionTrace_background:
  "list_all backgroundEvent es \<Longrightarrow>
     provisionTrace pool poolName cnt r (es @ es') = provisionTrace pool poolName cnt r es'"
  by (simp add: provisionTrace_def background_select cong: list.case_cong)

lemma provisionTrace_skip [simp]:
  "provisionTrace pool poolName cnt r (Kube (GetPool n p) # es) = provisionTrace pool poolName cnt r es"
  "provisionTrace pool poolName cnt r (Kube (ListNodes k v ns) # es) = provisionTrace pool poolName cnt r es"
  by (simp_all add: provisionTrace_def cong: list.case_cong)

lemma provisionTrace_failed: "provisionTrace pool poolName cnt (Returns (Some err)) []"
  by (simp add: provisionTrace_def)

lemma emits_background_bind:
  assumes "emits m (\<lambda>r es. list_all backgroundEvent es \<and> X r)"
    and "\<And>a. emits (f a) (provisionTrace pool poolName cnt)"
  shows "emits (State_Monad.bind m f) (provisionTrace pool poolName cnt)"
  using assms(1) by (rule emits_bind) (auto intro: emits_mono [OF assms(2)] simp: provisionTrace_background)

lemma emits_provisionLoop_update:
  "emits (do {
      (r, pool) \<leftarrow> provisionLoop E provider poolName offers 0 (nat cnt) pool;
      case r of
        Panics m \<Rightarrow> ret (Panics m)
      | Returns e \<Rightarrow>
          (case e of
             Some err \<Rightarrow> ret (Returns (Some err))
           | None \<Rightarrow> do {
               u \<leftarrow> kStatusUpdatePool E pool;
               ret (Returns (case u of Inl err \<Rightarrow> Some err | Inr _ \<Rightarrow> None))
             })
    }) (provisionTrace pool poolName cnt)"
  by (rule emits_bind_prod [OF emits_provisionLoop])
    (auto intro!: emits simp: provisionTrace_def split: outcome.split option.split sum.split)

lemma emits_provisionNodes:
  "emits (provisionNodes E boot pool poolName cnt) (provisionTrace pool poolName cnt)"
  unfolding provisionNodes_def
  by (intro emits_background_bind [OF emits_ForPool] emits_background_bind [OF emits_Quote_via]
      emits_case_sum emits_provisionLoop_update emits_return provisionTrace_failed)

lemma emits_provisionPool:
  "emits (provisionPool E boot poolName cnt) (\<lambda>r es.
     select provisionEv es = [] \<and> select releaseEv es = [] \<and> select poolUpdateEv es = [] \<or>
     (\<exists>pool. Kube (GetPool poolName (Inr pool)) \<in> set es \<and> spendAllowed pool cnt \<and>
        provisionTrace pool poolName cnt r es))"
  unfolding provisionPool_def
  by (auto intro!: emits emits_mono [OF emits_provisionNodes])

text \<open>A cluster with one empty pool of the static provider, with a node ceiling in dollars.\<close>

definition bufPool :: GPUPool where
  "bufPool = zeroPool\<lparr>
     pool_Meta := zeroMeta\<lparr>om_Name := ''p''\<rparr>,
     pool_Spec := (pool_Spec zeroPool)\<lparr>gps_Provider := \<lparr>prs_Name = ''static'', prs_CredentialsRef = \<lparr>sr_SecretName = []\<rparr>,
                    prs_Params = Map.empty\<rparr>, gps_Limits := \<lparr>pl_MaxNodes = 3, pl_MaxHourlyUSD = 2\<rparr>\<rparr>\<rparr>"

definition bufEnv :: "unit env" where
  "bufEnv = idleEnv\<lparr>x_GetPool := (\<lambda>n w. (Inr bufPool, w))\<rparr>"

definition mgrState :: "'w \<Rightarrow> ('w, event) mgr" where
  "mgrState w = \<lparr>world = w, trace = [], pcache = Map.empty\<rparr>"

lemmas provision_eval = provisionPool_def provisionNodes_def ForPool_def loadCredentials_def
  FactoryRegistry_ForPool_def capacityfactory_NewRegistry_def FactoryRegistry_Register_def
  static_NewFactory_def static_ProviderName_def aws_ProviderName_def gcp_ProviderName_def
  Quote_via_def Provision_via_def callProvider_def mark_def onProvider_def
  provider_Quote_def provider_Provision_def static_Quote_def static_Provision_def
  spendAllowed_def poolNodeTotal_def Let_def wp

lemmas bufEnv_eval = bufEnv_def bufPool_def idleEnv_def mgrState_def zeroPool_def zeroMeta_def

lemma bufEnv_provisions:
  "wp (provisionPool bufEnv demoBoot ''p'' 1) (\<lambda>r s. r = Returns None \<and> length (select provisionEv (trace s)) = 1 \<and>
     length (select poolUpdateEv (trace s)) = 1 \<and>
     (\<forall>pool. Kube (GetPool ''p'' (Inr pool)) \<in> set (trace s) \<longrightarrow> pool = bufPool)) (mgrState ())"
  by (simp add: provision_eval bufEnv_eval f_defs fl_1)

text \<open>
  C18: \<open>provisionPool\<close> records in the pool's status exactly the nodes it launched, and only if all
  of them were: it writes the status at most once; when it does, every one of the requested
  launches has succeeded and the status is the one it read, with a \<open>provisioning\<close> record per handle
  appended and the \<open>Provisioning\<close> count raised by their number; when it does not and still returns
  without error, it has launched nothing.
\<close>
theorem provisionPool_bookkeeping:
  "emits (provisionPool E boot poolName cnt) (\<lambda>r es.
     case select poolUpdateEv es of
       [] \<Rightarrow> r = Returns None \<longrightarrow> select provisionEv es = []
     | p' # ps \<Rightarrow> ps = [] \<and> length (select handleEv es) = nat cnt \<and>
         (\<exists>pool. Kube (GetPool poolName (Inr pool)) \<in> set es \<and>
            pool_Records p' = pool_Records pool @ map (provisionedRecord poolName) (select handleEv es) \<and>
            pc_Provisioning (pool_Nodes p') = pc_Provisioning (pool_Nodes pool) + int (nat cnt)))"
  using emits_provisionPool
  by (rule emits_mono)
    (auto simp: provisionTrace_def pool_fold_addProvisioned split: list.splits)

theorem provisionPool_bookkeeping_witness:
  "wp (provisionPool bufEnv demoBoot ''p'' 1) (\<lambda>r s. r = Returns None \<and> (\<exists>h p'.
     select handleEv (trace s) = [h] \<and> select poolUpdateEv (trace s) = [p'] \<and>
     pool_Records p' = [provisionedRecord ''p'' h] \<and> pc_Provisioning (pool_Nodes p') = 1)) (mgrState ())"
proof -
  have [simp]: "pool_Records bufPool = []" "pc_Provisioning (pool_Nodes bufPool) = 0"
    by (simp_all add: bufPool_def zeroPool_def)
  have "wp (provisionPool bufEnv demoBoot ''p'' 1) (\<lambda>r s. (r = Returns None \<and>
     length (select provisionEv (trace s)) = 1 \<and> length (select poolUpdateEv (trace s)) = 1 \<and>
     (\<forall>pool. Kube (GetPool ''p'' (Inr pool)) \<in> set (trace s) \<longrightarrow> pool = bufPool)) \<and>
     (\<exists>es. trace s = trace (mgrState ()) @ es \<and>
      (case select poolUpdateEv es of
         [] \<Rightarrow> r = Returns None \<longrightarrow> select provisionEv es = []
       | p' # ps \<Rightarrow> ps = [] \<and> length (select handleEv es) = nat 1 \<and>
         (\<exists>pool. Kube (GetPool ''p'' (Inr pool)) \<in> set es \<and>
            pool_Records p' = pool_Records pool @ map (provisionedRecord ''p'') (select handleEv es) \<and>
            pc_Provisioning (pool_Nodes p') = pc_Provisioning (pool_Nodes pool) + int (nat 1))))) (mgrState ())"
    using bufEnv_provisions emits_wp [OF provisionPool_bookkeeping] by (rule wp_conj)
  then show ?thesis
    by (rule wp_mono) (auto simp: mgrState_def length_Suc_conv split: list.splits)
qed

text \<open>A failed launch: a \<open>Provision\<close> call that gave no handle.\<close>

definition launchFailed :: "event list \<Rightarrow> bool" where
  "launchFailed es \<longleftrightarrow> list_ex (\<lambda>(ref, x). case x of Returns (Inr h) \<Rightarrow> False | _ \<Rightarrow> True) (select provisionEv es)"

lemma launchFailed_handles: "launchFailed es \<Longrightarrow> length (select handleEv es) < length (select provisionEv es)"
proof (induction es)
  case (Cons e es)
  have le: "length (select handleEv es) \<le> length (select provisionEv es)" for es
  proof (induction es)
    case (Cons e es)
    then show ?case by (cases e rule: handleEv.cases) auto
  qed simp
  show ?case
    using Cons le [of es] by (cases e rule: handleEv.cases) (auto simp: launchFailed_def)
qed (simp add: launchFailed_def)

text \<open>
  C20: The other side of the bookkeeping: as soon as one launch of a call to \<open>provisionPool\<close> fails,
  the status of the pool is not written at all, so the nodes that the same call has launched before
  are in no status and nothing refers to them any more.
\<close>
theorem provisionPool_failure_unrecorded:
  "emits (provisionPool E boot poolName cnt) (\<lambda>r es. launchFailed es \<longrightarrow> select poolUpdateEv es = [])"
  using emits_provisionPool
proof (rule emits_mono, intro impI)
  fix r es
  assume "select provisionEv es = [] \<and> select releaseEv es = [] \<and> select poolUpdateEv es = [] \<or>
     (\<exists>pool. Kube (GetPool poolName (Inr pool)) \<in> set es \<and> spendAllowed pool cnt \<and>
        provisionTrace pool poolName cnt r es)" and "launchFailed es"
  with launchFailed_handles [of es] show "select poolUpdateEv es = []"
    by (cases "select poolUpdateEv es") (auto simp: provisionTrace_def)
qed

text \<open>The cloud grants the first of two instances and refuses the second.\<close>

definition leakPool :: GPUPool where
  "leakPool = bufPool\<lparr>pool_Spec := (pool_Spec bufPool)\<lparr>
     gps_Provider := \<lparr>prs_Name = ''aws'', prs_CredentialsRef = \<lparr>sr_SecretName = []\<rparr>,
        prs_Params = [''ami'' \<mapsto> ''ami-1'']\<rparr>, gps_Limits := \<lparr>pl_MaxNodes = 3, pl_MaxHourlyUSD = 0\<rparr>\<rparr>\<rparr>"

definition leakEnv :: "nat env" where
  "leakEnv = idleEnv\<lparr>x_GetPool := (\<lambda>n w. (Inr leakPool, w)),
     x_RunInstances := (\<lambda>c i w. (if w = 0
        then Inr [\<lparr>ei_InstanceId = ''i-1'', ei_Placement = Some ''z''\<rparr>] else Inl (EMsg ''quota''), w + 1))\<rparr>"

lemma leakEnv_run:
  "wp (provisionPool leakEnv demoBoot ''p'' 2) (\<lambda>r s. r = Returns (Some (EMsg ''quota'')) \<and>
     (\<exists>c. created (trace s) = [EC2 c ''i-1'']) \<and> destroyed (trace s) = [] \<and> launchFailed (trace s)) (mgrState 0)"
  by (simp add: leakEnv_def leakPool_def aws_NewFactory_def tagResult_def aws_Factory_def loadAWSConfig_def
      splitCSV_def aws_Quote_def aws_Provision_def resolveAMI_def TrimSpace_def isSpace_def
      numeral_2_eq_2 launchFailed_def provision_eval bufEnv_eval)

theorem provisionPool_failure_unrecorded_witness:
  "wp (provisionPool leakEnv demoBoot ''p'' 2) (\<lambda>r s. (\<exists>c. created (trace s) = [EC2 c ''i-1'']) \<and>
     destroyed (trace s) = [] \<and> select poolUpdateEv (trace s) = []) (mgrState 0)"
  using wp_conj [OF leakEnv_run emits_wp [OF provisionPool_failure_unrecorded]]
  by (rule wp_mono) (auto simp: mgrState_def)

lemma spendAllowed_mono:
  assumes "spendAllowed pool n" and "m \<le> n"
  shows "spendAllowed pool m"
proof -
  let ?h = "if oc_ObservedHourlyUSD (pool_Observed pool) \<le> 0 then 1 else oc_ObservedHourlyUSD (pool_Observed pool)"
  have "f_mul ?h (f_of_int (poolNodeTotal pool + m)) \<le> f_mul ?h (f_of_int (poolNodeTotal pool + n))"
    by (intro f_mul_mono_right f_of_int_mono) (use assms(2) in auto)
  with assms(1) show ?thesis by (auto simp: spendAllowed_def Let_def split: if_splits)
qed

text \<open>
  C19: \<open>provisionPool\<close> never asks a provider for a node beyond the pool's spend ceiling: whenever it
  calls \<open>Provision\<close>, the pool it has read has a positive ceiling only if the observed price (1 if
  unknown) times the pool's nodes, the ones asked for included, is within it.
\<close>
theorem provisionPool_within_ceiling:
  "emits (provisionPool E boot poolName cnt) (\<lambda>r es. select provisionEv es \<noteq> [] \<longrightarrow>
     (\<exists>pool. Kube (GetPool poolName (Inr pool)) \<in> set es \<and>
        (0 < pl_MaxHourlyUSD (gps_Limits (pool_Spec pool)) \<longrightarrow>
         f_mul (if oc_ObservedHourlyUSD (pool_Observed pool) \<le> 0 then 1 else oc_ObservedHourlyUSD (pool_Observed pool))
               (f_of_int (poolNodeTotal pool + int (length (select provisionEv es))))
           \<le> pl_MaxHourlyUSD (gps_Limits (pool_Spec pool)))))"
  using emits_provisionPool
proof (rule emits_mono, clarify)
  fix r es
  assume "select provisionEv es = [] \<and> select releaseEv es = [] \<and> select poolUpdateEv es = [] \<or>
     (\<exists>pool. Kube (GetPool poolName (Inr pool)) \<in> set es \<and> spendAllowed pool cnt \<and>
        provisionTrace pool poolName cnt r es)" and ne: "select provisionEv es \<noteq> []"
  then obtain pool where pool: "Kube (GetPool poolName (Inr pool)) \<in> set es" "spendAllowed pool cnt"
    and le: "length (select provisionEv es) \<le> nat cnt" by (auto simp: provisionTrace_def)
  from le ne have "int (length (select provisionEv es)) \<le> cnt" by (cases "select provisionEv es") auto
  from spendAllowed_mono [OF pool(2) this] pool(1)
  show "\<exists>pool. Kube (GetPool poolName (Inr pool)) \<in> set es \<and>
        (0 < pl_MaxHourlyUSD (gps_Limits (pool_Spec pool)) \<longrightarrow>
         f_mul (if oc_ObservedHourlyUSD (pool_Observed pool) \<le> 0 then 1 else oc_ObservedHourlyUSD (pool_Observed pool))
               (f_of_int (poolNodeTotal pool + int (length (select provisionEv es))))
           \<le> pl_MaxHourlyUSD (gps_Limits (pool_Spec pool)))"
    by (auto simp: spendAllowed_def Let_def split: if_splits)
qed

theorem provisionPool_within_ceiling_witness:
  "wp (provisionPool bufEnv demoBoot ''p'' 1) (\<lambda>r s. select provisionEv (trace s) \<noteq> [] \<and>
     f_mul 1 (f_of_int (poolNodeTotal bufPool + int (length (select provisionEv (trace s))))) \<le> 2) (mgrState ())"
proof -
  have [simp]: "pl_MaxHourlyUSD (gps_Limits (pool_Spec bufPool)) = 2" "oc_ObservedHourlyUSD (pool_Observed bufPool) = 0"
    by (simp_all add: bufPool_def zeroPool_def)
  show ?thesis
    using wp_conj [OF bufEnv_provisions emits_wp [OF provisionPool_within_ceiling]]
    by (rule wp_mono) (auto simp: mgrState_def)
qed

section \<open>The number of launches and releases\<close>

lemma emits_provisionPool_count:
  "emits (provisionPool E boot poolName cnt) (\<lambda>r es.
     length (select provisionEv es) \<le> nat cnt \<and> select releaseEv es = [])"
  using emits_provisionPool by (rule emits_mono) (auto simp: provisionTrace_def)

lemma emits_provisionEntries:
  "emits (provisionEntries E boot entries) (\<lambda>r es.
     length (select provisionEv es) \<le> (\<Sum>e\<leftarrow>entries. nat (pe_NodeCount e)) \<and> select releaseEv es = [])"
proof (induction entries)
  case (Cons e entries)
  show ?case
    unfolding provisionEntries.simps
    by (rule emits_bind [OF emits_provisionPool_count]) (auto intro!: emits emits_mono [OF Cons.IH])
qed (auto intro!: emits)

fun warmEv :: "event \<Rightarrow> int option" where
  "warmEv (Kube (GetPool n (Inr p))) = Some (pc_Buffered (pool_Nodes p) + pc_Provisioning (pool_Nodes p))"
| "warmEv e = None"

definition warmCount :: "event list \<Rightarrow> int" where
  "warmCount es = sum_list (select warmEv es)"

text \<open>Reading pools and the clock, without provider calls.\<close>

fun readPoolEvent :: "event \<Rightarrow> bool" where
  "readPoolEvent (Kube (GetPool n r)) = True"
| "readPoolEvent (Clock t) = True"
| "readPoolEvent e = False"

lemma readPool_select:
  assumes "list_all readPoolEvent es"
  shows "select provisionEv es = []" "select releaseEv es = []"
proof -
  have "provisionEv e = None \<and> releaseEv e = None" if "readPoolEvent e" for e
    using that by (cases e rule: readPoolEvent.cases) auto
  with assms show "select provisionEv es = []" "select releaseEv es = []"
    by (auto intro!: select_none simp: list_all_iff)
qed

lemma emits_countPools:
  "emits (countPools E refs tot) (\<lambda>n es.
     n = tot + warmCount es \<and> length es = length refs \<and> list_all readPoolEvent es)"
proof (induction refs arbitrary: tot)
  case (Cons ref refs)
  show ?case
    by (auto intro!: emits emits_mono [OF Cons.IH] simp: warmCount_def)
qed (auto intro!: emits simp: warmCount_def)

lemma emits_countWarmGPUs:
  "emits (countWarmGPUs E policy) (\<lambda>n es. n = warmCount es \<and>
     length es = length (bps_Pools (policy_Spec policy)) \<and> list_all readPoolEvent es)"
  unfolding countWarmGPUs_def using emits_countPools by (rule emits_mono) auto

lemma emits_buildPoolViews: "emits_all (buildPoolViews E policy) readPoolEvent"
proof -
  have "emits_all (viewPools E refs views) readPoolEvent" for refs views
    by (induction refs arbitrary: views) (auto intro!: emits)
  then show ?thesis by (simp add: buildPoolViews_def)
qed

subsection \<open>Releases\<close>

text \<open>Every release follows the successful cordon of the node it is for.\<close>

definition drained :: "event list \<Rightarrow> bool" where
  "drained es \<longleftrightarrow> (\<forall>pre ref h err post. es = pre @ Provider (Release ref h err) # post \<longrightarrow>
     (\<exists>node node'. Kube (GetNode (nh_NodeName h) (Inr node)) \<in> set pre \<and>
        Kube (UpdateNode (node\<lparr>node_Unschedulable := True\<rparr>) (Inr node')) \<in> set pre))"

lemma drained_append: "drained xs \<Longrightarrow> drained ys \<Longrightarrow> drained (xs @ ys)"
proof (unfold drained_def, intro allI impI)
  fix pre ref h err post
  assume xs: "\<forall>pre ref h err post. xs = pre @ Provider (Release ref h err) # post \<longrightarrow>
     (\<exists>node node'. Kube (GetNode (nh_NodeName h) (Inr node)) \<in> set pre \<and>
        Kube (UpdateNode (node\<lparr>node_Unschedulable := True\<rparr>) (Inr node')) \<in> set pre)"
    and ys: "\<forall>pre ref h err post. ys = pre @ Provider (Release ref h err) # post \<longrightarrow>
     (\<exists>node node'. Kube (GetNode (nh_NodeName h) (Inr node)) \<in> set pre \<and>
        Kube (UpdateNode (node\<lparr>node_Unschedulable := True\<rparr>) (Inr node')) \<in> set pre)"
    and "xs @ ys = pre @ Provider (Release ref h err) # post"
  then consider (left) us where "xs = pre @ Provider (Release ref h err) # us"
    | (right) us where "pre = xs @ us" "ys = us @ Provider (Release ref h err) # post"
    by (auto simp: append_eq_append_conv2 Cons_eq_append_conv append_eq_Cons_conv)
  then show "\<exists>node node'. Kube (GetNode (nh_NodeName h) (Inr node)) \<in> set pre \<and>
        Kube (UpdateNode (node\<lparr>node_Unschedulable := True\<rparr>) (Inr node')) \<in> set pre"
  proof cases
    case left
    then show ?thesis using xs by blast
  next
    case right
    then show ?thesis using ys [rule_format, OF right(2)] by auto
  qed
qed

lemma drained_none: "select releaseEv es = [] \<Longrightarrow> drained es"
  by (auto simp: drained_def)

lemma drained_Cons: "releaseEv e = None \<Longrightarrow> drained es \<Longrightarrow> drained (e # es)"
  using drained_append [of "[e]" es] by (simp add: drained_none)

lemma emits_evictPods:
  "emits (evictPods E nodeName pods) (\<lambda>_ es. select releaseEv es = [] \<and> select provisionEv es = [])"
  by (induction pods) (auto intro!: emits)

definition recordHandle :: "NodeRecord \<Rightarrow> NodeHandle" where
  "recordHandle rec = \<lparr>nh_ProviderID = nr_ProviderID rec, nh_NodeName = nr_NodeName rec,
     nh_Labels = Map.empty, nh_LaunchedAt = zeroTime\<rparr>"

lemma emits_evictNode:
  "emits (evictNode E nodeName) (\<lambda>_ es. select releaseEv es = [] \<and> select provisionEv es = [])"
  unfolding evictNode_def by (auto intro!: emits emits_mono [OF emits_evictPods])

lemma drained_release:
  assumes "select releaseEv mid = []"
  shows "drained (Kube (GetNode (nh_NodeName h) (Inr node)) #
      Kube (UpdateNode (node\<lparr>node_Unschedulable := True\<rparr>) (Inr node')) # mid @ [Provider (Release ref h e)])"
  unfolding drained_def
proof (intro allI impI)
  fix pre ref' h' e' post
  assume eq: "Kube (GetNode (nh_NodeName h) (Inr node)) #
      Kube (UpdateNode (node\<lparr>node_Unschedulable := True\<rparr>) (Inr node')) # mid @ [Provider (Release ref h e)] =
      pre @ Provider (Release ref' h' e') # post"
  then obtain pre' where pre: "pre = Kube (GetNode (nh_NodeName h) (Inr node)) #
      Kube (UpdateNode (node\<lparr>node_Unschedulable := True\<rparr>) (Inr node')) # pre'"
    by (auto simp: Cons_eq_append_conv)
  with eq have "Provider (Release ref' h' e') \<in> set (mid @ [Provider (Release ref h e)])" by simp
  moreover have "Provider (Release ref' h' e') \<notin> set mid"
    using assms set_select [of releaseEv mid] by force
  ultimately have "h' = h" by simp
  with pre show "\<exists>node node'. Kube (GetNode (nh_NodeName h') (Inr node)) \<in> set pre \<and>
        Kube (UpdateNode (node\<lparr>node_Unschedulable := True\<rparr>) (Inr node')) \<in> set pre" by auto
qed

lemma drained_releaseRecord:
  assumes "select releaseEv evs = []" and "list_all backgroundEvent bs" and "list_all backgroundEvent cs"
  shows "drained (Kube (GetNode (nr_NodeName rec) (Inr node)) #
      Kube (UpdateNode (node\<lparr>node_Unschedulable := True\<rparr>) (Inr node')) #
      evs @ Sleep d # bs @ cs @ [Provider (Release ref (recordHandle rec) e)])"
  using drained_release [of "evs @ Sleep d # bs @ cs" "recordHandle rec"] assms
  by (simp add: background_select recordHandle_def)

lemma emits_drainAndRelease:
  "emits (drainAndRelease E boot pool i drainTimeout) (\<lambda>(err, pool') es.
     select provisionEv es = [] \<and> drained es \<and> (pool' = pool \<or> pool' = releasedPool i pool) \<and>
     (select releaseEv es = [] \<or>
      (\<exists>e. select releaseEv es = [(pool_Name pool, recordHandle (pool_Records pool ! i), e)])))"
  unfolding drainAndRelease_def Let_def
  by (intro emits emits_bind [OF emits_evictNode] emits_bind [OF emits_ForPool] emits_bind [OF emits_Release_via])
    (auto simp: background_select drained_none drained_releaseRecord recordHandle_def [symmetric])

text \<open>The releases of a run over the records \<open>recs\<close> of a pool.\<close>

definition releasesFrom :: "duration \<Rightarrow> gotime \<Rightarrow> string \<Rightarrow> NodeRecord list \<Rightarrow> event list \<Rightarrow> bool" where
  "releasesFrom stab now poolName recs es \<longleftrightarrow>
     (\<forall>(ref, h, e) \<in> set (select releaseEv es).
        ref = poolName \<and> (\<exists>rec \<in> set recs. releasable stab now rec \<and> h = recordHandle rec))"

lemma releasesFrom_append [simp]:
  "releasesFrom stab now n recs (xs @ ys) \<longleftrightarrow> releasesFrom stab now n recs xs \<and> releasesFrom stab now n recs ys"
  by (simp add: releasesFrom_def ball_Un)

lemma releasedPool_simps [simp]:
  "j \<noteq> i \<Longrightarrow> pool_Records (releasedPool i pool) ! j = pool_Records pool ! j"
  "pool_Name (releasedPool i pool) = pool_Name pool"
  by (simp_all add: releasedPool_def)

lemma emits_releaseRecords:
  assumes "distinct is" and "pool_Name pool = poolName"
    and "\<And>i. i \<in> set is \<Longrightarrow> i < length recs \<and> pool_Records pool ! i = recs ! i"
  shows "emits (releaseRecords E boot stab drainTimeout now is pool excess) (\<lambda>(err, pool', excess') es.
     select provisionEv es = [] \<and> drained es \<and> releasesFrom stab now poolName recs es \<and>
     int (length (select releaseEv es)) + (if err = None then max 0 excess' else 0) \<le> max 0 excess)"
  (is "emits (?R is pool excess) (?Q excess)")
  using assms
proof (induction "is" arbitrary: pool excess)
  case Nil
  show ?case by (auto intro!: emits simp: drained_none releasesFrom_def)
next
  case (Cons i "is")
  have rec: "pool_Records pool ! i \<in> set recs" using Cons.prems(3) [of i] by simp
  have skip_ok: "emits (?R is pool excess) (?Q excess)"
    by (rule Cons.IH) (use Cons.prems in auto)
  have next_ok: "emits (?R is pool' (excess - 1)) (?Q (excess - 1))"
    if "pool' = pool \<or> pool' = releasedPool i pool" for pool'
  proof (rule Cons.IH)
    fix j
    assume "j \<in> set is"
    with Cons.prems(1) have "j \<noteq> i" by auto
    with that Cons.prems(3) [of j] \<open>j \<in> set is\<close>
    show "j < length recs \<and> pool_Records pool' ! j = recs ! j" by auto
  qed (use that Cons.prems in auto)
  have step: "emits (case err of Some e \<Rightarrow> ret (Some e, pool', excess) | None \<Rightarrow> ?R is pool' (excess - 1))
      (\<lambda>b es'. ?Q excess b (es @ es'))"
    if "0 < excess" "releasable stab now (pool_Records pool ! i)" "select provisionEv es = []" "drained es"
      "pool' = pool \<or> pool' = releasedPool i pool" "select releaseEv es = [] \<or>
        (\<exists>e. select releaseEv es = [(pool_Name pool, recordHandle (pool_Records pool ! i), e)])" for err pool' es
    using that rec Cons.prems(2)
    by (cases err) (auto intro!: emits emits_mono [OF next_ok] drained_append simp: drained_none releasesFrom_def)
  show ?case
    unfolding releaseRecords.simps
  proof (intro emits_if)
    show "emits (ret (None, pool, excess)) (?Q excess)" if "excess \<le> 0"
      using that by (auto intro!: emits simp: drained_none releasesFrom_def)
    show "emits (?R is pool excess) (?Q excess)" by (rule skip_ok)
  qed (rule emits_bind_prod_fixed [OF emits_drainAndRelease], rule step, auto)
qed

text \<open>Every release is of a record, of a pool that was read, that could be released.\<close>

definition releasesJustified :: "duration \<Rightarrow> gotime \<Rightarrow> event list \<Rightarrow> bool" where
  "releasesJustified stab now es \<longleftrightarrow>
     (\<forall>(ref, h, e) \<in> set (select releaseEv es). \<exists>n pool rec. Kube (GetPool n (Inr pool)) \<in> set es \<and>
        ref = pool_Name pool \<and> rec \<in> set (pool_Records pool) \<and> releasable stab now rec \<and> h = recordHandle rec)"

lemma releasesJustified_append:
  "releasesJustified stab now xs \<Longrightarrow> releasesJustified stab now ys \<Longrightarrow> releasesJustified stab now (xs @ ys)"
  unfolding releasesJustified_def by (simp add: ball_Un) blast

lemma releasesJustified_none: "select releaseEv es = [] \<Longrightarrow> releasesJustified stab now es"
  by (simp add: releasesJustified_def)

lemma releasesJustified_pool:
  "releasesFrom stab now (pool_Name pool) (pool_Records pool) es \<Longrightarrow>
   releasesJustified stab now (Kube (GetPool n (Inr pool)) # es)"
  by (fastforce simp: releasesFrom_def releasesJustified_def)

text \<open>What a scale-down by at most \<open>excess\<close> nodes leaves in the trace.\<close>

definition scaleDownTrace :: "duration \<Rightarrow> gotime \<Rightarrow> int \<Rightarrow> event list \<Rightarrow> bool" where
  "scaleDownTrace stab now excess es \<longleftrightarrow> select provisionEv es = [] \<and> drained es \<and>
     releasesJustified stab now es \<and> int (length (select releaseEv es)) \<le> max 0 excess"

lemma emits_releaseAll:
  "emits (releaseRecords E boot stab drainTimeout now [0..<length (pool_Records pool)] pool excess)
     (\<lambda>(err, pool', excess') es. \<forall>n. scaleDownTrace stab now excess (Kube (GetPool n (Inr pool)) # es) \<and>
        int (length (select releaseEv es)) + (if err = None then max 0 excess' else 0) \<le> max 0 excess)"
proof -
  have "emits (releaseRecords E boot stab drainTimeout now [0..<length (pool_Records pool)] pool excess)
   (\<lambda>(err, pool', excess') es. select provisionEv es = [] \<and> drained es \<and>
     releasesFrom stab now (pool_Name pool) (pool_Records pool) es \<and>
     int (length (select releaseEv es)) + (if err = None then max 0 excess' else 0) \<le> max 0 excess)"
    by (rule emits_releaseRecords) auto
  then show ?thesis
    by (rule emits_mono)
      (auto simp: scaleDownTrace_def releasesJustified_pool intro!: drained_Cons split: if_splits)
qed

lemma scaleDownTrace_simps:
  "scaleDownTrace stab now excess [] "
  "releaseEv e = None \<Longrightarrow> provisionEv e = None \<Longrightarrow> scaleDownTrace stab now excess es \<Longrightarrow>
     scaleDownTrace stab now excess (e # es)"
  using releasesJustified_append [of stab now "[e]" es]
  by (auto simp: scaleDownTrace_def drained_none releasesJustified_none intro!: drained_Cons)

lemma scaleDownTrace_append:
  "scaleDownTrace stab now excess xs \<Longrightarrow> scaleDownTrace stab now excess' ys \<Longrightarrow>
   int (length (select releaseEv xs)) + max 0 excess' \<le> max 0 excess \<Longrightarrow> scaleDownTrace stab now excess (xs @ ys)"
  by (auto simp: scaleDownTrace_def intro!: drained_append releasesJustified_append)

lemma emits_scaleDownPools:
  "emits (scaleDownPools E boot stab drainTimeout now refs excess) (\<lambda>r. scaleDownTrace stab now excess)"
proof (induction refs arbitrary: excess)
  case (Cons ref refs)
  show ?case
    unfolding scaleDownPools.simps
  proof (intro emits_ext_bind emits_case_sum, goal_cases)
    case (1 r err)
    show ?case by (auto intro!: emits_mono [OF Cons.IH] scaleDownTrace_simps)
  next
    case (2 r pool)
    show ?case
    proof (rule emits_bind_triple_fixed [OF emits_releaseAll], goal_cases)
      case (1 err pool' excess' es)
      let ?xs = "Kube (GetPool (ref_Name ref) (Inr pool)) # es"
      from 1 have xs: "scaleDownTrace stab now excess ?xs" by blast
      show ?case
      proof (cases err)
        case None
        have more: "scaleDownTrace stab now excess (?xs @ Kube (StatusUpdatePool pool' u) # ys)"
          if "scaleDownTrace stab now excess' ys" for u ys
          using xs scaleDownTrace_simps(2) [OF _ _ that]
          by (rule scaleDownTrace_append) (use 1 None in auto)
        show ?thesis
          using None 2 more scaleDownTrace_simps(1) by (auto intro!: emits emits_mono [OF Cons.IH])
      qed (use xs 2 in \<open>auto intro!: emits\<close>)
    qed
  qed
qed (auto intro!: emits scaleDownTrace_simps)

text \<open>The stabilization window of a policy, ten minutes if it is missing or malformed.\<close>

definition stabilization :: "BufferPolicy \<Rightarrow> duration" where
  "stabilization policy =
     bufferParseDuration (sd_StabilizationWindow (bps_ScaleDown (policy_Spec policy))) (10 * minute)"

text \<open>
  C5: A scale-down by \<open>excess\<close> nodes releases at most that many and provisions none.  Each release
  is of a record, of a pool it has read, that is \<open>buffered\<close> and was launched at least a
  stabilization window before the time the scale-down began; and it comes after the node of that
  record was read and cordoned.
\<close>
theorem scaleDown_safe:
  "emits (scaleDown E boot policy excess) (\<lambda>r es. \<exists>now rest. es = Clock now # rest \<and>
     select provisionEv es = [] \<and> int (length (select releaseEv es)) \<le> max 0 excess \<and> drained es \<and>
     (\<forall>(ref, h, e) \<in> set (select releaseEv es). \<exists>n pool rec. Kube (GetPool n (Inr pool)) \<in> set es \<and>
        ref = pool_Name pool \<and> rec \<in> set (pool_Records pool) \<and>
        nr_State rec = ''buffered'' \<and> nr_LaunchedAt rec + stabilization policy \<le> now \<and>
        nh_ProviderID h = nr_ProviderID rec \<and> nh_NodeName h = nr_NodeName rec))"
proof -
  have *: "emits (scaleDownPools E boot stab drainTimeout now refs excess)
      (\<lambda>r es. scaleDownTrace stab now excess (Clock now # es))" for stab drainTimeout now refs
    using emits_scaleDownPools by (rule emits_mono) (simp add: scaleDownTrace_simps)
  show ?thesis
    unfolding scaleDown_def Let_def
    by (rule emits_ext_bind, rule emits_mono [OF *])
      (fastforce simp: scaleDownTrace_def releasesJustified_def releasable_def stabilization_def recordHandle_def)
qed

text \<open>A pool with one old buffered record, whose node exists.\<close>

definition oldPool :: GPUPool where
  "oldPool = bufPool\<lparr>pool_Status := (pool_Status bufPool)\<lparr>
     gpt_NodeRecords := [\<lparr>nr_ProviderID = ''static://p/n'', nr_NodeName = ''n'', nr_State = ''buffered'',
        nr_LaunchedAt = 0, nr_PoolName = ''p''\<rparr>],
     gpt_Nodes := \<lparr>pc_Active = 0, pc_Buffered = 1, pc_Provisioning = 0\<rparr>\<rparr>\<rparr>"

definition oldEnv :: "unit env" where
  "oldEnv = idleEnv\<lparr>x_GetPool := (\<lambda>n w. (Inr oldPool, w)), x_GetNode := (\<lambda>n w. (Inr zeroNode, w)),
     x_Now := (\<lambda>w. (hour, w))\<rparr>"

definition onePolicy :: BufferPolicy where
  "onePolicy = zeroPolicy\<lparr>policy_Spec := (policy_Spec zeroPolicy)\<lparr>bps_Pools := [\<lparr>ref_Name = ''p''\<rparr>]\<rparr>\<rparr>"

lemma oldEnv_releases:
  "wp (scaleDown oldEnv demoBoot onePolicy 1) (\<lambda>r s. length (select releaseEv (trace s)) = 1) (mgrState ())"
  by (simp add: scaleDown_def drainAndRelease_def releasable_def evictNode_def Release_via_def
      provider_Release_def static_Release_def oldPool_def oldEnv_def onePolicy_def zeroPolicy_def zeroNode_def
      bufferParseDuration_def minute_def hour_def second_def nanosecond_def provision_eval bufEnv_eval)

theorem scaleDown_safe_witness:
  "wp (scaleDown oldEnv demoBoot onePolicy 1) (\<lambda>r s. \<exists>ref h e now pool rec.
     select releaseEv (trace s) = [(ref, h, e)] \<and> Clock now \<in> set (trace s) \<and> drained (trace s) \<and>
     ref = pool_Name pool \<and> rec \<in> set (pool_Records pool) \<and> nr_State rec = ''buffered'' \<and>
     nr_LaunchedAt rec + stabilization onePolicy \<le> now \<and> nh_NodeName h = nr_NodeName rec) (mgrState ())"
  using wp_conj [OF oldEnv_releases emits_wp [OF scaleDown_safe]]
  by (rule wp_mono) (fastforce simp: mgrState_def length_Suc_conv)

lemma emits_scaleDown_count:
  "emits (scaleDown E boot policy excess) (\<lambda>r es.
     select provisionEv es = [] \<and> int (length (select releaseEv es)) \<le> max 0 excess)"
  unfolding scaleDown_def Let_def
  by (rule emits_ext_bind, rule emits_mono [OF emits_scaleDownPools]) (auto simp: scaleDownTrace_def)

section \<open>One reconciliation\<close>

lemma emits_recount:
  "emits (do { n \<leftarrow> countWarmGPUs E policy; u \<leftarrow> kStatusUpdatePolicy E (g n); ret (h u) })
     (\<lambda>r es. select provisionEv es = [] \<and> select releaseEv es = [])"
  by (rule emits_bind [OF emits_countWarmGPUs]) (auto intro!: emits simp: readPool_select)

context scheduler
begin

lemma plan_count:
  assumes "fill need pools = Inr plan"
  shows "int (\<Sum>e\<leftarrow>plan_Entries plan. nat (pe_NodeCount e)) \<le> max 0 need"
proof -
  have "int (\<Sum>e\<leftarrow>es. nat (pe_NodeCount e)) = (\<Sum>e\<leftarrow>es. pe_NodeCount e)"
    if "\<And>e. e \<in> set es \<Longrightarrow> 0 < pe_NodeCount e" for es
    using that by (induction es) force+
  from this [OF fill_pos [OF assms]] fill_total [OF assms] show ?thesis by (simp add: planTotal_def)
qed

lemma bufferAct_count:
  "emits (bufferAct fill E boot policy desired current) (\<lambda>r es.
     int (length (select provisionEv es)) \<le> max 0 (desired - current) \<and>
     int (length (select releaseEv es)) \<le> max 0 (current - desired))"
proof -
  have provision: "emits (provisionEntries E boot (plan_Entries plan) \<bind>
         (\<lambda>r. ret (case r of Panics m \<Rightarrow> Panics m | Returns _ \<Rightarrow> Returns None)))
       (\<lambda>r es'. \<forall>es. list_all readPoolEvent es \<longrightarrow>
          int (length (select provisionEv (es @ es'))) \<le> max 0 (desired - current) \<and>
          int (length (select releaseEv (es @ es'))) \<le> max 0 (current - desired))"
    if "fill (desired - current) views = Inr plan" for views plan
    by (rule emits_bind [OF emits_provisionEntries])
      (use plan_count [OF that] in \<open>auto intro!: emits simp: readPool_select\<close>)
  show ?thesis
    unfolding bufferAct_def
    by (intro emits_if emits_bind [OF emits_buildPoolViews] emits_case_sum provision
        emits_bind [OF emits_scaleDown_count] emits_return) (auto simp: readPool_select)
qed

lemma reconcile_count:
  "emits (buffer_Reconcile fill E boot name) (\<lambda>r es. \<exists>answer rest. es = Kube (GetPolicy name answer) # rest \<and>
     (case answer of
        Inl err \<Rightarrow> rest = []
      | Inr policy \<Rightarrow>
          (let current = warmCount (take (length (bps_Pools (policy_Spec policy))) rest);
               desired = desiredWarmGPUs policy
           in int (length (select provisionEv es)) \<le> max 0 (desired - current) \<and>
              int (length (select releaseEv es)) \<le> max 0 (current - desired))))"
  (is "emits _ ?P")
  unfolding buffer_Reconcile_def
proof (intro emits_ext_bind emits_case_sum, goal_cases)
  case (1 a err)
  then show ?case by (auto intro!: emits)
next
  case (2 a policy)
  show ?case
  proof (rule emits_bind_fixed [OF emits_countWarmGPUs], goal_cases)
    case (1 current es)
    show ?case
      by (rule emits_bind_fixed [OF bufferAct_count])
        (use 1 2 in \<open>auto intro!: emits emits_mono [OF emits_recount] simp: readPool_select Let_def\<close>)
  qed
qed

end

text \<open>
  C1: One reconciliation moves the buffer towards its target and never past it: with the warm
  count the reconciler read (from the answers to its first reads of the policy's pools) it makes at
  most \<open>desired - current\<close> \<open>Provision\<close> calls and at most \<open>current - desired\<close> \<open>Release\<close> calls, so it
  never does both; and it makes none when the policy cannot be read.
\<close>
theorem buffer_reconcile_bounded:
  "emits (buffer_Reconcile (Fill insertionSort) E boot name) (\<lambda>r es.
     \<exists>answer rest. es = Kube (GetPolicy name answer) # rest \<and>
     (case answer of
        Inl err \<Rightarrow> rest = []
      | Inr policy \<Rightarrow>
          (let current = warmCount (take (length (bps_Pools (policy_Spec policy))) rest);
               desired = desiredWarmGPUs policy
           in int (length (select provisionEv es)) \<le> max 0 (desired - current) \<and>
              int (length (select releaseEv es)) \<le> max 0 (current - desired))))"
  by (rule greedy.reconcile_count)

text \<open>The target at another demand, and the number the code computes from it before it applies the bounds.\<close>

definition withDemand :: "BufferPolicy \<Rightarrow> float64 \<Rightarrow> BufferPolicy" where
  "withDemand policy d = policy\<lparr>policy_Status := (policy_Status policy)\<lparr>bpt_DemandEWMA := d\<rparr>\<rparr>"

definition wanted :: "BufferTarget \<Rightarrow> DynamicTarget \<Rightarrow> float64 \<Rightarrow> int" where
  "wanted t dyn d = (if 0 < d \<and> 0 < dt_K dyn then bt_MinWarmGPUs t + f_trunc (f_mul (dt_K dyn) d) else bt_MinWarmGPUs t)"

lemma desired_dynamic:
  assumes "bps_Target (policy_Spec policy) = t" and "bt_Mode t = ''dynamic''" and "bt_Dynamic t = Some dyn"
    and "0 \<le> bt_MinWarmGPUs t"
  shows "wanted t dyn d < 2 ^ 63 \<Longrightarrow>
      desiredWarmGPUs (withDemand policy d) = min (bt_MaxWarmGPUs t) (wanted t dyn d)"
    "0 < d \<Longrightarrow> 0 < dt_K dyn \<Longrightarrow> 2 ^ 63 \<le> f_mul (dt_K dyn) d \<Longrightarrow>
      bt_MinWarmGPUs t < 2 ^ 63 \<Longrightarrow> bt_MinWarmGPUs t \<le> bt_MaxWarmGPUs t \<Longrightarrow>
      desiredWarmGPUs (withDemand policy d) = bt_MinWarmGPUs t"
proof -
  let ?x = "f_mul (dt_K dyn) d"
  have x: "0 \<le> ?x" "0 \<le> f_trunc ?x" if "0 < d" "0 < dt_K dyn"
    using that f_mul_nonneg [of "dt_K dyn" d] f_trunc_nonneg by auto
  show "desiredWarmGPUs (withDemand policy d) = min (bt_MaxWarmGPUs t) (wanted t dyn d)"
    if "wanted t dyn d < 2 ^ 63"
    using assms that x by (auto simp: desiredWarmGPUs_def withDemand_def wanted_def Let_def f_to_int_cases wrap64_id)
  show "desiredWarmGPUs (withDemand policy d) = bt_MinWarmGPUs t"
    if "0 < d" "0 < dt_K dyn" "2 ^ 63 \<le> ?x" "bt_MinWarmGPUs t < 2 ^ 63"
      "bt_MinWarmGPUs t \<le> bt_MaxWarmGPUs t"
    using assms that by (auto simp: desiredWarmGPUs_def withDemand_def Let_def f_to_int_cases wrap64_id)
qed

text \<open>
  C31: In dynamic mode the target stays within its configured bounds, whatever the demand.  As long as
  the minimum plus the scaled demand is a 64-bit integer, it is that sum, cut at the maximum, and it
  never falls when the demand rises.  But when the scaled demand reaches \<open>2 ^ 63\<close>, the conversion and the
  addition overflow and the target falls back to the minimum.
\<close>
theorem desiredWarmGPUs_dynamic:
  assumes "bps_Target (policy_Spec policy) = t" and "bt_Mode t = ''dynamic''" and "bt_Dynamic t = Some dyn"
    and "0 \<le> bt_MinWarmGPUs t" and "bt_MinWarmGPUs t \<le> bt_MaxWarmGPUs t" and "bt_MaxWarmGPUs t < 2 ^ 63"
  shows "bt_MinWarmGPUs t \<le> desiredWarmGPUs policy \<and> desiredWarmGPUs policy \<le> bt_MaxWarmGPUs t \<and>
    (wanted t dyn d < 2 ^ 63 \<longrightarrow> desiredWarmGPUs (withDemand policy d) = min (bt_MaxWarmGPUs t) (wanted t dyn d) \<and>
       (\<forall>c \<le> d. desiredWarmGPUs (withDemand policy c) \<le> desiredWarmGPUs (withDemand policy d))) \<and>
    (0 < d \<and> 0 < dt_K dyn \<and> 2 ^ 63 \<le> f_mul (dt_K dyn) d \<longrightarrow>
       desiredWarmGPUs (withDemand policy d) = bt_MinWarmGPUs t)"
proof (intro conjI impI allI)
  show "bt_MinWarmGPUs t \<le> desiredWarmGPUs policy" "desiredWarmGPUs policy \<le> bt_MaxWarmGPUs t"
    using assms by (auto simp: desiredWarmGPUs_def Let_def)
next
  assume small: "wanted t dyn d < 2 ^ 63"
  note exact = desired_dynamic(1) [OF assms(1-4)]
  show "desiredWarmGPUs (withDemand policy d) = min (bt_MaxWarmGPUs t) (wanted t dyn d)"
    using exact small by simp
  fix c assume "c \<le> d"
  then have "wanted t dyn c \<le> wanted t dyn d"
    using f_trunc_mono [OF f_mul_mono_right [of "dt_K dyn" c d]] f_trunc_nonneg [OF f_mul_nonneg [of "dt_K dyn" d]]
    by (auto simp: wanted_def)
  then show "desiredWarmGPUs (withDemand policy c) \<le> desiredWarmGPUs (withDemand policy d)"
    using exact small by simp
next
  assume "0 < d \<and> 0 < dt_K dyn \<and> 2 ^ 63 \<le> f_mul (dt_K dyn) d"
  then show "desiredWarmGPUs (withDemand policy d) = bt_MinWarmGPUs t"
    using assms by (intro desired_dynamic(2) [OF assms(1-4)]) auto
qed

text \<open>A policy of dynamic mode.\<close>

definition dynPolicy :: BufferPolicy where
  "dynPolicy = zeroPolicy\<lparr>policy_Spec := (policy_Spec zeroPolicy)\<lparr>bps_Target :=
     \<lparr>bt_Mode = ''dynamic'', bt_MinWarmGPUs = 1, bt_MaxWarmGPUs = 4,
      bt_Dynamic = Some \<lparr>dt_Window = [], dt_Formula = [], dt_K = 1\<rparr>\<rparr>\<rparr>\<rparr>"

lemma fl_overflow: "fl (2 ^ 63) = 2 ^ 63"
  by code_simp

theorem desiredWarmGPUs_dynamic_witness:
  "1 \<le> desiredWarmGPUs dynPolicy \<and> desiredWarmGPUs dynPolicy \<le> 4 \<and> desiredWarmGPUs (withDemand dynPolicy 2) = 3 \<and>
   desiredWarmGPUs (withDemand dynPolicy 1) \<le> desiredWarmGPUs (withDemand dynPolicy 2) \<and>
   desiredWarmGPUs (withDemand dynPolicy (2 ^ 63)) = 1"
proof -
  let ?dyn = "\<lparr>dt_Window = [], dt_Formula = [], dt_K = 1\<rparr> :: DynamicTarget"
  let ?t = "bps_Target (policy_Spec dynPolicy)"
  have t: "bt_Mode ?t = ''dynamic''" "bt_Dynamic ?t = Some ?dyn" "bt_MinWarmGPUs ?t = 1" "bt_MaxWarmGPUs ?t = 4"
    by (simp_all add: dynPolicy_def)
  have two: "f_mul 1 2 = 2" using fl_of_int [of 2] by (simp add: f_mul_def)
  have three: "wanted ?t ?dyn 2 = 3" using t by (simp add: wanted_def two f_trunc_def)
  have over: "f_mul 1 (2 ^ 63) = 2 ^ 63" using fl_overflow by (simp add: f_mul_def)
  note low = desiredWarmGPUs_dynamic [of dynPolicy ?t ?dyn 2] and high = desiredWarmGPUs_dynamic [of dynPolicy ?t ?dyn "2 ^ 63"]
  have all: "bt_MinWarmGPUs ?t \<le> desiredWarmGPUs dynPolicy \<and> desiredWarmGPUs dynPolicy \<le> bt_MaxWarmGPUs ?t \<and>
    desiredWarmGPUs (withDemand dynPolicy 2) = min (bt_MaxWarmGPUs ?t) (wanted ?t ?dyn 2) \<and>
    (\<forall>c \<le> 2. desiredWarmGPUs (withDemand dynPolicy c) \<le> desiredWarmGPUs (withDemand dynPolicy 2))"
    using low t three by auto
  then have "desiredWarmGPUs (withDemand dynPolicy 2) = 3" "1 \<le> desiredWarmGPUs dynPolicy" "desiredWarmGPUs dynPolicy \<le> 4"
    by (simp_all add: t three)
  moreover have "desiredWarmGPUs (withDemand dynPolicy 1) \<le> desiredWarmGPUs (withDemand dynPolicy 2)"
    by (rule mp [OF spec [OF conjunct2 [OF conjunct2 [OF conjunct2 [OF all]]]]]) simp
  moreover have "desiredWarmGPUs (withDemand dynPolicy (2 ^ 63)) = 1" using high t over by simp
  ultimately show ?thesis by (intro conjI)
qed

end
