(* ===== verification/Pool_Controller.thy ===== *)
theory Pool_Controller
  imports Buffer_Controller
begin

text \<open>
  \<open>internal/controller/pool\<close>: the reconciler of a \<open>GPUPool\<close>.  It copies the provider's capacity
  report into the status, adds a record for every labelled node it does not know, and recomputes
  the state of every record and the three counts from the nodes of the cluster.

  Go's iteration over a map is in no particular order: the order is an argument, of which it is
  only known that it lists each key once (\<open>map_order\<close> of \<open>Prelude\<close>).
\<close>

definition pool_RequeueInterval :: duration where
  "pool_RequeueInterval = 30 * second"

section \<open>Node records\<close>

definition nodeByName :: "Node list \<Rightarrow> string \<rightharpoonup> Node" where
  "nodeByName items = fold (\<lambda>n m. m(node_Name n \<mapsto> n)) items Map.empty"

definition knownNames :: "NodeRecord list \<Rightarrow> string set" where
  "knownNames recs = fold (\<lambda>rec ks. if nr_NodeName rec \<noteq> [] then insert (nr_NodeName rec) ks else ks) recs {}"

definition discoveredRecord :: "string \<Rightarrow> string \<Rightarrow> NodeRecord" where
  "discoveredRecord poolName name =
     \<lparr>nr_ProviderID = ''static://'' @ poolName @ ''/'' @ name, nr_NodeName = name, nr_State = ''discovered'',
      nr_LaunchedAt = zeroTime, nr_PoolName = poolName\<rparr>"

text \<open>The keys of \<open>nodeByName\<close>, in the order the runtime iterates.\<close>

fun discoverNodes :: "string \<Rightarrow> string set \<Rightarrow> string list \<Rightarrow> NodeRecord list \<Rightarrow> NodeRecord list" where
  "discoverNodes poolName known [] recs = recs"
| "discoverNodes poolName known (name # names) recs =
     (if name \<in> known then discoverNodes poolName known names recs
      else discoverNodes poolName known names (recs @ [discoveredRecord poolName name]))"

fun refreshRecords ::
  "(string \<rightharpoonup> Node) \<Rightarrow> NodeRecord list \<Rightarrow> int \<times> int \<times> int \<Rightarrow> NodeRecord list \<times> int \<times> int \<times> int" where
  "refreshRecords nodes [] (active, buffered, provisioning) = ([], active, buffered, provisioning)"
| "refreshRecords nodes (rec # recs) (active, buffered, provisioning) =
     (let (rec', counts) =
        (case (if nr_NodeName rec \<noteq> [] then nodes (nr_NodeName rec) else None) of
           Some n \<Rightarrow>
             if node_Unschedulable n then (rec\<lparr>nr_State := ''draining''\<rparr>, (active, buffered, provisioning))
             else if node_Label n LabelBufferEligible = ''true''
             then (rec\<lparr>nr_State := ''buffered''\<rparr>, (active, buffered + 1, provisioning))
             else (rec\<lparr>nr_State := ''active''\<rparr>, (active + 1, buffered, provisioning))
         | None \<Rightarrow>
             if nr_State rec = ''provisioning'' then (rec, (active, buffered, provisioning + 1))
             else (rec, (active, buffered, provisioning)));
          (recs', counts') = refreshRecords nodes recs counts
      in (rec' # recs', counts'))"

definition applyNodes :: "(string list \<Rightarrow> string list) \<Rightarrow> Node list \<Rightarrow> GPUPool \<Rightarrow> GPUPool" where
  "applyNodes ord items pool =
     (let nodes = nodeByName items;
          known = knownNames (pool_Records pool);
          names = ord (remdups (map node_Name items));
          recs = discoverNodes (pool_Name pool) known names (pool_Records pool);
          (recs', active, buffered, provisioning) = refreshRecords nodes recs (0, 0, 0)
      in pool\<lparr>pool_Status := (pool_Status pool)\<lparr>gpt_NodeRecords := recs',
           gpt_Nodes := \<lparr>pc_Active = active, pc_Buffered = buffered, pc_Provisioning = provisioning\<rparr>\<rparr>\<rparr>)"

definition reconcileNodeRecords ::
  "(string list \<Rightarrow> string list) \<Rightarrow> 'w env \<Rightarrow> GPUPool \<Rightarrow> ('w, 'z, GPUPool) io" where
  "reconcileNodeRecords ord E pool = do {
     r \<leftarrow> kListNodes E LabelPool (pool_Name pool);
     ret (case r of Inl err \<Rightarrow> pool | Inr items \<Rightarrow> applyNodes ord items pool)
   }"

section \<open>Reconcile\<close>

definition applyReport :: "CapacityReport \<Rightarrow> GPUPool \<Rightarrow> GPUPool" where
  "applyReport report pool =
     pool\<lparr>pool_Status := (pool_Status pool)\<lparr>gpt_ObservedCapacity :=
        \<lparr>oc_Available = cr_Available report,
         oc_LastICE = (if cr_RecentICE report \<noteq> [] then last (cr_RecentICE report)
                       else oc_LastICE (pool_Observed pool)),
         oc_ObservedHourlyUSD = cr_ObservedHourlyUSD report\<rparr>\<rparr>\<rparr>"

definition pool_Reconcile ::
  "(string list \<Rightarrow> string list) \<Rightarrow> 'w env \<Rightarrow> BootstrapConfig \<Rightarrow> string \<Rightarrow>
     ('w, 'z, duration \<times> goerror option) mio" where
  "pool_Reconcile ord E boot name = do {
     r \<leftarrow> kGetPool E name;
     case r of
       Inl err \<Rightarrow> ret (0, IgnoreNotFound err)
     | Inr pool \<Rightarrow> do {
         p \<leftarrow> ForPool E boot pool;
         case p of
           Inl err \<Rightarrow> ret (pool_RequeueInterval, None)
         | Inr provider \<Rightarrow> do {
             c \<leftarrow> Capacity_via E provider (pool_Name pool);
             let pool = (case c of Inl err \<Rightarrow> pool | Inr report \<Rightarrow> applyReport report pool);
             pool \<leftarrow> reconcileNodeRecords ord E pool;
             u \<leftarrow> kStatusUpdatePool E pool;
             ret (case u of Inl err \<Rightarrow> (0, Some err) | Inr _ \<Rightarrow> (pool_RequeueInterval, None))
           }
       }
   }"

section \<open>What the records become\<close>

definition nodeOf :: "(string \<rightharpoonup> Node) \<Rightarrow> NodeRecord \<Rightarrow> Node option" where
  "nodeOf nodes rec = (if nr_NodeName rec \<noteq> [] then nodes (nr_NodeName rec) else None)"

definition stateOf :: "Node \<Rightarrow> string" where
  "stateOf n = (if node_Unschedulable n then ''draining''
                else if node_Label n LabelBufferEligible = ''true'' then ''buffered'' else ''active'')"

definition refreshed :: "(string \<rightharpoonup> Node) \<Rightarrow> NodeRecord \<Rightarrow> NodeRecord" where
  "refreshed nodes rec = (case nodeOf nodes rec of Some n \<Rightarrow> rec\<lparr>nr_State := stateOf n\<rparr> | None \<Rightarrow> rec)"

definition countRecs :: "(NodeRecord \<Rightarrow> bool) \<Rightarrow> NodeRecord list \<Rightarrow> int" where
  "countRecs P recs = int (length (filter P recs))"

lemma countRecs_simps [simp]:
  "countRecs P [] = 0"
  "countRecs P (r # rs) = (if P r then 1 + countRecs P rs else countRecs P rs)"
  by (simp_all add: countRecs_def)

lemma refreshed_simps [simp]:
  "nr_NodeName (refreshed nodes rec) = nr_NodeName rec"
  "nr_ProviderID (refreshed nodes rec) = nr_ProviderID rec"
  "nr_PoolName (refreshed nodes rec) = nr_PoolName rec"
  "nr_LaunchedAt (refreshed nodes rec) = nr_LaunchedAt rec"
  "nodeOf nodes (refreshed nodes rec) = nodeOf nodes rec"
  by (simp_all add: refreshed_def nodeOf_def split: option.split)

lemma refreshed_idem [simp]: "refreshed nodes (refreshed nodes rec) = refreshed nodes rec"
  by (simp add: refreshed_def nodeOf_def split: option.split)

lemma refreshRecords_eq:
  "refreshRecords nodes recs (a, b, p) =
     (let rs = map (refreshed nodes) recs in
      (rs, a + countRecs (\<lambda>r. nodeOf nodes r \<noteq> None \<and> nr_State r = ''active'') rs,
       b + countRecs (\<lambda>r. nodeOf nodes r \<noteq> None \<and> nr_State r = ''buffered'') rs,
       p + countRecs (\<lambda>r. nodeOf nodes r = None \<and> nr_State r = ''provisioning'') rs))"
proof (induction recs arbitrary: a b p)
  case (Cons rec recs)
  have state: "nr_State (refreshed nodes rec) =
      (case nodeOf nodes rec of Some n \<Rightarrow> stateOf n | None \<Rightarrow> nr_State rec)"
    by (simp add: refreshed_def split: option.split)
  show ?case
    by (simp add: Cons.IH state Let_def nodeOf_def [symmetric] split: option.split)
      (auto simp: stateOf_def refreshed_def split: option.split)
qed simp

lemma discoverNodes_eq:
  "discoverNodes poolName known names recs =
     recs @ map (discoveredRecord poolName) (filter (\<lambda>n. n \<notin> known) names)"
  by (induction names arbitrary: recs) auto

lemma knownNames_eq: "knownNames recs = nr_NodeName ` set recs - {[]}"
proof -
  have "fold (\<lambda>rec ks. if nr_NodeName rec \<noteq> [] then insert (nr_NodeName rec) ks else ks) recs ks =
      ks \<union> (nr_NodeName ` set recs - {[]})" for ks
    by (induction recs arbitrary: ks) auto
  then show ?thesis by (simp add: knownNames_def)
qed

lemma dom_nodeByName: "dom (nodeByName items) = node_Name ` set items"
proof -
  have "dom (fold (\<lambda>n m. m(node_Name n \<mapsto> n)) items m) = dom m \<union> node_Name ` set items" for m
    by (induction items arbitrary: m) auto
  then show ?thesis by (simp add: nodeByName_def)
qed

text \<open>The names the discovery adds, and the records it produces, before the states are refreshed.\<close>

definition newNames :: "(string list \<Rightarrow> string list) \<Rightarrow> Node list \<Rightarrow> GPUPool \<Rightarrow> string list" where
  "newNames ord items pool = filter (\<lambda>n. n \<notin> knownNames (pool_Records pool)) (ord (remdups (map node_Name items)))"

lemma applyNodes_eq:
  "applyNodes ord items pool =
     (let nodes = nodeByName items;
          rs = map (refreshed nodes)
            (pool_Records pool @ map (discoveredRecord (pool_Name pool)) (newNames ord items pool))
      in pool\<lparr>pool_Status := (pool_Status pool)\<lparr>gpt_NodeRecords := rs,
           gpt_Nodes := \<lparr>
             pc_Active = countRecs (\<lambda>r. nodeOf nodes r \<noteq> None \<and> nr_State r = ''active'') rs,
             pc_Buffered = countRecs (\<lambda>r. nodeOf nodes r \<noteq> None \<and> nr_State r = ''buffered'') rs,
             pc_Provisioning = countRecs (\<lambda>r. nodeOf nodes r = None \<and> nr_State r = ''provisioning'') rs\<rparr>\<rparr>\<rparr>)"
  by (simp add: applyNodes_def refreshRecords_eq discoverNodes_eq newNames_def Let_def)

lemma diff_remove: "x \<notin> A \<Longrightarrow> A - (B - {x}) = A - B"
  by blast

lemma diff_cover: "x \<notin> A \<Longrightarrow> N = A - K \<Longrightarrow> A \<subseteq> K \<union> (N - {x})"
  by blast

lemma applyNodes_names:
  "map nr_NodeName (pool_Records (applyNodes ord items pool)) =
     map nr_NodeName (pool_Records pool) @ newNames ord items pool"
  by (simp add: applyNodes_eq Let_def comp_def discoveredRecord_def)

lemma knownNames_names: "knownNames recs = set (map nr_NodeName recs) - {[]}"
  by (simp add: knownNames_eq)

lemma set_newNames:
  assumes "map_order ord"
  shows "set (newNames ord items pool) = node_Name ` set items - knownNames (pool_Records pool)"
    and "distinct (newNames ord items pool)"
proof -
  have m: "mset (ord ks) = mset ks" for ks using assms by (simp add: map_order_def)
  have "set (ord (remdups (map node_Name items))) = node_Name ` set items"
    using mset_eq_setD [OF m] by simp
  then show "set (newNames ord items pool) = node_Name ` set items - knownNames (pool_Records pool)"
    by (auto simp: newNames_def)
  have "distinct (ord (remdups (map node_Name items)))"
    using m mset_eq_imp_distinct_iff by (metis distinct_remdups)
  then show "distinct (newNames ord items pool)" by (simp add: newNames_def)
qed

text \<open>
  After a reconciliation with the listed nodes, the counts are those of the records: \<open>Active\<close>
  and \<open>Buffered\<close> count the records in that state whose node is listed, \<open>Provisioning\<close> those in that
  state whose node is not; and every record whose node is listed has the state of that node
  (\<open>draining\<close> if it is cordoned, else \<open>buffered\<close> if it is labelled eligible, else \<open>active\<close>).
\<close>
theorem pool_counts_exact:
  "let pool' = applyNodes ord items pool; nodes = nodeByName items in
     pc_Active (pool_Nodes pool') =
       countRecs (\<lambda>r. nodeOf nodes r \<noteq> None \<and> nr_State r = ''active'') (pool_Records pool') \<and>
     pc_Buffered (pool_Nodes pool') =
       countRecs (\<lambda>r. nodeOf nodes r \<noteq> None \<and> nr_State r = ''buffered'') (pool_Records pool') \<and>
     pc_Provisioning (pool_Nodes pool') =
       countRecs (\<lambda>r. nodeOf nodes r = None \<and> nr_State r = ''provisioning'') (pool_Records pool') \<and>
     list_all (\<lambda>r. case nodeOf nodes r of Some n \<Rightarrow> nr_State r = stateOf n | None \<Rightarrow> True) (pool_Records pool')"
  by (auto simp: applyNodes_eq Let_def list_all_iff refreshed_def nodeOf_def split: option.splits)

text \<open>
  C30: A reconciliation forgets no record and invents none: the old records keep their place,
  provider id, node name, launch time and pool; the new ones are one per listed node that was not
  known; so afterwards every listed node has a record, and if no two records named the same node
  before, none do after.
\<close>
theorem pool_records_complete:
  assumes "map_order ord" and "[] \<notin> node_Name ` set items"
  shows "let recs = pool_Records pool; recs' = pool_Records (applyNodes ord items pool);
             ident = (\<lambda>r. (nr_ProviderID r, nr_NodeName r, nr_LaunchedAt r, nr_PoolName r)) in
    map ident (take (length recs) recs') = map ident recs \<and>
    nr_NodeName ` set (drop (length recs) recs') = node_Name ` set items - nr_NodeName ` set recs \<and>
    node_Name ` set items \<subseteq> nr_NodeName ` set recs' \<and>
    (distinct (filter (\<lambda>n. n \<noteq> []) (map nr_NodeName recs)) \<longrightarrow>
     distinct (filter (\<lambda>n. n \<noteq> []) (map nr_NodeName recs')))"
proof -
  let ?new = "newNames ord items pool"
  have new: "set ?new = node_Name ` set items - nr_NodeName ` set (pool_Records pool)"
    by (simp only: set_newNames(1) [OF assms(1)] knownNames_eq diff_remove [OF assms(2)])
  note names = applyNodes_names [of ord items pool]
  have "distinct ?new" by (rule set_newNames(2) [OF assms(1)])
  moreover have "node_Name ` set items \<subseteq> nr_NodeName ` set (pool_Records (applyNodes ord items pool))"
    using arg_cong [OF names, of set] new by auto
  moreover have "nr_NodeName ` set (drop (length (pool_Records pool)) (pool_Records (applyNodes ord items pool))) = set ?new"
    by (simp add: applyNodes_eq Let_def image_image discoveredRecord_def)
  moreover have "map (\<lambda>r. (nr_ProviderID r, nr_NodeName r, nr_LaunchedAt r, nr_PoolName r))
      (take (length (pool_Records pool)) (pool_Records (applyNodes ord items pool))) =
      map (\<lambda>r. (nr_ProviderID r, nr_NodeName r, nr_LaunchedAt r, nr_PoolName r)) (pool_Records pool)"
    by (simp add: applyNodes_eq Let_def)
  ultimately show ?thesis using new names by (auto simp: Let_def)
qed

text \<open>Two nodes, one of them cordoned, and a pool that knows neither.\<close>

definition twoNodes :: "Node list" where
  "twoNodes = [zeroNode\<lparr>node_Meta := zeroMeta\<lparr>om_Name := ''a''\<rparr>\<rparr>,
     zeroNode\<lparr>node_Meta := zeroMeta\<lparr>om_Name := ''b''\<rparr>, node_Unschedulable := True\<rparr>]"

lemma twoNodes_named: "[] \<notin> node_Name ` set twoNodes"
  by (simp add: twoNodes_def)

theorem pool_records_complete_witness:
  "nr_NodeName ` set (pool_Records (applyNodes rev twoNodes zeroPool)) = {''a'', ''b''} \<and>
   distinct (map nr_NodeName (pool_Records (applyNodes rev twoNodes zeroPool)))"
proof -
  have "map nr_NodeName (pool_Records (applyNodes rev twoNodes zeroPool)) = [''b'', ''a'']"
    by (simp add: applyNodes_names newNames_def knownNames_eq twoNodes_def zeroPool_def)
  moreover from this have "filter (\<lambda>n. n \<noteq> []) (map nr_NodeName (pool_Records (applyNodes rev twoNodes zeroPool))) = [''b'', ''a'']"
    by simp
  ultimately show ?thesis
    using pool_records_complete [OF map_order_rev twoNodes_named, of zeroPool]
    by (auto simp: Let_def zeroPool_def twoNodes_def)
qed

text \<open>
  C29: Reconciling twice with the same nodes is reconciling once, in whatever order the two runs
  visit the nodes.
\<close>
theorem pool_reconcile_idempotent:
  assumes "map_order ord" and "map_order ord'" and "[] \<notin> node_Name ` set items"
  shows "applyNodes ord' items (applyNodes ord items pool) = applyNodes ord items pool"
proof -
  let ?pool = "applyNodes ord items pool"
  have "knownNames (pool_Records ?pool) = knownNames (pool_Records pool) \<union> (set (newNames ord items pool) - {[]})"
    unfolding knownNames_names applyNodes_names by auto
  then have "node_Name ` set items \<subseteq> knownNames (pool_Records ?pool)"
    using diff_cover [OF assms(3) set_newNames(1) [OF assms(1)]] by simp
  then have none: "newNames ord' items ?pool = []"
    using set_newNames(1) [OF assms(2), of items ?pool] by (metis Diff_eq_empty_iff set_empty)
  show ?thesis
    unfolding applyNodes_eq [of ord' items ?pool] none
    by (simp add: applyNodes_eq [of ord items pool] Let_def comp_def)
qed

theorem pool_reconcile_idempotent_witness:
  "applyNodes rev twoNodes (applyNodes rev twoNodes zeroPool) = applyNodes rev twoNodes zeroPool"
  by (rule pool_reconcile_idempotent [OF map_order_rev map_order_rev twoNodes_named])

end
