(* ===== verification/Health_Controller.thy ===== *)
theory Health_Controller
  imports Pool_Controller
begin

text \<open>
  \<open>internal/controller/health\<close>: the reconciler of GPU nodes.  It runs the boot check once and
  labels the node buffer-eligible or not, runs the deep check on eligible nodes, and takes a node
  marked with a critical Xid out of service: cordon, delete its pods, release it at the provider,
  record an ICE for the pool, clear the mark.

  The variable \<open>node\<close> holds the server's answer after each update, as in the code.  The label map of
  a GPU node holds the GPU label, so it is never the nil map.
\<close>

section \<open>Checkers\<close>

datatype Checker = ExecChecker | FakeChecker

definition dcgmi :: "'w env \<Rightarrow> string \<Rightarrow> ('w, 'z, goerror option) io" where
  "dcgmi E level = do {
     err \<leftarrow> kLookPath E ''dcgmi'';
     case err of
       Some e \<Rightarrow> ret None
     | None \<Rightarrow> kRunCommand E [''dcgmi'', ''diag'', ''-r'', level]
   }"

definition BootCheck :: "'w env \<Rightarrow> Checker \<Rightarrow> ('w, 'z, goerror option) io" where
  "BootCheck E c = (case c of ExecChecker \<Rightarrow> dcgmi E ''1'' | FakeChecker \<Rightarrow> ret None)"

definition DeepCheck :: "'w env \<Rightarrow> Checker \<Rightarrow> ('w, 'z, goerror option) io" where
  "DeepCheck E c = (case c of ExecChecker \<Rightarrow> dcgmi E ''3'' | FakeChecker \<Rightarrow> ret None)"

section \<open>Critical Xid\<close>

fun deleteNodePods :: "'w env \<Rightarrow> string \<Rightarrow> Pod list \<Rightarrow> ('w, 'z, unit) io" where
  "deleteNodePods E nodeName [] = ret ()"
| "deleteNodePods E nodeName (pod # pods) =
     (if pod_NodeName pod = nodeName \<and> pod_Namespace pod \<noteq> ''kube-system''
      then do { _ \<leftarrow> kDeletePod E pod; deleteNodePods E nodeName pods }
      else deleteNodePods E nodeName pods)"

definition deletePods :: "'w env \<Rightarrow> string \<Rightarrow> ('w, 'z, unit) io" where
  "deletePods E nodeName = do {
     pods \<leftarrow> kListPods E;
     case pods of Inr items \<Rightarrow> deleteNodePods E nodeName items | Inl err \<Rightarrow> ret ()
   }"

text \<open>The loop over the records releases those of the node and marks them, whatever \<open>Release\<close> answers.\<close>

fun releaseNodeRecords ::
  "'w env \<Rightarrow> ProviderRef \<Rightarrow> string \<Rightarrow> NodeRecord list \<Rightarrow> ('w, 'z, NodeRecord list) mio" where
  "releaseNodeRecords E provider nodeName [] = ret []"
| "releaseNodeRecords E provider nodeName (rec # recs) =
     (if nr_NodeName rec = nodeName then do {
        err \<leftarrow> Release_via E provider \<lparr>nh_ProviderID = nr_ProviderID rec, nh_NodeName = nodeName,
                 nh_Labels = Map.empty, nh_LaunchedAt = zeroTime\<rparr>;
        recs' \<leftarrow> releaseNodeRecords E provider nodeName recs;
        ret (rec\<lparr>nr_State := ''released''\<rparr> # recs')
      } else do {
        recs' \<leftarrow> releaseNodeRecords E provider nodeName recs;
        ret (rec # recs')
      })"

definition releaseFromPool :: "'w env \<Rightarrow> BootstrapConfig \<Rightarrow> string \<Rightarrow> string \<Rightarrow> ('w, 'z, unit) mio" where
  "releaseFromPool E boot poolName nodeName =
     (if poolName = [] then ret ()
      else do {
        r \<leftarrow> kGetPool E poolName;
        case r of
          Inl err \<Rightarrow> ret ()
        | Inr pool \<Rightarrow> do {
            p \<leftarrow> ForPool E boot pool;
            case p of
              Inl err \<Rightarrow> ret ()
            | Inr provider \<Rightarrow> do {
                recs \<leftarrow> releaseNodeRecords E provider nodeName (pool_Records pool);
                now \<leftarrow> kNow E;
                _ \<leftarrow> kStatusUpdatePool E (pool\<lparr>pool_Status := (pool_Status pool)\<lparr>
                       gpt_NodeRecords := recs,
                       gpt_ObservedCapacity := (pool_Observed pool)\<lparr>oc_LastICE := now\<rparr>\<rparr>\<rparr>);
                ret ()
              }
          }
      })"

definition handleXidCritical ::
  "'w env \<Rightarrow> BootstrapConfig \<Rightarrow> Node \<Rightarrow> ('w, 'z, duration \<times> goerror option) mio" where
  "handleXidCritical E boot node =
     (let poolName = node_Label node LabelPool
      in do {
        u \<leftarrow> kUpdateNode E (node\<lparr>node_Unschedulable := True\<rparr>);
        case u of
          Inl err \<Rightarrow> ret (0, Some err)
        | Inr node \<Rightarrow> do {
            deletePods E (node_Name node);
            releaseFromPool E boot poolName (node_Name node);
            u \<leftarrow> kUpdateNode E (node\<lparr>node_Meta := (node_Meta node)\<lparr>
                   om_Annotations := (om_Annotations (node_Meta node))(AnnotationXidCritical := None),
                   om_Labels := (om_Labels (node_Meta node))(LabelBufferEligible \<mapsto> ''false'')\<rparr>\<rparr>);
            ret (case u of Inl err \<Rightarrow> (0, Some err) | Inr _ \<Rightarrow> (0, None))
          }
      })"

section \<open>Reconcile\<close>

definition labelled :: "Node \<Rightarrow> string \<Rightarrow> Node" where
  "labelled node v = node\<lparr>node_Meta := (node_Meta node)\<lparr>
     om_Labels := (om_Labels (node_Meta node))(LabelBufferEligible \<mapsto> v)\<rparr>\<rparr>"

definition bootLabel :: "'w env \<Rightarrow> Checker \<Rightarrow> Node \<Rightarrow> ('w, 'z, goerror + Node) io" where
  "bootLabel E checker node =
     (if node_Label node LabelBufferEligible \<noteq> ''true'' then do {
        err \<leftarrow> BootCheck E checker;
        kUpdateNode E (labelled node (case err of Some e \<Rightarrow> ''false'' | None \<Rightarrow> ''true''))
      } else ret (Inr node))"

definition health_Reconcile ::
  "'w env \<Rightarrow> Checker \<Rightarrow> BootstrapConfig \<Rightarrow> string \<Rightarrow> ('w, 'z, duration \<times> goerror option) mio" where
  "health_Reconcile E checker boot name = do {
     r \<leftarrow> kGetNode E name;
     case r of
       Inl err \<Rightarrow> ret (0, IgnoreNotFound err)
     | Inr node \<Rightarrow>
         if om_Labels (node_Meta node) LabelGPU = None then ret (0, None)
         else if mget (om_Annotations (node_Meta node)) AnnotationXidCritical = ''true''
         then handleXidCritical E boot node
         else do {
           u \<leftarrow> bootLabel E checker node;
           case u of
             Inl err \<Rightarrow> ret (0, Some err)
           | Inr node \<Rightarrow> do {
               _ \<leftarrow> (if node_Label node LabelBufferEligible = ''true'' \<and> \<not> node_Unschedulable node
                    then DeepCheck E checker else ret None);
               ret (30 * minute, None)
             }
         }
   }"

section \<open>Properties\<close>

text \<open>The node writes, pod deletions and releases of a run.\<close>

fun nodeWriteEv :: "event \<Rightarrow> (Node \<times> (goerror + Node)) option" where
  "nodeWriteEv (Kube (UpdateNode n r)) = Some (n, r)"
| "nodeWriteEv e = None"

fun podListEv :: "event \<Rightarrow> (goerror + Pod list) option" where
  "podListEv (Kube (ListPods r)) = Some r"
| "podListEv e = None"

lemma background_node_select:
  assumes "list_all backgroundEvent es"
  shows "select nodeWriteEv es = []" "select podDeleteEv es = []" "select podListEv es = []"
proof -
  have "nodeWriteEv e = None \<and> podDeleteEv e = None \<and> podListEv e = None" if "backgroundEvent e" for e
    using that by (cases e rule: backgroundEvent.cases) auto
  with assms show "select nodeWriteEv es = []" "select podDeleteEv es = []" "select podListEv es = []"
    by (auto intro!: select_none simp: list_all_iff)
qed

definition victims :: "string \<Rightarrow> Pod list \<Rightarrow> Pod list" where
  "victims nodeName pods = filter (\<lambda>p. pod_NodeName p = nodeName \<and> pod_Namespace p \<noteq> ''kube-system'') pods"

lemma emits_deleteNodePods:
  "emits (deleteNodePods E nodeName pods) (\<lambda>_ es. map podDeleteEv es = map Some (victims nodeName pods))"
proof (induction pods)
  case (Cons pod pods)
  then show ?case by (auto intro!: emits emits_mono [OF Cons.IH] simp: victims_def)
qed (auto intro!: emits simp: victims_def)

lemma emits_deletePods:
  "emits (deletePods E nodeName) (\<lambda>_ es. \<exists>a ds. es = Kube (ListPods a) # ds \<and>
     map podDeleteEv ds = map Some (case a of Inl _ \<Rightarrow> [] | Inr items \<Rightarrow> victims nodeName items))"
  unfolding deletePods_def by (auto intro!: emits emits_mono [OF emits_deleteNodePods])

definition nodeHandle :: "string \<Rightarrow> NodeRecord \<Rightarrow> NodeHandle" where
  "nodeHandle nodeName rec = \<lparr>nh_ProviderID = nr_ProviderID rec, nh_NodeName = nodeName,
     nh_Labels = Map.empty, nh_LaunchedAt = zeroTime\<rparr>"

definition markReleased :: "string \<Rightarrow> NodeRecord \<Rightarrow> NodeRecord" where
  "markReleased nodeName rec = (if nr_NodeName rec = nodeName then rec\<lparr>nr_State := ''released''\<rparr> else rec)"

definition releasedHandles :: "event list \<Rightarrow> (string \<times> NodeHandle) list" where
  "releasedHandles es = map (\<lambda>(ref, h, e). (ref, h)) (select releaseEv es)"

text \<open>The calls of a release: those the provider makes, and the release itself.\<close>

fun releaseCall :: "event \<Rightarrow> bool" where
  "releaseCall (Provider (Release ref h err)) = True"
| "releaseCall e = backgroundEvent e"

lemma background_releaseCall: "list_all backgroundEvent es \<Longrightarrow> list_all releaseCall es"
proof (induction es)
  case (Cons e es)
  then show ?case by (cases e rule: backgroundEvent.cases) auto
qed simp

lemma emits_releaseNodeRecords:
  "emits (releaseNodeRecords E provider nodeName recs) (\<lambda>recs' es.
     recs' = map (markReleased nodeName) recs \<and> list_all releaseCall es \<and>
     releasedHandles es = map (\<lambda>rec. (provider, nodeHandle nodeName rec)) (filter (\<lambda>rec. nr_NodeName rec = nodeName) recs))"
proof (induction recs)
  case (Cons rec recs)
  show ?case
    unfolding releaseNodeRecords.simps
    by (intro emits_if emits_bind_fixed [OF emits_Release_via] emits_bind_fixed [OF Cons.IH] emits_return)
      (auto simp: background_releaseCall background_select releasedHandles_def markReleased_def nodeHandle_def)
qed (auto intro!: emits simp: releasedHandles_def)

definition afterXid :: "string \<Rightarrow> gotime \<Rightarrow> GPUPool \<Rightarrow> GPUPool" where
  "afterXid nodeName now pool = pool\<lparr>pool_Status := (pool_Status pool)\<lparr>
     gpt_NodeRecords := map (markReleased nodeName) (pool_Records pool),
     gpt_ObservedCapacity := (pool_Observed pool)\<lparr>oc_LastICE := now\<rparr>\<rparr>\<rparr>"

text \<open>
  The calls on behalf of the pool: the pool is read and its provider looked up; unless one of the two
  fails, all records of the node are released, in their order, and then the status is written.  \<open>look\<close> is
  the lookup of the provider.
\<close>

definition xidPool ::
  "(GPUPool \<Rightarrow> (('w, event, 'z) sys_scheme, goerror + ProviderRef) state) \<Rightarrow> string \<Rightarrow> string \<Rightarrow> event list \<Rightarrow> bool" where
  "xidPool look poolName nodeName es \<longleftrightarrow>
     (if poolName = [] then es = []
      else \<exists>r rest. es = Kube (GetPool poolName r) # rest \<and>
        (case r of
           Inl err \<Rightarrow> rest = []
         | Inr pool \<Rightarrow> \<exists>p pre post. rest = pre @ post \<and> canRun (look pool) p pre \<and> list_all backgroundEvent pre \<and>
             (case p of
                Inl err \<Rightarrow> post = []
              | Inr ref \<Rightarrow> \<exists>rel now u.
                  post = rel @ [Clock now, Kube (StatusUpdatePool (afterXid nodeName now pool) u)] \<and>
                  list_all releaseCall rel \<and>
                  releasedHandles rel = map (\<lambda>rec. (pool_Name pool, nodeHandle nodeName rec))
                    (filter (\<lambda>rec. nr_NodeName rec = nodeName) (pool_Records pool)))))"

lemma emits_releaseFromPool:
  "emits (releaseFromPool E boot poolName nodeName :: ('w, 'z, unit) mio)
     (\<lambda>_ es. xidPool (ForPool E boot :: GPUPool \<Rightarrow> ('w, 'z, goerror + ProviderRef) mio) poolName nodeName es)"
proof (cases "poolName = []")
  case False
  show ?thesis
    unfolding releaseFromPool_def xidPool_def
  proof (simp only: False if_False, rule emits_ext_bind, rule emits_case_sum, goal_cases)
    case (2 r pool)
    show ?case
    proof (rule emits_bind_fixed [OF emits_canRun [OF emits_ForPool]], rule emits_case_sum, goal_cases)
      case (1 p pre err)
      then show ?case using 2 by (intro emits_return) (simp, rule exI [of _ "Inl err"], rule exI [of _ pre], simp)
    next
      case (2 p pre ref)
      note look = this
      show ?case
      proof (rule emits_bind_fixed [OF emits_releaseNodeRecords], rule emits_ext_bind, rule emits_ext_bind,
          rule emits_return, goal_cases)
        case (1 recs rel now u)
        then show ?case using look \<open>r = Inr pool\<close> by (fastforce simp: afterXid_def)
      qed
    qed
  qed (auto intro!: emits)
qed (simp add: releaseFromPool_def xidPool_def emits_return)

definition clearXid :: "Node \<Rightarrow> Node" where
  "clearXid node = node\<lparr>node_Meta := (node_Meta node)\<lparr>
     om_Annotations := (om_Annotations (node_Meta node))(AnnotationXidCritical := None),
     om_Labels := (om_Labels (node_Meta node))(LabelBufferEligible \<mapsto> ''false'')\<rparr>\<rparr>"

lemma emits_handleXidCritical:
  "emits (handleXidCritical E boot node :: ('w, 'z, duration \<times> goerror option) mio) (\<lambda>r es.
     \<exists>u rest. es = Kube (UpdateNode (node\<lparr>node_Unschedulable := True\<rparr>) u) # rest \<and>
     (case u of
        Inl err \<Rightarrow> rest = [] \<and> r = (0, Some err)
      | Inr node' \<Rightarrow> \<exists>a dels pcalls u'.
          rest = Kube (ListPods a) # dels @ pcalls @ [Kube (UpdateNode (clearXid node') u')] \<and>
          map podDeleteEv dels = map Some (case a of Inl _ \<Rightarrow> [] | Inr items \<Rightarrow> victims (node_Name node') items) \<and>
          xidPool (ForPool E boot :: GPUPool \<Rightarrow> ('w, 'z, goerror + ProviderRef) mio) (node_Label node LabelPool) (node_Name node') pcalls \<and>
          r = (0, case u' of Inl err \<Rightarrow> Some err | Inr _ \<Rightarrow> None)))"
  unfolding handleXidCritical_def Let_def
proof (rule emits_ext_bind, rule emits_case_sum, goal_cases)
  case (2 u node')
  show ?case
  proof (rule emits_bind_fixed [OF emits_deletePods], rule emits_bind_fixed [OF emits_releaseFromPool],
      rule emits_ext_bind, rule emits_return, goal_cases)
    case (1 x es y pcalls u')
    then show ?case using 2 by (cases u') (fastforce simp: clearXid_def)+
  qed
qed (auto intro!: emits)

text \<open>
  C9: A node with a critical Xid is taken out of service in this order.  The first call cordons it; if
  that fails nothing else happens.  Then the pods are listed and exactly those of the node outside
  \<open>kube-system\<close> are deleted, one call each.  Then, if the node has the label of a pool, the pool is read
  and its provider looked up; unless one of these fails, all records of the node are released, and after
  that the status is written with these records \<open>released\<close> and a new ICE time.  The last call of all
  clears the mark and the eligibility.  These are all calls there are.
\<close>
theorem xid_out_of_service:
  "emits (handleXidCritical E boot node :: ('w, 'z, duration \<times> goerror option) mio) (\<lambda>r es.
     \<exists>u rest. es = Kube (UpdateNode (node\<lparr>node_Unschedulable := True\<rparr>) u) # rest \<and>
     (case u of
        Inl err \<Rightarrow> rest = [] \<and> r = (0, Some err)
      | Inr node' \<Rightarrow> \<exists>a dels pcalls u'.
          rest = Kube (ListPods a) # dels @ pcalls @ [Kube (UpdateNode (clearXid node') u')] \<and>
          map podDeleteEv dels = map Some (case a of Inl _ \<Rightarrow> [] | Inr items \<Rightarrow> victims (node_Name node') items) \<and>
          xidPool (ForPool E boot :: GPUPool \<Rightarrow> ('w, 'z, goerror + ProviderRef) mio) (node_Label node LabelPool) (node_Name node') pcalls \<and>
          r = (0, case u' of Inl err \<Rightarrow> Some err | Inr _ \<Rightarrow> None)))"
  by (rule emits_handleXidCritical)

lemma emits_DeepCheck:
  "emits (DeepCheck E checker) (\<lambda>_ es. select podDeleteEv es = [] \<and> select releaseEv es = [] \<and>
     select nodeWriteEv es = [] \<and> (\<forall>e. RunCommand [''dcgmi'', ''diag'', ''-r'', ''1''] (Some e) \<notin> set es))"
  by (auto simp: DeepCheck_def dcgmi_def intro!: emits split: Checker.split)

definition bootFailed :: "event list \<Rightarrow> bool" where
  "bootFailed es \<longleftrightarrow> (\<exists>e. RunCommand [''dcgmi'', ''diag'', ''-r'', ''1''] (Some e) \<in> set es)"

lemma emits_BootCheck:
  "emits (BootCheck E checker) (\<lambda>err es. select podDeleteEv es = [] \<and> select releaseEv es = [] \<and>
     select nodeWriteEv es = [] \<and> (bootFailed es \<longleftrightarrow> err \<noteq> None))"
  by (auto simp: BootCheck_def dcgmi_def bootFailed_def intro!: emits split: Checker.split)

lemma emits_bootLabel:
  "emits (bootLabel E checker node) (\<lambda>r es. select podDeleteEv es = [] \<and> select releaseEv es = [] \<and>
     (if node_Label node LabelBufferEligible = ''true'' then es = []
      else select nodeWriteEv es = [(labelled node (if bootFailed es then ''false'' else ''true''), r)]))"
  unfolding bootLabel_def
  by (intro emits_if emits_bind_fixed [OF emits_BootCheck] emits_ext emits_return)
    (auto simp: bootFailed_def split: option.splits)

text \<open>
  A node without the GPU label is left alone.  A GPU node without a critical Xid loses no pod
  and is not released; it is written only if it is not labelled eligible, once, with the label set
  to the outcome of the boot diagnosis (a node without \<open>dcgmi\<close> passes).
\<close>
theorem health_labels_nodes:
  "emits (health_Reconcile E checker boot name) (\<lambda>r es. \<exists>a rest. es = Kube (GetNode name a) # rest \<and>
     (case a of
        Inl err \<Rightarrow> rest = []
      | Inr node \<Rightarrow>
          if om_Labels (node_Meta node) LabelGPU = None then rest = [] \<and> r = (0, None)
          else if mget (om_Annotations (node_Meta node)) AnnotationXidCritical = ''true'' then True
          else select podDeleteEv rest = [] \<and> select releaseEv rest = [] \<and>
            (if node_Label node LabelBufferEligible = ''true'' then select nodeWriteEv rest = []
             else \<exists>u. select nodeWriteEv rest = [(labelled node (if bootFailed rest then ''false'' else ''true''), u)])))"
proof -
  have xid: "emits (handleXidCritical E boot node) (\<lambda>_ _. True)" for node
    using emits_handleXidCritical by (rule emits_mono) simp
  have deep: "emits (if b then DeepCheck E checker else ret None) (\<lambda>_ es. select podDeleteEv es = [] \<and>
      select releaseEv es = [] \<and> select nodeWriteEv es = [] \<and>
      (\<forall>e. RunCommand [''dcgmi'', ''diag'', ''-r'', ''1''] (Some e) \<notin> set es))" for b
    using emits_DeepCheck by (auto intro!: emits)
  show ?thesis
    unfolding health_Reconcile_def
    by (intro emits_return emits_ext_bind emits_case_sum emits_if emits_bind_fixed [OF emits_bootLabel]
        emits_mono [OF xid] emits_bind_fixed [OF deep]) (auto simp: bootFailed_def split: if_splits)
qed

end
