(* ===== verification/Json.thy ===== *)
theory Json
  imports Go_Lib "HOL-Library.AList" "HOL-Library.Char_ord" "HOL-Library.List_Lexorder"
begin

text \<open>
  What the code uses of \<open>encoding/json\<close> and \<open>unicode/utf8\<close>: the strings of JSON (quoting and unquoting of
  bytes, with replacement of invalid UTF-8), the scanner, decoding of an object into a map of raw
  messages and of its field \<open>model\<close>, and the encoder for strings and for such a map.  A text is a
  list of bytes.  A raw message is kept as its tokens; the white space between them, which the encoder
  removes, is dropped when it is read.

  The encoder and the decoder fit: what is encoded decodes to the same values.
\<close>

section \<open>UTF-8\<close>

abbreviation byte :: "char \<Rightarrow> nat" where
  "byte c \<equiv> of_char c"

definition contByte :: "char \<Rightarrow> bool" where
  "contByte c \<longleftrightarrow> 0x80 \<le> byte c \<and> byte c \<le> 0xBF"

text \<open>The second byte of a sequence of three or four, which its first byte restricts.\<close>

definition secondByte :: "char \<Rightarrow> char \<Rightarrow> bool" where
  "secondByte a b \<longleftrightarrow> contByte b \<and>
     (if byte a = 0xE0 then 0xA0 \<le> byte b else if byte a = 0xED then byte b \<le> 0x9F
      else if byte a = 0xF0 then 0x90 \<le> byte b else if byte a = 0xF4 then byte b \<le> 0x8F else True)"

text \<open>The length of the valid sequence a text starts with, zero if there is none.\<close>

fun runeLen :: "string \<Rightarrow> nat" where
  "runeLen [] = 0"
| "runeLen (a # s) =
     (if byte a < 0x80 then 1
      else if 0xC2 \<le> byte a \<and> byte a \<le> 0xDF then
        (case s of b # _ \<Rightarrow> if contByte b then 2 else 0 | _ \<Rightarrow> 0)
      else if 0xE0 \<le> byte a \<and> byte a \<le> 0xEF then
        (case s of b # c # _ \<Rightarrow> if secondByte a b \<and> contByte c then 3 else 0 | _ \<Rightarrow> 0)
      else if 0xF0 \<le> byte a \<and> byte a \<le> 0xF4 then
        (case s of b # c # d # _ \<Rightarrow> if secondByte a b \<and> contByte c \<and> contByte d then 4 else 0 | _ \<Rightarrow> 0)
      else 0)"

text \<open>U+FFFD, which stands for an invalid byte.\<close>

definition replacement :: string where
  "replacement = [CHR 0xEF, CHR 0xBF, CHR 0xBD]"

lemma runeLen_le: "runeLen s \<le> length s"
  by (cases s rule: runeLen.cases) (auto split: list.split)

text \<open>The runes of a text: its valid sequences, and \<open>None\<close> for each invalid byte.\<close>

function runes :: "string \<Rightarrow> string option list" where
  "runes [] = []"
| "runes (a # s) =
     (let n = runeLen (a # s)
      in if n = 0 then None # runes s else Some (take n (a # s)) # runes (drop n (a # s)))"
  by pat_completeness auto
termination by (relation "measure length") auto

declare runes.simps [simp del]

definition runeText :: "string option \<Rightarrow> string" where
  "runeText r = (case r of None \<Rightarrow> replacement | Some u \<Rightarrow> u)"

definition toValid :: "string \<Rightarrow> string" where
  "toValid s = concat (map runeText (runes s))"

definition encodeRune :: "nat \<Rightarrow> string" where
  "encodeRune n =
     (if n < 0x80 then [char_of n]
      else if n < 0x800 then [char_of (0xC0 + n div 64), char_of (0x80 + n mod 64)]
      else if n < 0x10000 then
        [char_of (0xE0 + n div 4096), char_of (0x80 + n div 64 mod 64), char_of (0x80 + n mod 64)]
      else [char_of (0xF0 + n div 262144), char_of (0x80 + n div 4096 mod 64), char_of (0x80 + n div 64 mod 64),
        char_of (0x80 + n mod 64)])"

section \<open>Strings\<close>

abbreviation quot :: char where "quot \<equiv> CHR 0x22"
abbreviation bksl :: char where "bksl \<equiv> CHR 0x5C"

definition isHex :: "char \<Rightarrow> bool" where
  "isHex c \<longleftrightarrow> 48 \<le> byte c \<and> byte c \<le> 57 \<or> 97 \<le> byte c \<and> byte c \<le> 102 \<or> 65 \<le> byte c \<and> byte c \<le> 70"

definition hexVal :: "char \<Rightarrow> nat" where
  "hexVal c =
     (if 48 \<le> byte c \<and> byte c \<le> 57 then byte c - 48
      else if 97 \<le> byte c \<and> byte c \<le> 102 then byte c - 87
      else if 65 \<le> byte c \<and> byte c \<le> 70 then byte c - 55
      else 0)"

definition hex4 :: "char \<Rightarrow> char \<Rightarrow> char \<Rightarrow> char \<Rightarrow> nat" where
  "hex4 a b c d = ((hexVal a * 16 + hexVal b) * 16 + hexVal c) * 16 + hexVal d"

text \<open>The escape of an ASCII byte, if it needs one (\<open>appendString\<close> with HTML escaping).\<close>

definition escAscii :: "char \<Rightarrow> string" where
  "escAscii c =
     (if c = quot then [bksl, quot]
      else if c = bksl then [bksl, bksl]
      else if byte c = 8 then [bksl, CHR ''b'']
      else if byte c = 9 then [bksl, CHR ''t'']
      else if byte c = 10 then [bksl, CHR ''n'']
      else if byte c = 12 then [bksl, CHR ''f'']
      else if byte c = 13 then [bksl, CHR ''r'']
      else if byte c < 32 \<or> c \<in> {CHR ''<'', CHR ''>'', CHR ''&''}
      then [bksl, CHR ''u'', CHR ''0'', CHR ''0'', hexDigit (byte c div 16), hexDigit (byte c mod 16)]
      else [c])"

definition quoteRune :: "string option \<Rightarrow> string" where
  "quoteRune r =
     (case r of
        None \<Rightarrow> bksl # ''ufffd''
      | Some u \<Rightarrow>
          if u = [CHR 0xE2, CHR 0x80, CHR 0xA8] then bksl # ''u2028''
          else if u = [CHR 0xE2, CHR 0x80, CHR 0xA9] then bksl # ''u2029''
          else (case u of [c] \<Rightarrow> escAscii c | _ \<Rightarrow> u))"

definition quoteBody :: "string \<Rightarrow> string" where
  "quoteBody s = concat (map quoteRune (runes s))"

definition jsonString :: "string \<Rightarrow> string" where
  "jsonString s = [quot] @ quoteBody s @ [quot]"

definition jsonField :: "string \<Rightarrow> string \<Rightarrow> string" where
  "jsonField k v = jsonString k @ '':'' @ v"

text \<open>The bytes a simple escape stands for.\<close>

definition simpleEsc :: "char \<Rightarrow> char option" where
  "simpleEsc e =
     (if e = quot \<or> e = bksl \<or> e = CHR ''/'' then Some e
      else if e = CHR ''b'' then Some (CHR 0x08)
      else if e = CHR ''f'' then Some (CHR 0x0C)
      else if e = CHR ''n'' then Some (CHR 0x0A)
      else if e = CHR ''r'' then Some (CHR 0x0D)
      else if e = CHR ''t'' then Some (CHR 0x09)
      else None)"

text \<open>
  One character of a string literal as the scanner accepts it, a byte or an escape, and the rest; and
  the body of a literal up to its closing quote.
\<close>

definition scanChar :: "char \<Rightarrow> string \<Rightarrow> (string \<times> string) option" where
  "scanChar c s =
     (if c = bksl then
        (case s of
           [] \<Rightarrow> None
         | e # s' \<Rightarrow>
             if simpleEsc e \<noteq> None then Some ([c, e], s')
             else if e = CHR ''u'' then
               (case s' of
                  h1 # h2 # h3 # h4 # s'' \<Rightarrow>
                    if isHex h1 \<and> isHex h2 \<and> isHex h3 \<and> isHex h4 then Some ([c, e, h1, h2, h3, h4], s'') else None
                | _ \<Rightarrow> None)
             else None)
      else if byte c < 32 then None
      else Some ([c], s))"

lemma scanChar_split: "scanChar c s = Some (u, r) \<Longrightarrow> \<exists>v. u = c # v \<and> s = v @ r \<and> (\<forall>t. scanChar c (v @ t) = Some (u, t))"
  by (auto simp: scanChar_def split: if_splits list.splits)

function scanString :: "string \<Rightarrow> (string \<times> string) option" where
  "scanString [] = None"
| "scanString (c # s) =
     (if c = quot then Some ([], s)
      else case scanChar c s of
        None \<Rightarrow> None
      | Some (u, r) \<Rightarrow> map_option (\<lambda>(b, r'). (u @ b, r')) (scanString r))"
  by pat_completeness auto
termination by (relation "measure length") (auto dest!: scanChar_split)

declare scanString.simps(2) [simp del]

definition surrogate :: "nat \<Rightarrow> bool" where
  "surrogate n \<longleftrightarrow> 0xD800 \<le> n \<and> n < 0xE000"

definition surrogates :: "nat \<Rightarrow> nat \<Rightarrow> bool" where
  "surrogates hi lo \<longleftrightarrow> 0xD800 \<le> hi \<and> hi < 0xDC00 \<and> 0xDC00 \<le> lo \<and> lo < 0xE000"

text \<open>
  \<open>unquote\<close> on a scanned body: escapes, surrogate pairs, replacement of what is not UTF-8.  Each round
  gives the bytes of one character and the rest.
\<close>

definition unescapeU :: "nat \<Rightarrow> string \<Rightarrow> string \<times> string" where
  "unescapeU n s =
     (if surrogate n then
        (case s of
           b # u # h1 # h2 # h3 # h4 # s' \<Rightarrow>
             if b = bksl \<and> u = CHR ''u'' \<and> surrogates n (hex4 h1 h2 h3 h4)
             then (encodeRune ((n - 0xD800) * 1024 + (hex4 h1 h2 h3 h4 - 0xDC00) + 0x10000), s')
             else (replacement, s)
         | _ \<Rightarrow> (replacement, s))
      else (encodeRune n, s))"

definition unescape :: "string \<Rightarrow> string \<times> string" where
  "unescape s =
     (case s of
        [] \<Rightarrow> ([], [])
      | e # s' \<Rightarrow>
          (case simpleEsc e of
             Some x \<Rightarrow> ([x], s')
           | None \<Rightarrow>
               (case s' of h1 # h2 # h3 # h4 # s'' \<Rightarrow> unescapeU (hex4 h1 h2 h3 h4) s'' | _ \<Rightarrow> ([], []))))"

definition unquoteRune :: "char \<Rightarrow> string \<Rightarrow> string \<times> string" where
  "unquoteRune c s =
     (if c = bksl then unescape s
      else let n = runeLen (c # s)
           in if n = 0 then (replacement, s) else (take n (c # s), drop n (c # s)))"

lemma unquoteRune_shorter: "length (snd (unquoteRune c s)) \<le> length s"
  by (auto simp: unquoteRune_def unescape_def unescapeU_def Let_def split: list.split option.split)

function unquote :: "string \<Rightarrow> string" where
  "unquote [] = []"
| "unquote (c # s) = (case unquoteRune c s of (u, r) \<Rightarrow> u @ unquote r)"
  by pat_completeness auto
termination by (relation "measure length") (auto, metis le_imp_less_Suc snd_conv unquoteRune_shorter)

declare unquote.simps [simp del]

text \<open>
  \<open>appendCompact\<close> on the body of a literal, with HTML escaping: the bytes \<open><\<close>, \<open>>\<close> and \<open>&\<close> and the
  sequences of U+2028 and U+2029 are replaced by escapes.
\<close>

definition uEsc :: "char \<Rightarrow> string" where
  "uEsc c = [bksl, CHR ''u'', CHR ''0'', CHR ''0'', hexDigit (byte c div 16), hexDigit (byte c mod 16)]"

definition htmlChar :: "char \<Rightarrow> bool" where
  "htmlChar c \<longleftrightarrow> c = CHR ''<'' \<or> c = CHR ''>'' \<or> c = CHR ''&''"

fun escHTML :: "string \<Rightarrow> string" where
  "escHTML [] = []"
| "escHTML (c # s) =
     (if htmlChar c then uEsc c @ escHTML s
      else if c = CHR 0xE2 then
        (case s of
           b # d # s' \<Rightarrow>
             if b = CHR 0x80 \<and> d = CHR 0xA8 then bksl # ''u2028'' @ escHTML s'
             else if b = CHR 0x80 \<and> d = CHR 0xA9 then bksl # ''u2029'' @ escHTML s'
             else c # escHTML s
         | _ \<Rightarrow> c # escHTML s)
      else c # escHTML s)"

section \<open>Quoting and unquoting\<close>

definition validRune :: "string \<Rightarrow> bool" where
  "validRune u \<longleftrightarrow> u \<noteq> [] \<and> runeLen u = length u"

lemma runeLen_append:
  assumes "validRune u"
  shows "runeLen (u @ s) = length u"
proof -
  obtain a t where u: "u = a # t" using assms by (cases u) (auto simp: validRune_def)
  show ?thesis
    using assms unfolding u validRune_def by (auto split: list.splits if_splits)
qed

lemma runeLen_take: "0 < runeLen s \<Longrightarrow> validRune (take (runeLen s) s)"
  by (cases s) (auto simp: validRune_def split: list.splits if_splits)

lemma runes_append: "validRune u \<Longrightarrow> runes (u @ s) = Some u # runes s"
proof -
  assume u: "validRune u"
  then obtain a t where c: "u = a # t" by (cases u) (auto simp: validRune_def)
  show ?thesis
    using runeLen_append [OF u, of s] unfolding c by (simp add: runes.simps Let_def)
qed

lemma toValid_append: "validRune u \<Longrightarrow> toValid (u @ s) = u @ toValid s"
  by (simp add: toValid_def runes_append runeText_def)

lemma toValid_Nil [simp]: "toValid [] = []"
  by (simp add: toValid_def runes.simps)

lemma runes_valid: "Some u \<in> set (runes s) \<Longrightarrow> validRune u"
proof (induction s rule: runes.induct)
  case (2 a s)
  then show ?case
    using runeLen_take [of "a # s"] by (auto simp: runes.simps Let_def split: if_splits)
qed (simp add: runes.simps)

lemma validRune_ascii: "byte c < 0x80 \<Longrightarrow> validRune [c]"
  by (simp add: validRune_def)

lemma validRune_replacement: "validRune replacement"
  by (simp add: validRune_def replacement_def contByte_def secondByte_def)

lemma validRune_single: "validRune [c] \<Longrightarrow> byte c < 0x80"
  by (auto simp: validRune_def split: if_splits)

lemma validRune_bytes: "validRune u \<Longrightarrow> length u \<noteq> 1 \<Longrightarrow> x \<in> set u \<Longrightarrow> 0x80 \<le> byte x"
  by (cases u) (auto simp: validRune_def contByte_def secondByte_def split: list.splits if_splits)

lemma byte_char_of [simp]: "n < 256 \<Longrightarrow> byte (char_of n) = n"
  by simp

lemma validRune_encode:
  assumes "n < 0x110000" and "\<not> surrogate n"
  shows "validRune (encodeRune n)"
proof -
  consider "n < 0x80" | "0x80 \<le> n" "n < 0x800" | "0x800 \<le> n" "n < 0x10000" | "0x10000 \<le> n" "n < 0x110000"
    using assms(1) by linarith
  then show ?thesis
  proof cases
    case 1
    then show ?thesis by (simp add: encodeRune_def validRune_def)
  next
    case 2
    then have "2 \<le> n div 64" "n div 64 < 32" "n mod 64 < 64" by (simp_all add: div_less_iff_less_mult less_eq_div_iff_mult_less_eq)
    with 2 show ?thesis by (simp add: encodeRune_def validRune_def contByte_def)
  next
    case 3
    let ?a = "n div 4096" and ?b = "n div 64 mod 64"
    have ab: "n div 64 = ?a * 64 + ?b" by (simp add: div_mult2_eq [of n 64 64, simplified])
    have "?a < 16" "?b < 64" "n mod 64 < 64" using 3 by (simp_all add: div_less_iff_less_mult)
    moreover have "?a = 0 \<Longrightarrow> 32 \<le> ?b" using 3 ab less_eq_div_iff_mult_less_eq [of 64 32 n] by simp
    moreover have "?a = 13 \<Longrightarrow> ?b < 32"
    proof -
      assume "?a = 13"
      with assms(2) have "n < 0xD800" using less_eq_div_iff_mult_less_eq [of 4096 14 n] by (simp add: surrogate_def)
      then have "n div 64 < 0x360" by (simp add: div_less_iff_less_mult)
      with \<open>?a = 13\<close> ab show ?thesis by simp
    qed
    moreover obtain a b c where "?a = a" "?b = b" "n mod 64 = c" by blast
    ultimately show ?thesis using 3 by (auto simp: encodeRune_def validRune_def contByte_def secondByte_def)
  next
    case 4
    let ?a = "n div 262144" and ?b = "n div 4096 mod 64"
    have ab: "n div 4096 = ?a * 64 + ?b" by (simp add: div_mult2_eq [of n 4096 64, simplified])
    have "?a < 5" "?b < 64" "n div 64 mod 64 < 64" "n mod 64 < 64" using 4 by (simp_all add: div_less_iff_less_mult)
    moreover have "?a = 0 \<Longrightarrow> 16 \<le> ?b" using 4 ab less_eq_div_iff_mult_less_eq [of 4096 16 n] by simp
    moreover have "?a = 4 \<Longrightarrow> ?b < 16" using 4 ab div_less_iff_less_mult [of 4096 n 272] by simp
    moreover obtain a b c d where "?a = a" "?b = b" "n div 64 mod 64 = c" "n mod 64 = d" by blast
    ultimately show ?thesis using 4 by (auto simp: encodeRune_def validRune_def contByte_def secondByte_def)
  qed
qed

lemma hexVal_le: "hexVal c \<le> 15"
  by (auto simp: hexVal_def)

lemma hex4_less: "hex4 a b c d < 0x10000"
  using hexVal_le [of a] hexVal_le [of b] hexVal_le [of c] hexVal_le [of d] by (simp add: hex4_def)

lemma validRune_simpleEsc: "simpleEsc e = Some x \<Longrightarrow> validRune [x]"
  by (auto simp: simpleEsc_def validRune_def split: if_splits)

lemma unescapeU_valid:
  assumes "n < 0x10000"
  shows "validRune (fst (unescapeU n s))"
proof -
  have pair: "validRune (encodeRune ((n - 0xD800) * 1024 + (lo - 0xDC00) + 0x10000))" if "surrogates n lo" for lo
    using that by (intro validRune_encode) (auto simp: surrogates_def surrogate_def)
  have "validRune (encodeRune n)" if "\<not> surrogate n" using that assms by (intro validRune_encode) auto
  then show ?thesis
    by (simp add: unescapeU_def pair validRune_replacement split: list.split)
qed

lemma unescape_valid: "fst (unescape s) = [] \<or> validRune (fst (unescape s))"
  by (auto simp: unescape_def unescapeU_valid hex4_less split: list.split option.split dest: validRune_simpleEsc)

lemma unquoteRune_valid: "unquoteRune c s = (u, r) \<Longrightarrow> u = [] \<or> validRune u"
  using unescape_valid [of s] runeLen_take [of "c # s"]
  by (auto simp: unquoteRune_def Let_def validRune_replacement simp del: runeLen.simps split: if_splits)

text \<open>What \<open>unquote\<close> gives is valid UTF-8.\<close>

lemma toValid_unquote: "toValid (unquote s) = unquote s"
proof (induction s rule: unquote.induct)
  case (2 c s)
  obtain u r where ur: "unquoteRune c s = (u, r)" by fastforce
  with unquoteRune_valid [OF ur] "2.IH" [OF ur [symmetric]] show ?case
    by (auto simp: unquote.simps toValid_append)
qed (simp add: unquote.simps)

text \<open>Quoting is undone, rune by rune.\<close>

lemma unquote_valid_append: "validRune u \<Longrightarrow> bksl \<notin> set u \<Longrightarrow> unquote (u @ s) = u @ unquote s"
proof -
  assume u: "validRune u" "bksl \<notin> set u"
  then obtain a t where c: "u = a # t" by (cases u) (auto simp: validRune_def)
  have "runeLen (a # t @ s) = Suc (length t)" using runeLen_append [OF u(1), of s] by (simp add: c)
  then have "unquoteRune a (t @ s) = (a # t, s)"
    using u(2) by (auto simp: unquoteRune_def c Let_def simp del: runeLen.simps)
  then show ?thesis by (simp add: c unquote.simps)
qed

lemma unquote_esc: "simpleEsc e = Some x \<Longrightarrow> unquote (bksl # e # s) = x # unquote s"
  by (simp add: unquote.simps unquoteRune_def unescape_def)

lemma unquote_u:
  "\<not> surrogate (hex4 h1 h2 h3 h4) \<Longrightarrow>
     unquote (bksl # CHR ''u'' # h1 # h2 # h3 # h4 # s) = encodeRune (hex4 h1 h2 h3 h4) @ unquote s"
  by (simp add: unquote.simps unquoteRune_def unescape_def simpleEsc_def unescapeU_def)

lemma hexDigit_val: "n < 16 \<Longrightarrow> hexVal (hexDigit n) = n" "n < 16 \<Longrightarrow> isHex (hexDigit n)"
  by (auto simp: hexDigit_def hexVal_def isHex_def)

lemma hex4_byte: "n < 128 \<Longrightarrow> hex4 (CHR ''0'') (CHR ''0'') (hexDigit (n div 16)) (hexDigit (n mod 16)) = n"
proof -
  assume "n < 128"
  then have "n div 16 < 16" "n mod 16 < 16" by (simp_all add: div_less_iff_less_mult)
  moreover have "hexVal (CHR ''0'') = 0" by (simp add: hexVal_def)
  ultimately show ?thesis by (simp only: hex4_def hexDigit_val) simp
qed

lemma byte_eqI: "byte c = byte d \<Longrightarrow> c = d"
  by simp

lemma unquote_escAscii:
  assumes "byte c < 0x80"
  shows "unquote (escAscii c @ s) = c # unquote s"
proof -
  have "unquote (bksl # CHR ''u'' # CHR ''0'' # CHR ''0'' # hexDigit (byte c div 16) # hexDigit (byte c mod 16) # s) = c # unquote s"
    using assms by (subst unquote_u) (simp_all add: hex4_byte surrogate_def encodeRune_def)
  moreover have "unquote ([c] @ s) = [c] @ unquote s" if "c \<noteq> bksl"
    using that assms by (intro unquote_valid_append validRune_ascii) auto
  moreover have "byte c = 8 \<Longrightarrow> c = CHR 0x08" "byte c = 9 \<Longrightarrow> c = CHR 0x09" "byte c = 10 \<Longrightarrow> c = CHR 0x0A"
      "byte c = 12 \<Longrightarrow> c = CHR 0x0C" "byte c = 13 \<Longrightarrow> c = CHR 0x0D"
    by (rule byte_eqI; simp)+
  ultimately show ?thesis
    by (auto simp: escAscii_def unquote_esc simpleEsc_def)
qed

lemma hex_consts:
  "hex4 (CHR ''f'') (CHR ''f'') (CHR ''f'') (CHR ''d'') = 0xFFFD"
  "hex4 (CHR ''2'') (CHR ''0'') (CHR ''2'') (CHR ''8'') = 0x2028"
  "hex4 (CHR ''2'') (CHR ''0'') (CHR ''2'') (CHR ''9'') = 0x2029"
  "encodeRune 0xFFFD = replacement"
  "encodeRune 0x2028 = [CHR 0xE2, CHR 0x80, CHR 0xA8]" "encodeRune 0x2029 = [CHR 0xE2, CHR 0x80, CHR 0xA9]"
  by (simp_all add: hex4_def hexVal_def encodeRune_def replacement_def) (intro conjI; rule byte_eqI; simp)+

lemma unquote_quoteRune:
  assumes "\<And>u. r = Some u \<Longrightarrow> validRune u"
  shows "unquote (quoteRune r @ s) = runeText r @ unquote s"
proof (cases r)
  case None
  then show ?thesis by (simp add: quoteRune_def runeText_def unquote_u hex_consts surrogate_def)
next
  case (Some u)
  then have u: "validRune u" using assms by blast
  show ?thesis
  proof (cases "length u = 1")
    case True
    then obtain c where "u = [c]" by (cases u) auto
    with Some u show ?thesis by (simp add: quoteRune_def runeText_def unquote_escAscii [OF validRune_single])
  next
    case False
    then have "bksl \<notin> set u" using validRune_bytes [OF u False, of bksl] by auto
    then have "unquote (u @ s) = u @ unquote s" using u by (rule unquote_valid_append [rotated])
    moreover have "quoteRune r = u" if "u \<noteq> [CHR 0xE2, CHR 0x80, CHR 0xA8]" "u \<noteq> [CHR 0xE2, CHR 0x80, CHR 0xA9]"
      using Some False that by (auto simp: quoteRune_def split: list.split)
    moreover have "unquote (quoteRune r @ s) = u @ unquote s"
      if "u = [CHR 0xE2, CHR 0x80, CHR 0xA8] \<or> u = [CHR 0xE2, CHR 0x80, CHR 0xA9]"
      using that Some by (auto simp: quoteRune_def unquote_u hex_consts surrogate_def)
    ultimately show ?thesis
      using Some by (cases "u = [CHR 0xE2, CHR 0x80, CHR 0xA8] \<or> u = [CHR 0xE2, CHR 0x80, CHR 0xA9]") (simp_all add: runeText_def)
  qed
qed

lemma unquote_quoteBody: "unquote (quoteBody s) = toValid s"
proof -
  have "unquote (concat (map quoteRune rs)) = concat (map runeText rs)" if "\<And>u. Some u \<in> set rs \<Longrightarrow> validRune u" for rs
    using that by (induction rs) (auto simp: unquote_quoteRune unquote.simps)
  then show ?thesis using runes_valid by (simp add: quoteBody_def toValid_def)
qed

text \<open>The bodies of string literals that the scanner accepts.\<close>

inductive litBody :: "string \<Rightarrow> bool" where
  nil: "litBody []"
| plain: "32 \<le> byte c \<Longrightarrow> c \<noteq> quot \<Longrightarrow> c \<noteq> bksl \<Longrightarrow> litBody s \<Longrightarrow> litBody (c # s)"
| esc: "simpleEsc e = Some x \<Longrightarrow> litBody s \<Longrightarrow> litBody (bksl # e # s)"
| uni: "isHex a \<Longrightarrow> isHex b \<Longrightarrow> isHex c \<Longrightarrow> isHex d \<Longrightarrow> litBody s \<Longrightarrow> litBody (bksl # CHR ''u'' # a # b # c # d # s)"

lemma scan_raw: "litBody b \<Longrightarrow> scanString (b @ quot # t) = Some (b, t)"
  by (induction rule: litBody.induct) (simp_all add: scanString.simps scanChar_def simpleEsc_def)

lemma raw_scanChar:
  assumes "scanChar c s = Some (u, r)" and "c \<noteq> quot" and "litBody b"
  shows "litBody (u @ b)"
  using assms by (auto simp: scanChar_def not_less intro: litBody.intros split: if_splits list.splits)

lemma scan_split: "scanString s = Some (b, r) \<Longrightarrow> s = b @ quot # r \<and> litBody b"
proof (induction s arbitrary: b rule: scanString.induct)
  case (2 c s)
  show ?case
  proof (cases "c = quot")
    case True
    with "2.prems" show ?thesis by (auto simp: scanString.simps litBody.nil)
  next
    case False
    with "2.prems" obtain u r' b' where u: "scanChar c s = Some (u, r')" "scanString r' = Some (b', r)" "b = u @ b'"
      by (auto simp: scanString.simps split: option.splits)
    then obtain v where "u = c # v" "s = v @ r'" using scanChar_split by blast
    with "2.IH" [OF False u(1) refl u(2)] u raw_scanChar [OF u(1) False] show ?thesis by simp
  qed
qed simp

definition rawOK :: "string \<Rightarrow> bool" where
  "rawOK b \<longleftrightarrow> scanString (b @ [quot]) = Some (b, [])"

lemma rawOK_iff: "rawOK b \<longleftrightarrow> litBody b"
  using scan_split [of "b @ [quot]" b "[]"] scan_raw [of b "[]"] by (auto simp: rawOK_def)

lemma raw_append: "litBody u \<Longrightarrow> litBody v \<Longrightarrow> litBody (u @ v)"
  by (induction rule: litBody.induct) (auto intro: litBody.intros)

lemma raw_concat: "(\<And>u. u \<in> set us \<Longrightarrow> litBody u) \<Longrightarrow> litBody (concat us)"
  by (induction us) (auto intro: litBody.nil raw_append)

lemma raw_high: "0x80 \<le> byte c \<Longrightarrow> litBody (c # s) \<longleftrightarrow> litBody s"
  by (auto elim: litBody.cases intro: litBody.plain)

lemma raw_bytes: "(\<And>c. c \<in> set u \<Longrightarrow> 0x80 \<le> byte c) \<Longrightarrow> litBody (u @ s) \<longleftrightarrow> litBody s"
  by (induction u) (auto simp: raw_high)

lemma isHex_consts: "isHex (CHR ''0'')" "isHex (CHR ''2'')" "isHex (CHR ''8'')" "isHex (CHR ''9'')" "isHex (CHR ''f'')" "isHex (CHR ''d'')"
  by (simp_all add: isHex_def)

lemma raw_uEsc: "byte c < 0x80 \<Longrightarrow> litBody (uEsc c)"
  unfolding uEsc_def by (intro litBody.uni litBody.nil isHex_consts hexDigit_val(2)) (simp_all add: div_less_iff_less_mult)

lemma escAscii_uEsc: "escAscii c = uEsc c \<or> escAscii c = [c] \<and> 32 \<le> byte c \<and> c \<noteq> quot \<and> c \<noteq> bksl \<or>
    (\<exists>e x. escAscii c = [bksl, e] \<and> simpleEsc e = Some x)"
  by (simp add: escAscii_def uEsc_def simpleEsc_def)

lemma raw_escAscii: "byte c < 0x80 \<Longrightarrow> litBody (escAscii c)"
  using escAscii_uEsc [of c] raw_uEsc [of c] by (auto intro: litBody.plain [OF _ _ _ litBody.nil] litBody.esc [OF _ litBody.nil])

lemma raw_quoteRune:
  assumes "\<And>u. r = Some u \<Longrightarrow> validRune u"
  shows "litBody (quoteRune r)"
proof (cases r)
  case (Some u)
  then have u: "validRune u" using assms by blast
  show ?thesis
  proof (cases "length u = 1")
    case True
    then obtain c where "u = [c]" by (cases u) auto
    with Some u show ?thesis by (simp add: quoteRune_def raw_escAscii [OF validRune_single])
  next
    case False
    have "litBody (u @ [])" using validRune_bytes [OF u False] litBody.nil by (subst raw_bytes) auto
    with Some False show ?thesis
      by (auto simp: quoteRune_def isHex_consts intro!: litBody.uni litBody.nil split: list.split)
  qed
qed (auto simp: quoteRune_def isHex_consts intro!: litBody.uni litBody.nil)

lemma raw_quoteBody: "litBody (quoteBody s)"
  unfolding quoteBody_def using runes_valid by (intro raw_concat) (auto intro: raw_quoteRune)

text \<open>Escaping for HTML keeps literals well-formed and does not change what they stand for.\<close>

lemma escHTML_keep: "\<not> htmlChar c \<Longrightarrow> c \<noteq> CHR 0xE2 \<Longrightarrow> escHTML (c # s) = c # escHTML s"
  by simp

lemma escHTML_cont: "contByte c \<Longrightarrow> escHTML (c # s) = c # escHTML s"
  by (rule escHTML_keep) (auto simp: contByte_def htmlChar_def)

declare escHTML.simps(2) [simp del]

lemma isHex_keep: "isHex c \<Longrightarrow> escHTML (c # s) = c # escHTML s"
  by (rule escHTML_keep) (auto simp: isHex_def htmlChar_def)

lemma simpleEsc_keep: "simpleEsc c = Some x \<Longrightarrow> escHTML (c # s) = c # escHTML s"
  by (rule escHTML_keep) (auto simp: simpleEsc_def htmlChar_def split: if_splits)

lemma bksl_keep: "escHTML (bksl # s) = bksl # escHTML s" "escHTML (CHR ''u'' # s) = CHR ''u'' # escHTML s"
  by (simp_all add: escHTML_keep htmlChar_def)

lemmas escHTML_esc = isHex_keep simpleEsc_keep bksl_keep

lemma htmlChar_ascii: "htmlChar c \<Longrightarrow> byte c < 0x80 \<and> 32 \<le> byte c \<and> c \<noteq> quot \<and> c \<noteq> bksl"
  by (auto simp: htmlChar_def)

lemma cont_consts: "contByte (CHR 0x80)" "contByte (CHR 0xA8)" "contByte (CHR 0xA9)"
  by (simp_all add: contByte_def)

text \<open>A line separator is replaced; otherwise a byte is kept or is one of the three.\<close>

lemma escHTML_cases:
  obtains (html) "htmlChar c" "escHTML (c # s) = uEsc c @ escHTML s"
  | (sep) d s' where "c = CHR 0xE2" "s = CHR 0x80 # d # s'" "d = CHR 0xA8 \<or> d = CHR 0xA9"
      "escHTML (c # s) = bksl # CHR ''u'' # CHR ''2'' # CHR ''0'' # CHR ''2'' # (if d = CHR 0xA8 then CHR ''8'' else CHR ''9'') # escHTML s'"
  | (keep) "\<not> htmlChar c" "escHTML (c # s) = c # escHTML s"
      "\<not> (c = CHR 0xE2 \<and> (\<exists>d s'. s = CHR 0x80 # d # s' \<and> (d = CHR 0xA8 \<or> d = CHR 0xA9)))"
proof (cases "htmlChar c")
  case True
  then show thesis using html by (simp add: escHTML.simps)
next
  case False
  show thesis
  proof (cases "c = CHR 0xE2 \<and> (\<exists>d s'. s = CHR 0x80 # d # s' \<and> (d = CHR 0xA8 \<or> d = CHR 0xA9))")
    case True
    then obtain d s' where d: "c = CHR 0xE2" "s = CHR 0x80 # d # s'" "d = CHR 0xA8 \<or> d = CHR 0xA9" by blast
    moreover have "escHTML (CHR 0xE2 # CHR 0x80 # d # s') =
        bksl # CHR ''u'' # CHR ''2'' # CHR ''0'' # CHR ''2'' # (if d = CHR 0xA8 then CHR ''8'' else CHR ''9'') # escHTML s'"
      using d(3) by (elim disjE) (simp_all add: escHTML.simps htmlChar_def)
    ultimately show thesis by (intro sep [of d s']) simp_all
  next
    case nosep: False
    then have "escHTML (c # s) = c # escHTML s"
      using False by (auto simp: escHTML.simps split: list.split)
    with False nosep show thesis using keep by blast
  qed
qed

lemma raw_escHTML: "litBody b \<Longrightarrow> litBody (escHTML b)"
proof (induction rule: litBody.induct)
  case (plain c s)
  show ?case
  proof (cases rule: escHTML_cases [of c s])
    case html
    then show ?thesis using plain raw_uEsc [of c] htmlChar_ascii [of c] by (simp add: raw_append)
  next
    case (sep d s')
    then have "litBody (escHTML s')"
      using plain by (auto simp: escHTML_cont cont_consts raw_high)
    with sep show ?thesis by (auto intro!: litBody.uni simp: isHex_consts)
  qed (use plain in \<open>auto intro: litBody.plain\<close>)
qed (auto simp: escHTML_esc intro: litBody.intros)

lemma runeLen_escHTML:
  assumes "0x80 \<le> byte a"
  shows "runeLen (a # escHTML s) = runeLen (a # s)"
proof -
  have nc: "\<exists>x y. escHTML (c # t) = x # y \<and> \<not> contByte x" if "\<not> contByte c" for c t
    using that by (cases rule: escHTML_cases [of c t]) (auto simp: uEsc_def contByte_def)
  show ?thesis
  proof (cases s)
    case (Cons b t)
    show ?thesis
    proof (cases "contByte b")
      case b: True
      show ?thesis
      proof (cases t)
        case t: (Cons c t')
        show ?thesis
        proof (cases "contByte c")
          case c: True
          show ?thesis
          proof (cases t')
            case t': (Cons d t'')
            show ?thesis
            proof (cases "contByte d")
              case True
              then show ?thesis by (simp add: Cons t t' b c escHTML_cont)
            next
              case False
              from nc [OF this, of t''] obtain x y where "escHTML (d # t'') = x # y" "\<not> contByte x" by blast
              with False show ?thesis by (simp add: Cons t t' b c escHTML_cont)
            qed
          qed (simp add: Cons t b c escHTML_cont)
        next
          case False
          from nc [OF this, of t'] obtain x y where "escHTML (c # t') = x # y" "\<not> contByte x" by blast
          with False show ?thesis by (auto simp: Cons t b escHTML_cont split: list.split)
        qed
      qed (simp add: Cons b escHTML_cont)
    next
      case False
      from nc [OF this, of t] obtain x y where "escHTML (b # t) = x # y" "\<not> contByte x" by blast
      with False show ?thesis by (auto simp: Cons secondByte_def split: list.split)
    qed
  qed simp
qed

lemma escHTML_conts: "(\<And>x. x \<in> set u \<Longrightarrow> contByte x) \<Longrightarrow> escHTML (u @ t) = u @ escHTML t"
  by (induction u) (auto simp: escHTML_cont)

lemma runeLen_conts:
  assumes "runeLen (c # s) = Suc n" and "0x80 \<le> byte c"
  obtains v r where "s = v @ r" "length v = n" "\<And>x. x \<in> set v \<Longrightarrow> contByte x"
proof
  show "s = take n s @ drop n s" by simp
  show "length (take n s) = n" using runeLen_le [of "c # s"] assms(1) by simp
  show "contByte x" if "x \<in> set (take n s)" for x
    using assms that by (auto simp: secondByte_def split: if_splits list.splits)
qed

lemma unquote_uEsc: "byte c < 0x80 \<Longrightarrow> unquote (uEsc c @ s) = c # unquote s"
  unfolding uEsc_def append_Cons append_Nil
  by (subst unquote_u) (simp_all add: hex4_byte surrogate_def encodeRune_def)

lemma unescapeU_escHTML:
  assumes "litBody t"
  shows "unescapeU n (escHTML t) = (fst (unescapeU n t), escHTML (snd (unescapeU n t))) \<and> litBody (snd (unescapeU n t))"
  using assms
proof (cases rule: litBody.cases)
  case (plain c s)
  have same: "unescapeU n t = (if surrogate n then (replacement, t) else (encodeRune n, t))"
    using plain by (auto simp: unescapeU_def split: list.split)
  have low: "\<not> surrogates n (hex4 (CHR ''0'') (CHR ''0'') a b)" "\<not> surrogates n (hex4 (CHR ''2'') (CHR ''0'') (CHR ''2'') (CHR ''8''))"
      "\<not> surrogates n (hex4 (CHR ''2'') (CHR ''0'') (CHR ''2'') (CHR ''9''))" for a b
    using hexVal_le [of a] hexVal_le [of b] by (simp_all add: hex_consts surrogates_def) (simp add: hex4_def hexVal_def)
  have "unescapeU n (escHTML t) = (if surrogate n then (replacement, escHTML t) else (encodeRune n, escHTML t))"
    unfolding plain
    by (cases rule: escHTML_cases [of c s]) (auto simp: unescapeU_def uEsc_def low plain split: list.split)
  with same assms show ?thesis by simp
next
  case (esc e x s)
  then have "e \<noteq> CHR ''u''" by (auto simp: simpleEsc_def)
  then have "unescapeU n (bksl # e # y) = (if surrogate n then (replacement, bksl # e # y) else (encodeRune n, bksl # e # y))" for y
    by (auto simp: unescapeU_def split: list.split)
  with esc assms show ?thesis by (simp add: escHTML_esc)
next
  case (uni a b c d s)
  then show ?thesis using assms by (auto simp: unescapeU_def escHTML_esc)
qed (simp_all add: unescapeU_def litBody.nil)

lemma unquote_escHTML: "litBody b \<Longrightarrow> unquote (escHTML b) = unquote b"
proof (induction b rule: length_induct)
  case (1 b)
  then have IH: "litBody s \<Longrightarrow> length s < length b \<Longrightarrow> unquote (escHTML s) = unquote s" for s by blast
  from \<open>litBody b\<close> show ?case
  proof (cases rule: litBody.cases)
    case (esc e x s)
    then show ?thesis using IH [of s] by (simp add: escHTML_esc unquote_esc)
  next
    case (uni h1 h2 h3 h4 s)
    obtain u r where ur: "unescapeU (hex4 h1 h2 h3 h4) s = (u, r)" by fastforce
    have "length r \<le> length s" using ur by (auto simp: unescapeU_def split: if_splits list.splits)
    then have "unquote (escHTML r) = unquote r" using IH [of r] unescapeU_escHTML [OF uni(6), of "hex4 h1 h2 h3 h4"] ur uni(1) by simp
    then show ?thesis
      using unescapeU_escHTML [OF uni(6), of "hex4 h1 h2 h3 h4"] ur uni
      by (simp add: escHTML_esc unquote.simps unquoteRune_def unescape_def simpleEsc_def)
  next
    case (plain c s)
    have ascii: "unquote (c # y) = c # unquote y" if "byte c < 0x80" for y
      using unquote_valid_append [OF validRune_ascii [OF that], of y] plain by simp
    show ?thesis
    proof (cases rule: escHTML_cases [of c s])
      case html
      then show ?thesis using plain IH [of s] htmlChar_ascii [of c] by (simp add: unquote_uEsc ascii)
    next
      case (sep d s')
      have "validRune [CHR 0xE2, CHR 0x80, d]" using sep(3) by (auto simp: validRune_def secondByte_def contByte_def)
      from unquote_valid_append [OF this, of s'] have "unquote b = CHR 0xE2 # CHR 0x80 # d # unquote s'"
        using sep plain by auto
      moreover have "litBody s'" using plain sep by (auto simp: raw_high cont_consts)
      ultimately show ?thesis
        using IH [of s'] sep plain by (auto simp: unquote_u hex_consts surrogate_def)
    next
      case keep
      show ?thesis
      proof (cases "byte c < 0x80")
        case True
        then show ?thesis using keep plain IH [of s] by (simp add: ascii)
      next
        case False
        show ?thesis
        proof (cases "runeLen (c # s)")
          case 0
          then show ?thesis
            using keep plain IH [of s] runeLen_escHTML [of c s] False
            by (simp add: unquote.simps unquoteRune_def del: runeLen.simps)
        next
          case (Suc n)
          then obtain v r where v: "s = v @ r" "length v = n" "\<And>x. x \<in> set v \<Longrightarrow> contByte x"
            using runeLen_conts False by (metis not_less)
          have "litBody r" using plain v raw_bytes [of v r] by (auto simp: contByte_def)
          then have "unquote (escHTML r) = unquote r" using IH [of r] plain v by simp
          then show ?thesis
            using keep plain Suc runeLen_escHTML [of c s] False v
            by (simp add: unquote.simps unquoteRune_def Let_def escHTML_conts del: runeLen.simps)
        qed
      qed
    qed
  qed simp
qed

section \<open>Tokens\<close>

datatype jtoken = LBrace | RBrace | LBrack | RBrack | Colon | Comma | TTrue | TFalse | TNull | TNum string | TStr string

definition jsonSpace :: "char \<Rightarrow> bool" where
  "jsonSpace c \<longleftrightarrow> c = CHR '' '' \<or> c = CHR 0x09 \<or> c = CHR 0x0A \<or> c = CHR 0x0D"

definition punct :: "char \<Rightarrow> jtoken option" where
  "punct c =
     (if c = CHR ''{'' then Some LBrace else if c = CHR ''}'' then Some RBrace
      else if c = CHR ''['' then Some LBrack else if c = CHR '']'' then Some RBrack
      else if c = CHR '':'' then Some Colon else if c = CHR '','' then Some Comma else None)"

text \<open>The scanner's automaton for numbers: sign, integer part, fraction, exponent.\<close>

datatype numState = NStart | NNeg | NZero | NInt | NDot | NFrac | NExp | NExpSign | NExpInt

fun numStep :: "numState \<Rightarrow> char \<Rightarrow> numState option" where
  "numStep NStart c = (if c = CHR ''-'' then Some NNeg else if c = CHR ''0'' then Some NZero else if isDigit c then Some NInt else None)"
| "numStep NNeg c = (if c = CHR ''0'' then Some NZero else if isDigit c then Some NInt else None)"
| "numStep NInt c = (if isDigit c then Some NInt else if c = CHR ''.'' then Some NDot
     else if c = CHR ''e'' \<or> c = CHR ''E'' then Some NExp else None)"
| "numStep NZero c = (if c = CHR ''.'' then Some NDot else if c = CHR ''e'' \<or> c = CHR ''E'' then Some NExp else None)"
| "numStep NDot c = (if isDigit c then Some NFrac else None)"
| "numStep NFrac c = (if isDigit c then Some NFrac else if c = CHR ''e'' \<or> c = CHR ''E'' then Some NExp else None)"
| "numStep NExp c = (if c = CHR ''+'' \<or> c = CHR ''-'' then Some NExpSign else if isDigit c then Some NExpInt else None)"
| "numStep NExpSign c = (if isDigit c then Some NExpInt else None)"
| "numStep NExpInt c = (if isDigit c then Some NExpInt else None)"

fun numRun :: "numState \<Rightarrow> string \<Rightarrow> bool" where
  "numRun st [] \<longleftrightarrow> st \<in> {NZero, NInt, NFrac, NExpInt}"
| "numRun st (c # s) \<longleftrightarrow> (case numStep st c of None \<Rightarrow> False | Some st' \<Rightarrow> numRun st' s)"

definition numChar :: "char \<Rightarrow> bool" where
  "numChar c \<longleftrightarrow> isDigit c \<or> c = CHR ''-'' \<or> c = CHR ''+'' \<or> c = CHR ''.'' \<or> c = CHR ''e'' \<or> c = CHR ''E''"

definition isNumber :: "string \<Rightarrow> bool" where
  "isNumber s \<longleftrightarrow> numRun NStart s"

text \<open>
  The tokens of a text.  A literal or a number that runs into the next one gives two adjacent values,
  which no value contains; the characters that may follow a number inside it start no token.
\<close>

definition lexWord :: "string \<Rightarrow> (jtoken \<times> string) option" where
  "lexWord s =
     (if HasPrefix s ''true'' then Some (TTrue, drop 4 s)
      else if HasPrefix s ''false'' then Some (TFalse, drop 5 s)
      else if HasPrefix s ''null'' then Some (TNull, drop 4 s)
      else if isNumber (takeWhile numChar s) then Some (TNum (takeWhile numChar s), dropWhile numChar s)
      else None)"

definition lexToken :: "char \<Rightarrow> string \<Rightarrow> (jtoken \<times> string) option" where
  "lexToken c s =
     (case punct c of
        Some t \<Rightarrow> Some (t, s)
      | None \<Rightarrow> if c = quot then map_option (\<lambda>(b, r). (TStr b, r)) (scanString s) else lexWord (c # s))"

lemma isNumber_Nil: "\<not> isNumber []"
  by (simp add: isNumber_def)

lemma lexWord_shorter: "lexWord s = Some (t, r) \<Longrightarrow> length r < length s"
proof -
  have "length (dropWhile numChar s) < length s" if "isNumber (takeWhile numChar s)"
    using that isNumber_Nil by (cases s) (auto simp: length_dropWhile_le le_imp_less_Suc split: if_splits)
  moreover have "s \<noteq> []" if "HasPrefix s (x # p)" for x p using that by (auto simp: HasPrefix_def)
  ultimately show "lexWord s = Some (t, r) \<Longrightarrow> length r < length s"
    by (auto simp: lexWord_def split: if_splits)
qed

lemma lexToken_shorter: "lexToken c s = Some (t, r) \<Longrightarrow> length r \<le> length s"
  by (auto simp: lexToken_def dest: lexWord_shorter scan_split split: option.splits if_splits)

function lexText :: "string \<Rightarrow> jtoken list option" where
  "lexText [] = Some []"
| "lexText (c # s) =
     (if jsonSpace c then lexText s
      else case lexToken c s of
        None \<Rightarrow> None
      | Some (t, r) \<Rightarrow> map_option ((#) t) (lexText r))"
  by pat_completeness auto
termination by (relation "measure length") (auto dest: lexToken_shorter)

declare lexText.simps(2) [simp del]

section \<open>Values\<close>

text \<open>Strings and the keys of objects are the bodies of their literals, numbers their text.\<close>

datatype json = JNull | JBool bool | JNum string | JStr string | JArr "json list" | JObj "(string \<times> json) list"

text \<open>
  The scanner keeps a stack of open arrays and objects (at most 10000 deep) and knows what may come
  next; here the stack also holds the values read so far, in reverse.
\<close>

datatype pframe = FArr "json list" | FObj "(string \<times> json) list" | FKey string "(string \<times> json) list"

datatype pmode = Want | WantOrEnd | WantKey | WantKeyOrEnd | WantColon string | Got json

definition maxNestingDepth :: nat where
  "maxNestingDepth = 10000"

fun beginValue :: "jtoken \<Rightarrow> pframe list \<Rightarrow> (pmode \<times> pframe list) option" where
  "beginValue TTrue st = Some (Got (JBool True), st)"
| "beginValue TFalse st = Some (Got (JBool False), st)"
| "beginValue TNull st = Some (Got JNull, st)"
| "beginValue (TNum n) st = Some (Got (JNum n), st)"
| "beginValue (TStr b) st = Some (Got (JStr b), st)"
| "beginValue LBrack st = (if length st < maxNestingDepth then Some (WantOrEnd, FArr [] # st) else None)"
| "beginValue LBrace st = (if length st < maxNestingDepth then Some (WantKeyOrEnd, FObj [] # st) else None)"
| "beginValue t st = None"

fun endValue :: "jtoken \<Rightarrow> json \<Rightarrow> pframe list \<Rightarrow> (pmode \<times> pframe list) option" where
  "endValue Comma v (FArr vs # st) = Some (Want, FArr (v # vs) # st)"
| "endValue RBrack v (FArr vs # st) = Some (Got (JArr (rev (v # vs))), st)"
| "endValue Comma v (FKey k kvs # st) = Some (WantKey, FObj ((k, v) # kvs) # st)"
| "endValue RBrace v (FKey k kvs # st) = Some (Got (JObj (rev ((k, v) # kvs))), st)"
| "endValue t v st = None"

fun pstep :: "jtoken \<Rightarrow> pmode \<times> pframe list \<Rightarrow> (pmode \<times> pframe list) option" where
  "pstep t (Want, st) = beginValue t st"
| "pstep t (WantOrEnd, st) = (case (t, st) of (RBrack, FArr vs # st') \<Rightarrow> Some (Got (JArr []), st') | _ \<Rightarrow> beginValue t st)"
| "pstep t (WantKey, st) = (case t of TStr k \<Rightarrow> Some (WantColon k, st) | _ \<Rightarrow> None)"
| "pstep t (WantKeyOrEnd, st) =
     (case (t, st) of
        (RBrace, FObj kvs # st') \<Rightarrow> Some (Got (JObj []), st')
      | (TStr k, _) \<Rightarrow> Some (WantColon k, st)
      | _ \<Rightarrow> None)"
| "pstep t (WantColon k, st) = (case (t, st) of (Colon, FObj kvs # st') \<Rightarrow> Some (Want, FKey k kvs # st') | _ \<Rightarrow> None)"
| "pstep t (Got v, st) = endValue t v st"

fun psteps :: "jtoken list \<Rightarrow> pmode \<times> pframe list \<Rightarrow> (pmode \<times> pframe list) option" where
  "psteps [] c = Some c"
| "psteps (t # ts) c = (case pstep t c of None \<Rightarrow> None | Some c' \<Rightarrow> psteps ts c')"

definition parseTokens :: "jtoken list \<Rightarrow> json option" where
  "parseTokens ts = (case psteps ts (Want, []) of Some (Got v, []) \<Rightarrow> Some v | _ \<Rightarrow> None)"

definition parseJSON :: "string \<Rightarrow> json option" where
  "parseJSON s = (case lexText s of None \<Rightarrow> None | Some ts \<Rightarrow> parseTokens ts)"

section \<open>Encoding\<close>

fun tokText :: "jtoken \<Rightarrow> string" where
  "tokText LBrace = ''{''" | "tokText RBrace = ''}''" | "tokText LBrack = ''[''" | "tokText RBrack = '']''"
| "tokText Colon = '':''" | "tokText Comma = '',''"
| "tokText TTrue = ''true''" | "tokText TFalse = ''false''" | "tokText TNull = ''null''"
| "tokText (TNum n) = n"
| "tokText (TStr b) = quot # b @ [quot]"

fun commaToks :: "jtoken list list \<Rightarrow> jtoken list" where
  "commaToks [] = []"
| "commaToks [x] = x"
| "commaToks (x # y # ys) = x @ Comma # commaToks (y # ys)"

fun jtoks :: "json \<Rightarrow> jtoken list" where
  "jtoks JNull = [TNull]"
| "jtoks (JBool b) = [if b then TTrue else TFalse]"
| "jtoks (JNum n) = [TNum n]"
| "jtoks (JStr b) = [TStr b]"
| "jtoks (JArr vs) = LBrack # commaToks (map jtoks vs) @ [RBrack]"
| "jtoks (JObj kvs) = LBrace # commaToks (map (\<lambda>(k, v). TStr k # Colon # jtoks v) kvs) @ [RBrace]"

text \<open>What the encoder accepts as a raw message: valid tokens, not nested too deeply.\<close>

fun jsonOK :: "nat \<Rightarrow> json \<Rightarrow> bool" where
  "jsonOK d JNull \<longleftrightarrow> True"
| "jsonOK d (JBool b) \<longleftrightarrow> True"
| "jsonOK d (JNum n) \<longleftrightarrow> isNumber n"
| "jsonOK d (JStr b) \<longleftrightarrow> rawOK b"
| "jsonOK d (JArr vs) \<longleftrightarrow> 0 < d \<and> (\<forall>v \<in> set vs. jsonOK (d - 1) v)"
| "jsonOK d (JObj kvs) \<longleftrightarrow> 0 < d \<and> (\<forall>(k, v) \<in> set kvs. rawOK k \<and> jsonOK (d - 1) v)"

fun escJSON :: "json \<Rightarrow> json" where
  "escJSON JNull = JNull"
| "escJSON (JBool b) = JBool b"
| "escJSON (JNum n) = JNum n"
| "escJSON (JStr b) = JStr (escHTML b)"
| "escJSON (JArr vs) = JArr (map escJSON vs)"
| "escJSON (JObj kvs) = JObj (map (\<lambda>(k, v). (escHTML k, escJSON v)) kvs)"

definition textJSON :: "json \<Rightarrow> string" where
  "textJSON v = concat (map tokText (jtoks v))"

text \<open>What a value stands for: the strings are decoded.\<close>

fun denJSON :: "json \<Rightarrow> json" where
  "denJSON JNull = JNull"
| "denJSON (JBool b) = JBool b"
| "denJSON (JNum n) = JNum n"
| "denJSON (JStr b) = JStr (unquote b)"
| "denJSON (JArr vs) = JArr (map denJSON vs)"
| "denJSON (JObj kvs) = JObj (map (\<lambda>(k, v). (unquote k, denJSON v)) kvs)"

lemma jsonOK_escJSON: "jsonOK d v \<Longrightarrow> jsonOK d (escJSON v)"
  by (induction v arbitrary: d) (auto simp: rawOK_iff raw_escHTML)

lemma den_escJSON: "jsonOK d v \<Longrightarrow> denJSON (escJSON v) = denJSON v"
  by (induction v arbitrary: d) (fastforce simp: rawOK_iff unquote_escHTML)+

section \<open>What is encoded decodes\<close>

lemma toks_head: "\<exists>t ts. jtoks v = t # ts \<and> t \<noteq> RBrack"
  by (cases v) auto

lemma psteps_WantOrEnd: "psteps (jtoks v @ ts) (WantOrEnd, st) = psteps (jtoks v @ ts) (Want, st)"
proof -
  obtain t ts' where "jtoks v = t # ts'" "t \<noteq> RBrack" using toks_head by blast
  then show ?thesis by (auto split: jtoken.splits)
qed

text \<open>Elements and members, each read as the induction hypothesis says.\<close>

lemma psteps_elements:
  assumes "\<And>v ts st'. v \<in> set (w # vs) \<Longrightarrow> length st' = Suc (length st) \<Longrightarrow>
      psteps (jtoks v @ ts) (Want, st') = psteps ts (Got v, st')"
  shows "psteps (commaToks (map jtoks (w # vs)) @ RBrack # ts) (Want, FArr acc # st) = psteps ts (Got (JArr (rev acc @ w # vs)), st)"
  using assms
proof (induction vs arbitrary: w acc)
  case (Cons u vs)
  have "psteps (jtoks w @ Comma # commaToks (map jtoks (u # vs)) @ RBrack # ts) (Want, FArr acc # st) =
      psteps (commaToks (map jtoks (u # vs)) @ RBrack # ts) (Want, FArr (w # acc) # st)"
    using Cons.prems [of w "FArr acc # st"] by simp
  also have "\<dots> = psteps ts (Got (JArr (rev (w # acc) @ u # vs)), st)"
    by (rule Cons.IH) (use Cons.prems in auto)
  finally show ?case by simp
qed simp

abbreviation memberToks :: "string \<times> json \<Rightarrow> jtoken list" where
  "memberToks kv \<equiv> TStr (fst kv) # Colon # jtoks (snd kv)"

lemma psteps_members:
  assumes "\<And>v ts st'. v \<in> snd ` set (w # kvs) \<Longrightarrow> length st' = Suc (length st) \<Longrightarrow>
      psteps (jtoks v @ ts) (Want, st') = psteps ts (Got v, st')"
    and "m = WantKey \<or> m = WantKeyOrEnd"
  shows "psteps (commaToks (map memberToks (w # kvs)) @ RBrace # ts) (m, FObj acc # st) = psteps ts (Got (JObj (rev acc @ w # kvs)), st)"
  using assms
proof (induction kvs arbitrary: w acc m)
  case Nil
  then show ?case using Nil.prems(1) [of "snd w" "FKey (fst w) acc # st"] by auto
next
  case (Cons u kvs)
  have "psteps (memberToks w @ Comma # commaToks (map memberToks (u # kvs)) @ RBrace # ts) (m, FObj acc # st) =
      psteps (commaToks (map memberToks (u # kvs)) @ RBrace # ts) (WantKey, FObj (w # acc) # st)"
    using Cons.prems(1) [of "snd w" "FKey (fst w) acc # st"] Cons.prems(2) by auto
  also have "\<dots> = psteps ts (Got (JObj (rev (w # acc) @ u # kvs)), st)"
    by (rule Cons.IH) (use Cons.prems in auto)
  finally show ?case by simp
qed

lemma toks_JObj: "jtoks (JObj kvs) = LBrace # commaToks (map memberToks kvs) @ [RBrace]"
  by (simp add: split_def)

lemma psteps_toks:
  "jsonOK d v \<Longrightarrow> length st + d \<le> maxNestingDepth \<Longrightarrow> psteps (jtoks v @ ts) (Want, st) = psteps ts (Got v, st)"
proof (induction v arbitrary: d st ts)
  case (JArr vs)
  show ?case
  proof (cases vs)
    case Nil
    with JArr.prems show ?thesis by simp
  next
    case (Cons w ws)
    have "psteps (commaToks (map jtoks (w # ws)) @ RBrack # ts) (Want, FArr [] # st) = psteps ts (Got (JArr (rev [] @ w # ws)), st)"
      by (rule psteps_elements, rule JArr.IH [of _ "d - 1"]) (use JArr.prems Cons in auto)
    moreover have "commaToks (map jtoks (w # ws)) @ RBrack # ts = jtoks w @ drop (length (jtoks w)) (commaToks (map jtoks (w # ws)) @ RBrack # ts)"
      by (cases ws) auto
    then have "psteps (commaToks (map jtoks (w # ws)) @ RBrack # ts) (WantOrEnd, FArr [] # st) =
        psteps (commaToks (map jtoks (w # ws)) @ RBrack # ts) (Want, FArr [] # st)"
      using psteps_WantOrEnd by metis
    ultimately show ?thesis using JArr.prems Cons by simp
  qed
next
  case (JObj kvs)
  show ?case
  proof (cases kvs)
    case Nil
    with JObj.prems show ?thesis by simp
  next
    case (Cons w ws)
    have IH: "psteps (jtoks v @ ts) (Want, st') = psteps ts (Got v, st')"
      if "v \<in> snd ` set (w # ws)" "length st' = Suc (length st)" for v ts st'
    proof -
      from that(1) obtain k where kv: "(k, v) \<in> set kvs" using Cons by force
      with JObj.prems have "jsonOK (d - 1) v" by auto
      then show ?thesis using JObj.prems that(2) by (intro JObj.IH [OF kv, of v "d - 1"]) auto
    qed
    have "psteps (commaToks (map memberToks (w # ws)) @ RBrace # ts) (WantKeyOrEnd, FObj [] # st) =
        psteps ts (Got (JObj (rev [] @ w # ws)), st)"
      by (rule psteps_members [OF IH]) auto
    then show ?thesis using JObj.prems Cons by (simp add: split_def)
  qed
qed auto

lemma parseTokens_toks: "jsonOK maxNestingDepth v \<Longrightarrow> parseTokens (jtoks v) = Some v"
  using psteps_toks [of maxNestingDepth v "[]" "[]"] by (simp add: parseTokens_def)

fun tokOK :: "jtoken \<Rightarrow> bool" where
  "tokOK (TNum n) \<longleftrightarrow> isNumber n"
| "tokOK (TStr b) \<longleftrightarrow> rawOK b"
| "tokOK t \<longleftrightarrow> True"

fun isNum :: "jtoken \<Rightarrow> bool" where
  "isNum (TNum n) \<longleftrightarrow> True"
| "isNum t \<longleftrightarrow> False"

text \<open>No number next to a number.\<close>

definition apartNums :: "jtoken list \<Rightarrow> bool" where
  "apartNums ts \<longleftrightarrow> successively (\<lambda>a b. \<not> (isNum a \<and> isNum b)) ts"

lemma apartNums_simps [simp]:
  "apartNums []" "apartNums [t]"
  "\<not> isNum t \<Longrightarrow> apartNums (t # ts) \<longleftrightarrow> apartNums ts"
  "\<not> isNum t \<Longrightarrow> apartNums (xs @ t # ts) \<longleftrightarrow> apartNums xs \<and> apartNums ts"
  by (auto simp: apartNums_def successively_append_iff successively_Cons)

lemma apartNums_commas: "(\<And>x. x \<in> set xs \<Longrightarrow> apartNums x) \<Longrightarrow> apartNums (commaToks xs)"
  by (induction xs rule: commaToks.induct) auto

lemma apartNums_toks: "apartNums (jtoks v)"
  by (induction v) (fastforce intro!: apartNums_commas)+

lemma tokOK_commas: "(\<And>x. x \<in> set xs \<Longrightarrow> list_all tokOK x) \<Longrightarrow> list_all tokOK (commaToks xs)"
  by (induction xs rule: commaToks.induct) auto

lemma tokOK_toks: "jsonOK d v \<Longrightarrow> list_all tokOK (jtoks v)"
  by (induction v arbitrary: d) (fastforce intro!: tokOK_commas)+

lemma isDigit_0: "isDigit (CHR ''0'')"
  by (simp add: isDigit_def)

lemma not_digits:
  "\<not> isDigit (CHR '' '')" "\<not> isDigit (CHR 0x09)" "\<not> isDigit (CHR 0x0A)" "\<not> isDigit (CHR 0x0D)" "\<not> isDigit quot"
  "\<not> isDigit (CHR ''{'')" "\<not> isDigit (CHR ''}'')" "\<not> isDigit (CHR ''['')" "\<not> isDigit (CHR '']'')" "\<not> isDigit (CHR '':'')"
  "\<not> isDigit (CHR '','')" "\<not> isDigit (CHR ''t'')" "\<not> isDigit (CHR ''f'')" "\<not> isDigit (CHR ''n'')"
  by (simp_all add: isDigit_def)

lemma numRun_chars: "numRun st s \<Longrightarrow> c \<in> set s \<Longrightarrow> numChar c"
proof (induction s arbitrary: st)
  case (Cons d s)
  have "numChar d" if "numStep st d \<noteq> None"
    using that isDigit_0 by (cases st) (auto simp: numChar_def split: if_splits)
  with Cons show ?case by (auto split: option.splits)
qed simp

lemma isNumber_head: "isNumber n \<Longrightarrow> \<exists>c m. n = c # m \<and> (isDigit c \<or> c = CHR ''-'')"
  by (cases n) (auto simp: isNumber_def isDigit_def split: option.splits if_splits)

lemma digit_plain: "isDigit c \<or> c = CHR ''-'' \<Longrightarrow> \<not> jsonSpace c \<and> punct c = None \<and> c \<noteq> quot \<and>
    c \<noteq> CHR ''t'' \<and> c \<noteq> CHR ''f'' \<and> c \<noteq> CHR ''n''"
  using not_digits by (auto simp: jsonSpace_def punct_def)

lemma lex_tok:
  assumes "tokOK t" and "isNum t \<Longrightarrow> rest = [] \<or> \<not> numChar (hd rest)"
  shows "lexText (tokText t @ rest) = map_option ((#) t) (lexText rest)"
proof (cases t)
  case (TNum n)
  then obtain c m where c: "n = c # m" "isDigit c \<or> c = CHR ''-''" using assms(1) isNumber_head [of n] by auto
  have "\<And>x. x \<in> set n \<Longrightarrow> numChar x" using TNum assms(1) numRun_chars by (auto simp: isNumber_def)
  moreover have "takeWhile numChar rest = []" using TNum assms(2) by (cases rest) auto
  ultimately have "takeWhile numChar (n @ rest) = n" "dropWhile numChar (n @ rest) = rest"
    using TNum assms(2) by (simp_all add: takeWhile_append2 dropWhile_append2 takeWhile_eq_Nil_iff)
      (cases rest; auto)
  then have "lexWord (c # m @ rest) = Some (t, rest)"
    using digit_plain [OF c(2)] TNum assms(1) by (simp add: lexWord_def HasPrefix_def c(1))
  then show ?thesis using TNum c(1) digit_plain [OF c(2)] by (simp add: lexText.simps lexToken_def)
next
  case (TStr b)
  then show ?thesis
    using assms(1) scan_raw [of b rest] by (simp add: lexText.simps lexToken_def punct_def jsonSpace_def rawOK_iff)
qed (simp_all add: lexText.simps lexToken_def punct_def jsonSpace_def lexWord_def HasPrefix_def)

lemma tokText_head: "tokOK t \<Longrightarrow> \<not> isNum t \<Longrightarrow> \<exists>c s. tokText t = c # s \<and> \<not> numChar c"
  by (cases t) (auto simp: numChar_def isDigit_def)

lemma lex_text: "list_all tokOK ts \<Longrightarrow> apartNums ts \<Longrightarrow> lexText (concat (map tokText ts)) = Some ts"
proof (induction ts)
  case (Cons t ts)
  have "apartNums ts" using Cons.prems(2) by (cases ts) (auto simp: apartNums_def)
  moreover have "concat (map tokText ts) = [] \<or> \<not> numChar (hd (concat (map tokText ts)))" if "isNum t"
  proof (cases ts)
    case (Cons u us)
    then have "\<not> isNum u" "tokOK u" using Cons.prems that \<open>list_all tokOK (t # ts)\<close> \<open>apartNums (t # ts)\<close> by (auto simp: apartNums_def)
    with Cons show ?thesis using tokText_head [of u] by auto
  qed simp
  ultimately show ?case using Cons by (simp add: lex_tok)
qed simp

lemma parse_text: "jsonOK maxNestingDepth v \<Longrightarrow> parseJSON (textJSON v) = Some v"
  by (simp add: parseJSON_def textJSON_def lex_text tokOK_toks apartNums_toks parseTokens_toks)

section \<open>What is decoded is well-formed\<close>

lemma lexToken_OK: "lexToken c s = Some (t, r) \<Longrightarrow> tokOK t"
  by (auto simp: lexToken_def lexWord_def punct_def rawOK_iff dest: scan_split split: option.splits if_splits)

lemma lex_OK: "lexText s = Some ts \<Longrightarrow> list_all tokOK ts"
proof (induction s arbitrary: ts rule: lexText.induct)
  case (2 c s)
  then show ?case
    using lexToken_OK by (fastforce simp: lexText.simps split: if_splits option.splits)
qed simp

fun frameOK :: "nat \<Rightarrow> pframe \<Rightarrow> bool" where
  "frameOK d (FArr vs) \<longleftrightarrow> list_all (jsonOK d) vs"
| "frameOK d (FObj kvs) \<longleftrightarrow> list_all (\<lambda>(k, v). rawOK k \<and> jsonOK d v) kvs"
| "frameOK d (FKey k kvs) \<longleftrightarrow> rawOK k \<and> list_all (\<lambda>(k, v). rawOK k \<and> jsonOK d v) kvs"

fun framesOK :: "pframe list \<Rightarrow> bool" where
  "framesOK [] \<longleftrightarrow> True"
| "framesOK (f # st) \<longleftrightarrow> length st < maxNestingDepth \<and> frameOK (maxNestingDepth - Suc (length st)) f \<and> framesOK st"

fun modeOK :: "pframe list \<Rightarrow> pmode \<Rightarrow> bool" where
  "modeOK st (Got v) \<longleftrightarrow> jsonOK (maxNestingDepth - length st) v"
| "modeOK st (WantColon k) \<longleftrightarrow> rawOK k"
| "modeOK st m \<longleftrightarrow> True"

lemma beginValue_OK: "beginValue t st = Some (m, st') \<Longrightarrow> tokOK t \<Longrightarrow> framesOK st \<Longrightarrow> modeOK st' m \<and> framesOK st'"
  by (cases t) (auto split: if_splits)

lemma endValue_OK:
  "endValue t v st = Some (m, st') \<Longrightarrow> jsonOK (maxNestingDepth - length st) v \<Longrightarrow> framesOK st \<Longrightarrow> modeOK st' m \<and> framesOK st'"
  by (cases "(t, v, st)" rule: endValue.cases) (auto simp: list_all_iff)

lemma pstep_OK:
  assumes "pstep t (m, st) = Some (m', st')" and "tokOK t" and "modeOK st m" and "framesOK st"
  shows "modeOK st' m' \<and> framesOK st'"
proof (cases m)
  case WantOrEnd
  then show ?thesis
    using assms beginValue_OK [of t st m' st'] by (auto split: jtoken.splits list.splits pframe.splits)
qed (use assms beginValue_OK endValue_OK in \<open>auto split: jtoken.splits list.splits pframe.splits\<close>)

lemma psteps_OK:
  "psteps ts (m, st) = Some (m', st') \<Longrightarrow> list_all tokOK ts \<Longrightarrow> modeOK st m \<Longrightarrow> framesOK st \<Longrightarrow> modeOK st' m' \<and> framesOK st'"
proof (induction ts arbitrary: m st)
  case (Cons t ts)
  then obtain m1 st1 where "pstep t (m, st) = Some (m1, st1)" "psteps ts (m1, st1) = Some (m', st')"
    by (auto split: option.splits)
  with Cons pstep_OK [of t m st m1 st1] show ?case by simp
qed simp

lemma parse_OK: "parseJSON s = Some v \<Longrightarrow> jsonOK maxNestingDepth v"
  using lex_OK [of s] psteps_OK [of "the (lexText s)" Want "[]"]
  by (auto simp: parseJSON_def parseTokens_def split: option.splits pmode.splits list.splits)

section \<open>Decoding and encoding of maps\<close>

datatype jsonError = SyntaxError | UnmarshalTypeError | MarshalerError

definition putField :: "string \<times> json \<Rightarrow> (string \<times> json) list \<Rightarrow> (string \<times> json) list" where
  "putField kv m = AList.update (unquote (fst kv)) (snd kv) m"

text \<open>
  \<open>json.Unmarshal\<close> into a \<open>map[string]json.RawMessage\<close>, as an association list: \<open>null\<close> leaves the map nil,
  of equal keys the last counts.
\<close>

definition unmarshalMap :: "string \<Rightarrow> jsonError + (string \<times> json) list option" where
  "unmarshalMap body =
     (case parseJSON body of
        None \<Rightarrow> Inl SyntaxError
      | Some JNull \<Rightarrow> Inr None
      | Some (JObj kvs) \<Rightarrow> Inr (Some (fold putField kvs []))
      | Some v \<Rightarrow> Inl UnmarshalTypeError)"

text \<open>\<open>json.Marshal\<close> of such a map: keys sorted and quoted, raw messages checked and compacted.\<close>

definition marshalMap :: "(string \<times> json) list \<Rightarrow> jsonError + string" where
  "marshalMap m =
     (if list_all (\<lambda>(k, v). jsonOK maxNestingDepth v) m
      then Inr (''{'' @ Join (map (\<lambda>(k, v). jsonField k (textJSON (escJSON v))) (sort_key fst m)) '','' @ ''}'')
      else Inl MarshalerError)"

text \<open>
  \<open>json.Unmarshal\<close> into a struct with the field \<open>model\<close>, a string: names match without regard to case,
  \<open>null\<close> and values of another type leave the field as it is.
\<close>

definition setModel :: "string \<times> json \<Rightarrow> string \<Rightarrow> string" where
  "setModel kv m = (if ToLower (unquote (fst kv)) = ''model'' then (case snd kv of JStr b \<Rightarrow> unquote b | _ \<Rightarrow> m) else m)"

definition unmarshalModel :: "string \<Rightarrow> string" where
  "unmarshalModel body = (case parseJSON body of Some (JObj kvs) \<Rightarrow> fold setModel kvs [] | _ \<Rightarrow> [])"

text \<open>The fields of an object as the program sees them: decoded, and of equal keys the last.\<close>

definition fieldsOf :: "(string \<times> json) list \<Rightarrow> string \<rightharpoonup> json" where
  "fieldsOf kvs = map_of (rev (map (\<lambda>(k, v). (unquote k, denJSON v)) kvs))"

lemma fields_put:
  "map_of (map (\<lambda>(k, v). (k, denJSON v)) (fold putField kvs m)) = map_of (map (\<lambda>(k, v). (k, denJSON v)) m) ++ fieldsOf kvs"
proof (induction kvs arbitrary: m)
  case (Cons kv kvs)
  have upd: "map_of (map (\<lambda>(k, v). (k, denJSON v)) (AList.update k v m)) = (map_of (map (\<lambda>(k, v). (k, denJSON v)) m))(k \<mapsto> denJSON v)" for k v
    by (induction m) auto
  have "fieldsOf (kv # kvs) = [unquote (fst kv) \<mapsto> denJSON (snd kv)] ++ fieldsOf kvs"
    by (cases kv) (simp add: fieldsOf_def map_add_def fun_eq_iff split: option.split)
  then show ?case using Cons.IH by (simp add: putField_def upd) (simp add: map_add_def fun_eq_iff split: option.split)
qed (simp add: fieldsOf_def)

lemma put_distinct: "distinct (map fst m) \<Longrightarrow> distinct (map fst (fold putField kvs m))"
  by (induction kvs arbitrary: m) (auto simp: putField_def distinct_update)

lemma update_set: "(a, b) \<in> set (AList.update k v m) \<Longrightarrow> (a, b) = (k, v) \<or> (a, b) \<in> set m"
  by (induction m) (auto split: if_splits)

lemma put_all:
  assumes "\<And>k v. (k, v) \<in> set kvs \<Longrightarrow> P (unquote k) v" and "\<And>k v. (k, v) \<in> set m \<Longrightarrow> P k v"
  shows "(k, v) \<in> set (fold putField kvs m) \<Longrightarrow> P k v"
  using assms
proof (induction kvs arbitrary: m)
  case (Cons kv kvs)
  have "P k' v'" if "(k', v') \<in> set (putField kv m)" for k' v'
  proof -
    have "(k', v') = (unquote (fst kv), snd kv) \<or> (k', v') \<in> set m"
      using that unfolding putField_def by (rule update_set)
    then show ?thesis using Cons.prems(2) [of "fst kv" "snd kv"] Cons.prems(3) by auto
  qed
  then show ?case using Cons by simp
qed simp

lemma Join_commas: "Join (map (\<lambda>x. concat (map tokText x)) xs) '','' = concat (map tokText (commaToks xs))"
  by (induction xs rule: commaToks.induct) auto

lemma marshalMap_text:
  assumes "list_all (\<lambda>(k, v). jsonOK maxNestingDepth v) m"
  shows "marshalMap m = Inr (textJSON (JObj (map (\<lambda>(k, v). (quoteBody k, escJSON v)) (sort_key fst m))))"
proof -
  have "jsonField k (textJSON v) = concat (map tokText (TStr (quoteBody k) # Colon # jtoks v))" for k v
    by (simp add: jsonField_def jsonString_def textJSON_def)
  then show ?thesis
    using assms Join_commas [of "map (\<lambda>(k, v). TStr (quoteBody k) # Colon # jtoks (escJSON v)) (sort_key fst m)"]
    by (simp add: marshalMap_def textJSON_def comp_def split_def)
qed

lemma marshal_unmarshal:
  assumes "distinct (map fst m)" and "\<And>k v. (k, v) \<in> set m \<Longrightarrow> jsonOK (maxNestingDepth - 1) v \<and> toValid k = k"
  shows "\<exists>out kvs. marshalMap m = Inr out \<and> parseJSON out = Some (JObj kvs) \<and>
    fieldsOf kvs = map_of (map (\<lambda>(k, v). (k, denJSON v)) m) \<and> sorted (map (unquote \<circ> fst) kvs) \<and> distinct (map (unquote \<circ> fst) kvs)"
proof -
  let ?kvs = "map (\<lambda>(k, v). (quoteBody k, escJSON v)) (sort_key fst m)"
  have mono: "jsonOK d v \<Longrightarrow> d \<le> e \<Longrightarrow> jsonOK e v" for d e v
    by (induction v arbitrary: d e) (fastforce dest: diff_le_mono [of _ _ 1])+
  have "list_all (\<lambda>(k, v). jsonOK maxNestingDepth v) m"
    using assms(2) mono by (fastforce simp: list_all_iff)
  moreover have "jsonOK maxNestingDepth (JObj ?kvs)"
    using assms(2) by (auto simp: maxNestingDepth_def rawOK_iff raw_quoteBody intro!: jsonOK_escJSON)
  moreover have keys: "map (unquote \<circ> fst) ?kvs = map fst (sort_key fst m)"
    using assms(2) by (auto simp: unquote_quoteBody)
  moreover have "map (\<lambda>(k, v). (unquote k, denJSON v)) ?kvs = map (\<lambda>(k, v). (k, denJSON v)) (sort_key fst m)"
    using assms(2) by (auto simp: unquote_quoteBody intro: den_escJSON [of "maxNestingDepth - 1"])
  then have f: "fieldsOf ?kvs = map_of (rev (map (\<lambda>(k, v). (k, denJSON v)) (sort_key fst m)))"
    by (simp only: fieldsOf_def)
  have fst_den: "map fst (map (\<lambda>(k, v). (k, denJSON v)) xs) = map fst xs" for xs :: "(string \<times> json) list"
    by auto
  have "distinct (map fst (sort_key fst m))" using assms(1) by (simp add: distinct_map)
  note dist = this
  then have "distinct (map fst (rev (map (\<lambda>(k, v). (k, denJSON v)) (sort_key fst m))))"
    by (simp only: rev_map [symmetric] distinct_rev fst_den)
  then have "fieldsOf ?kvs = map_of (map (\<lambda>(k, v). (k, denJSON v)) m)"
    unfolding f using assms(1) fst_den [of m] by (subst map_of_inject_set) (simp_all only: set_rev set_map set_sort)
  ultimately show ?thesis
    using parse_text [of "JObj ?kvs"] marshalMap_text [of m] dist
    by (intro exI [of _ "textJSON (JObj ?kvs)"] exI [of _ ?kvs]) (simp only: sorted_sort_key)
qed
text \<open>Evaluation on plain ASCII texts.\<close>

lemma quoteBody_ascii: "quoteBody [] = []" "byte c < 0x80 \<Longrightarrow> quoteBody (c # s) = escAscii c @ quoteBody s"
  using runes_append [OF validRune_ascii, of c s] by (auto simp: quoteBody_def runes.simps(1) quoteRune_def)

lemma unquote_ascii: "unquote [] = []" "byte c < 0x80 \<Longrightarrow> c \<noteq> bksl \<Longrightarrow> unquote (c # s) = c # unquote s"
  using unquote_valid_append [OF validRune_ascii, of c s] by (auto simp: unquote.simps(1))

end
