(* ===== verification/Engine_KV.thy ===== *)
theory Engine_KV
  imports Providers Json "HOL-Library.Word"
begin

unbundle bit_operations_syntax

text \<open>
  \<open>pkg/engine\<close> with \<open>pkg/engine/vllm\<close>, and \<open>pkg/kv\<close> with its providers \<open>null\<close> and \<open>lmcache\<close>:
  rendering the pod of a replica, the registries, and the FNV-1a fingerprint of a token prefix on
  64-bit words.
\<close>

section \<open>pkg/engine\<close>

record NodeProfile =
  np_PinnedMemoryGiB :: float64
  np_NVMeCacheDir :: string

record PodPatch =
  pp_Containers :: "Container list"
  pp_InitContainers :: "Container list"
  pp_Env :: "EnvVar list"
  pp_Volumes :: "Volume list"
  pp_VolumeMounts :: "VolumeMount list"

definition zeroPatch :: PodPatch where
  "zeroPatch = \<lparr>pp_Containers = [], pp_InitContainers = [], pp_Env = [], pp_Volumes = [], pp_VolumeMounts = []\<rparr>"

section \<open>pkg/engine/vllm\<close>

record VllmEngine =
  ve_Image :: string

definition EngineName :: string where
  "EngineName = ''vllm''"

definition defaultPort :: int where
  "defaultPort = 8000"

definition vllm_New :: "string \<Rightarrow> VllmEngine" where
  "vllm_New img = \<lparr>ve_Image = (if img = [] then ''vllm/vllm-openai:latest'' else img)\<rparr>"

definition vllm_Name :: "VllmEngine \<Rightarrow> string" where
  "vllm_Name e = EngineName"

definition ServedModelID :: "VllmEngine \<Rightarrow> CodaEndpoint \<Rightarrow> string" where
  "ServedModelID e ep = ms_Source (eps_Model (ep_Spec ep))"

definition MetricsEndpoint :: "VllmEngine \<Rightarrow> string" where
  "MetricsEndpoint e = ''/metrics''"

definition ReadinessProbe :: "VllmEngine \<Rightarrow> Probe" where
  "ReadinessProbe e = \<lparr>prb_Path = ''/health'', prb_Port = defaultPort,
     prb_InitialDelaySeconds = 30, prb_PeriodSeconds = 10\<rparr>"

definition modelIDForServe :: "string \<Rightarrow> string" where
  "modelIDForServe source = TrimPrefix source ''hf://''"

definition literalEnv :: "string \<Rightarrow> string \<Rightarrow> EnvVar" where
  "literalEnv n v = \<lparr>ev_Name = n, ev_Value = v, ev_ValueFrom = None\<rparr>"

definition vllmArgs :: "CodaEndpoint \<Rightarrow> string list" where
  "vllmArgs ep =
     [''serve'', modelIDForServe (ms_Source (eps_Model (ep_Spec ep))),
      ''--host'', ''0.0.0.0'', ''--port'', Itoa defaultPort] @
     (if 1 < rs_GPU (eps_Resources (ep_Spec ep))
      then [''--tensor-parallel-size'', Itoa (rs_GPU (eps_Resources (ep_Spec ep)))] else []) @
     es_Args (eps_Engine (ep_Spec ep))"

definition RenderPodSpec :: "VllmEngine \<Rightarrow> CodaEndpoint \<Rightarrow> NodeProfile \<Rightarrow> PodPatch \<Rightarrow> goerror + PodSpec" where
  "RenderPodSpec e ep node kvPatch =
     (let args = vllmArgs ep;
          env = [literalEnv ''PYTHONHASHSEED'' ''0''] @ pp_Env kvPatch;
          real = \<not> Contains (ToLower (ve_Image e)) ''fakevllm'';
          container = \<lparr>ctr_Name = ''vllm'', ctr_Image = ve_Image e,
             ctr_Command = (if real then [''vllm''] else []), ctr_Args = (if real then args else []),
             ctr_Env = env, ctr_Ports = [\<lparr>cp_Name = ''http'', cp_ContainerPort = defaultPort\<rparr>],
             ctr_Limits = Map.empty, ctr_Requests = Map.empty,
             ctr_VolumeMounts = pp_VolumeMounts kvPatch, ctr_ReadinessProbe = Some (ReadinessProbe e)\<rparr>
      in Inr \<lparr>ps_Containers = [container] @ pp_Containers kvPatch, ps_InitContainers = pp_InitContainers kvPatch,
              ps_Volumes = pp_Volumes kvPatch, ps_NodeSelector = Map.empty, ps_Tolerations = [], ps_NodeName = []\<rparr>)"

definition ValidateEngineType :: "string \<Rightarrow> goerror option" where
  "ValidateEngineType t =
     (if ToLower t \<noteq> EngineName
      then Some (EMsg (''engine type '' @ Quote t @ '' not supported in v1 (only vllm)'')) else None)"

type_synonym EngineRegistry = "string \<rightharpoonup> VllmEngine"

definition EngineRegistry_Register :: "EngineRegistry \<Rightarrow> VllmEngine \<Rightarrow> EngineRegistry" where
  "EngineRegistry_Register r e = r(vllm_Name e \<mapsto> e)"

definition EngineRegistry_Get :: "EngineRegistry \<Rightarrow> string \<Rightarrow> VllmEngine option" where
  "EngineRegistry_Get r name = r name"

interpretation engreg: registry Map.empty EngineRegistry_Register EngineRegistry_Get vllm_Name
  by unfold_locales (simp_all add: EngineRegistry_Register_def EngineRegistry_Get_def)

section \<open>pkg/kv\<close>

record KVCapabilities =
  kvc_WarmRestore :: bool
  kvc_AffinityHints :: bool
  kvc_SharedRemoteTier :: bool
  kvc_TierSpill :: bool

record ReplicaRef =
  rep_Namespace :: string
  rep_Endpoint :: string
  rep_PodName :: string
  rep_NodeName :: string

text \<open>The values of the \<open>KVProvider\<close> interface: the null provider, and LMCache with its Garage endpoint.\<close>

datatype KVProvider = NullKV | LMCache string

definition null_ProviderName :: string where
  "null_ProviderName = ''null''"

definition lmcache_ProviderName :: string where
  "lmcache_ProviderName = ''lmcache''"

definition kv_Name :: "KVProvider \<Rightarrow> string" where
  "kv_Name p = (case p of NullKV \<Rightarrow> null_ProviderName | LMCache g \<Rightarrow> lmcache_ProviderName)"

definition null_Capabilities :: KVCapabilities where
  "null_Capabilities = \<lparr>kvc_WarmRestore = False, kvc_AffinityHints = False,
     kvc_SharedRemoteTier = False, kvc_TierSpill = False\<rparr>"

definition lmcache_Capabilities :: KVCapabilities where
  "lmcache_Capabilities = \<lparr>kvc_WarmRestore = True, kvc_AffinityHints = True,
     kvc_SharedRemoteTier = True, kvc_TierSpill = True\<rparr>"

definition kv_Capabilities :: "KVProvider \<Rightarrow> KVCapabilities" where
  "kv_Capabilities p = (case p of NullKV \<Rightarrow> null_Capabilities | LMCache g \<Rightarrow> lmcache_Capabilities)"

text \<open>Neither provider has work to do on a restore.\<close>

definition kv_OnRestore :: "KVProvider \<Rightarrow> ReplicaRef \<Rightarrow> goerror option" where
  "kv_OnRestore p replica = (case p of NullKV \<Rightarrow> None | LMCache g \<Rightarrow> None)"

type_synonym KVRegistry = "string \<rightharpoonup> KVProvider"

definition KVRegistry_Register :: "KVRegistry \<Rightarrow> KVProvider \<Rightarrow> KVRegistry" where
  "KVRegistry_Register r p = r(kv_Name p \<mapsto> p)"

definition KVRegistry_Get :: "KVRegistry \<Rightarrow> string \<Rightarrow> KVProvider option" where
  "KVRegistry_Get r name = r name"

interpretation kvreg: registry Map.empty KVRegistry_Register KVRegistry_Get kv_Name
  by unfold_locales (simp_all add: KVRegistry_Register_def KVRegistry_Get_def)

section \<open>pkg/kv/lmcache\<close>

definition mpPort :: int where
  "mpPort = 5555"

definition lmcacheImage :: string where
  "lmcacheImage = ''lmcache/standalone:v0.5.0''"

definition credentialsName :: string where
  "credentialsName = ''garage-s3-credentials''"

text \<open>The L2 adapter of the LMCache server as JSON, fields in the order of \<open>l2AdapterSpec\<close>.\<close>

definition l2JSON :: "string \<Rightarrow> bool \<Rightarrow> string" where
  "l2JSON s3Host disableTLS =
     ''{'' @ Join [jsonField ''type'' (jsonString ''s3''), jsonField ''s3_endpoint'' (jsonString s3Host),
        jsonField ''s3_region'' (jsonString ''us-east-1''),
        jsonField ''disable_tls'' (if disableTLS then ''true'' else ''false''),
        jsonField ''s3_prefer_http2'' ''false'', jsonField ''s3_enable_s3express'' ''false'',
        jsonField ''max_capacity_gb'' ''8'', jsonField ''aws_access_key_id'' (jsonString ''opencoda''),
        jsonField ''aws_secret_access_key'' (jsonString ''opencoda-garage-secret'')] '','' @ ''}''"

definition secretEnv :: "string \<Rightarrow> EnvVar" where
  "secretEnv n = \<lparr>ev_Name = n, ev_Value = [], ev_ValueFrom = Some (credentialsName, n, True)\<rparr>"

definition lmcache_RenderPodPatch :: "string \<Rightarrow> CodaEndpoint \<Rightarrow> NodeProfile \<Rightarrow> goerror + PodPatch" where
  "lmcache_RenderPodPatch garageEndpoint ep node =
     (case kv_LMCache (eps_KV (ep_Spec ep)) of
        None \<Rightarrow> Inr zeroPatch
      | Some lm \<Rightarrow>
          if \<not> lm_Enabled lm then Inr zeroPatch
          else
            let remoteEndpoint = (if rr_Endpoint (lm_RemoteRef lm) = [] then garageEndpoint
                                  else rr_Endpoint (lm_RemoteRef lm));
                bucket = (if rr_Bucket (lm_RemoteRef lm) = [] then ''coda-kv'' else rr_Bucket (lm_RemoteRef lm));
                s3Host = TrimPrefix (TrimPrefix remoteEndpoint ''http://'') ''https://'';
                l2 = l2JSON s3Host (HasPrefix remoteEndpoint ''http://'');
                lmcacheServer = \<lparr>ctr_Name = ''lmcache-server'', ctr_Image = lmcacheImage,
                   ctr_Command = [''lmcache'', ''server''],
                   ctr_Args = [''--host'', ''0.0.0.0'', ''--port'', Itoa mpPort, ''--l1-size-gb'', ''4'',
                      ''--eviction-policy'', ''LRU'', ''--l2-adapter'', l2],
                   ctr_Env = [literalEnv ''LMCACHE_CHUNK_SIZE'' ''256'', literalEnv ''PYTHONHASHSEED'' ''0'',
                      secretEnv ''AWS_ACCESS_KEY_ID'', secretEnv ''AWS_SECRET_ACCESS_KEY''],
                   ctr_Ports = [\<lparr>cp_Name = ''mp'', cp_ContainerPort = mpPort\<rparr>],
                   ctr_Limits = Map.empty, ctr_Requests = Map.empty, ctr_VolumeMounts = [],
                   ctr_ReadinessProbe = None\<rparr>;
                vllmEnv = [literalEnv ''PYTHONHASHSEED'' ''0'', literalEnv ''LMCACHE_CHUNK_SIZE'' ''256'',
                   literalEnv ''LMCACHE_REMOTE_URL'' (''s3://'' @ bucket), literalEnv ''LMCACHE_REMOTE_SERDE'' ''naive'']
            in Inr (zeroPatch\<lparr>pp_Containers := [lmcacheServer], pp_Env := vllmEnv\<rparr>))"

definition kv_RenderPodPatch :: "KVProvider \<Rightarrow> CodaEndpoint \<Rightarrow> NodeProfile \<Rightarrow> goerror + PodPatch" where
  "kv_RenderPodPatch p ep node =
     (case p of NullKV \<Rightarrow> Inr zeroPatch | LMCache g \<Rightarrow> lmcache_RenderPodPatch g ep node)"

subsection \<open>Fingerprint\<close>

text \<open>\<open>hash/fnv\<close>, 64-bit FNV-1a.\<close>

definition fnvOffset :: "64 word" where
  "fnvOffset = 14695981039346656037"

definition fnvPrime :: "64 word" where
  "fnvPrime = 1099511628211"

definition fnvByte :: "64 word \<Rightarrow> 8 word \<Rightarrow> 64 word" where
  "fnvByte h b = (h XOR ucast b) * fnvPrime"

definition fnvWrite :: "64 word \<Rightarrow> 8 word list \<Rightarrow> 64 word" where
  "fnvWrite h bs = foldl fnvByte h bs"

text \<open>\<open>byte(t >> k)\<close>: the arithmetic shift of a Go int, cut to eight bits.\<close>

definition tokenBytes :: "int \<Rightarrow> 8 word list" where
  "tokenBytes t = [word_of_int (drop_bit 24 t), word_of_int (drop_bit 16 t),
     word_of_int (drop_bit 8 t), word_of_int t]"

definition lmcache_Fingerprint :: "int list \<Rightarrow> 64 word \<times> bool" where
  "lmcache_Fingerprint tokens =
     (if tokens = [] then (0, False)
      else (foldl (\<lambda>h t. fnvWrite h (tokenBytes t)) fnvOffset tokens, True))"

definition null_Fingerprint :: "int list \<Rightarrow> 64 word \<times> bool" where
  "null_Fingerprint tokens = (0, False)"

definition kv_Fingerprint :: "KVProvider \<Rightarrow> int list \<Rightarrow> 64 word \<times> bool" where
  "kv_Fingerprint p tokens = (case p of NullKV \<Rightarrow> null_Fingerprint tokens | LMCache g \<Rightarrow> lmcache_Fingerprint tokens)"

section \<open>Properties of the fingerprint\<close>

text \<open>The prime is odd, so multiplying by it loses nothing: it has an inverse modulo \<open>2 ^ 64\<close>.\<close>

definition fnvPrimeInv :: "64 word" where
  "fnvPrimeInv = 14886173955864302971"

lemma fnvPrime_inverse: "fnvPrime * fnvPrimeInv = 1"
  by (simp add: fnvPrime_def fnvPrimeInv_def)

lemma fnvByte_inj: "fnvByte h b = fnvByte h' b \<longleftrightarrow> h = h'"
proof
  assume "fnvByte h b = fnvByte h' b"
  then have "(h XOR ucast b) * fnvPrime * fnvPrimeInv = (h' XOR ucast b) * fnvPrime * fnvPrimeInv"
    by (simp add: fnvByte_def)
  then have "(h XOR ucast b) XOR ucast b = (h' XOR ucast b) XOR ucast b"
    by (simp add: mult.assoc fnvPrime_inverse)
  then show "h = h'" by (simp add: xor.assoc)
qed simp

lemma fnvByte_last_inj:
  fixes b c :: "8 word"
  shows "fnvByte h b = fnvByte h c \<longleftrightarrow> b = c"
proof
  assume "fnvByte h b = fnvByte h c"
  then have "(h XOR ucast b) * fnvPrime * fnvPrimeInv = (h XOR ucast c) * fnvPrime * fnvPrimeInv"
    by (simp add: fnvByte_def)
  then have "h XOR (h XOR ucast b) = h XOR (h XOR ucast c)"
    by (simp add: mult.assoc fnvPrime_inverse)
  then have "(ucast b :: 64 word) = ucast c" by (simp add: xor.assoc [symmetric])
  then have "(ucast (ucast b :: 64 word) :: 8 word) = ucast (ucast c :: 64 word)" by simp
  then show "b = c" by (simp add: ucast_up_ucast_id is_up)
qed simp

lemma fnvWrite_inj: "fnvWrite h bs = fnvWrite h' bs \<longleftrightarrow> h = h'"
  by (induction bs arbitrary: h h') (simp_all add: fnvWrite_def fnvByte_inj)

lemma tokens_inj:
  "foldl (\<lambda>h t. fnvWrite h (tokenBytes t)) h ts = foldl (\<lambda>h t. fnvWrite h (tokenBytes t)) h' ts \<longleftrightarrow> h = h'"
  by (induction ts arbitrary: h h') (simp_all add: fnvWrite_inj)

text \<open>
  The fingerprint of a prefix decides the fingerprint of every continuation, and nothing else
  does: two non-empty prefixes have the same fingerprint exactly if they still have after the same
  tokens are appended to both, so appending tokens neither hides nor creates a collision.
\<close>
theorem fingerprint_continuation:
  assumes "xs \<noteq> []" and "ys \<noteq> []"
  shows "lmcache_Fingerprint (xs @ zs) = lmcache_Fingerprint (ys @ zs) \<longleftrightarrow>
    lmcache_Fingerprint xs = lmcache_Fingerprint ys"
  using assms by (simp add: lmcache_Fingerprint_def tokens_inj)

theorem fingerprint_continuation_witness:
  "lmcache_Fingerprint ([1] @ [7]) = lmcache_Fingerprint ([2] @ [7]) \<longleftrightarrow>
   lmcache_Fingerprint [1] = lmcache_Fingerprint [2]"
  by (rule fingerprint_continuation) simp_all

lemma tokenBytes_low: "tokenBytes (take_bit 32 t) = tokenBytes t"
  unfolding tokenBytes_def by (auto intro!: bit_word_eqI simp: bit_simps)

lemma drop_bit_256:
  assumes "0 \<le> a" and "a < 256"
  shows "drop_bit (8 + k) (256 * t + a) = drop_bit k (t :: int)"
proof -
  have "(256 * t + a) div 256 = t" using assms by simp
  then show ?thesis by (simp add: drop_bit_eq_div power_add zdiv_zmult2_eq)
qed

lemma tokenBytes_last:
  assumes "0 \<le> a" and "a < 256"
  shows "tokenBytes (256 * t + a) =
    [word_of_int (drop_bit 16 t), word_of_int (drop_bit 8 t), word_of_int t, word_of_int a]"
proof -
  have "(word_of_int (256 * t + a) :: 8 word) = word_of_int a"
    by (simp only: word_of_int_eq_iff take_bit_eq_mod) simp
  then show ?thesis
    using drop_bit_256 [OF assms, of 16 t] drop_bit_256 [OF assms, of 8 t] drop_bit_256 [OF assms, of 0 t]
    unfolding tokenBytes_def by simp
qed

text \<open>
  A fingerprint is given exactly for a non-empty prefix; it does not depend on the bits of a
  token above the 32nd; and two prefixes that differ in the lowest byte of the last token only
  always have different fingerprints.
\<close>
theorem fingerprint_tokens:
  assumes "0 \<le> a" and "a < 256" and "0 \<le> b" and "b < 256"
  shows "(snd (lmcache_Fingerprint xs) \<longleftrightarrow> xs \<noteq> []) \<and>
    lmcache_Fingerprint (map (take_bit 32) xs) = lmcache_Fingerprint xs \<and>
    (lmcache_Fingerprint (xs @ [256 * t + a]) = lmcache_Fingerprint (xs @ [256 * t + b]) \<longleftrightarrow> a = b)"
proof -
  have low: "foldl (\<lambda>h t. fnvWrite h (tokenBytes t)) h (map (take_bit 32) xs) =
      foldl (\<lambda>h t. fnvWrite h (tokenBytes t)) h xs" for h
    by (induction xs arbitrary: h) (simp_all add: tokenBytes_low)
  have "(word_of_int a :: 8 word) = word_of_int b \<longleftrightarrow> a = b"
    using assms by (simp add: word_of_int_eq_iff take_bit_eq_mod)
  then show ?thesis
    using assms low by (simp add: lmcache_Fingerprint_def tokenBytes_last fnvWrite_def fnvByte_last_inj)
qed

theorem fingerprint_tokens_witness:
  "lmcache_Fingerprint [3, 256 * 5 + 1] \<noteq> lmcache_Fingerprint [3, 256 * 5 + 2]"
  using fingerprint_tokens [of 1 2 "[3]" 5] by simp

end
