(* ===== verification/Endpoint_Controller.thy ===== *)
theory Endpoint_Controller
  imports Engine_KV
begin

text \<open>
  \<open>internal/controller/endpoint\<close>: the reconciler of a \<open>CodaEndpoint\<close>.  It decides the number of
  replicas from the gateway's annotation, counts the pods of the current and of older spec hashes,
  creates the missing pods, deletes the old generation once the new one is ready, and records cold
  start times.

  The memory of the reconciler, \<open>idleSince\<close> and \<open>coldSamples\<close>, extends the state.  The registries
  are those of \<open>NewReconciler\<close>, determined by the engine image and the Garage endpoint.
\<close>

section \<open>State\<close>

record ('w, 'e) epctl = "('w, 'e) sys" +
  idleSince :: "string \<rightharpoonup> gotime"
  coldSamples :: "string \<rightharpoonup> float64 list"

type_synonym ('w, 'z, 'a) eio = "(('w, event, 'z) epctl_scheme, 'a) state"

record EpConfig =
  ec_EngineImage :: string
  ec_GarageEndpoint :: string

definition Engines :: "EpConfig \<Rightarrow> EngineRegistry" where
  "Engines cfg = EngineRegistry_Register Map.empty (vllm_New (ec_EngineImage cfg))"

definition KVProviders :: "EpConfig \<Rightarrow> KVRegistry" where
  "KVProviders cfg = KVRegistry_Register (KVRegistry_Register Map.empty (LMCache (ec_GarageEndpoint cfg))) NullKV"

definition rolloutCondition :: string where
  "rolloutCondition = ''RolloutProgressing''"

definition epKey :: "CodaEndpoint \<Rightarrow> string" where
  "epKey ep = ep_Namespace ep @ ''/'' @ ep_Name ep"

section \<open>Hash and desired replicas\<close>

definition computeSpecHash :: "'w env \<Rightarrow> CodaEndpoint \<Rightarrow> string" where
  "computeSpecHash E ep =
     (let raw = es_Version (eps_Engine (ep_Spec ep)) @ ''|'' @ ms_Source (eps_Model (ep_Spec ep)) @ ''|'' @
                ms_Quantization (eps_Model (ep_Spec ep)) @ ''|'' @ Join (es_Args (eps_Engine (ep_Spec ep))) '',''
      in EncodeToString (take 8 (x_Sha256 E raw)))"

definition desiredReplicas :: "'w env \<Rightarrow> CodaEndpoint \<Rightarrow> ('w, 'z, int) eio" where
  "desiredReplicas E ep =
     (let key = epKey ep;
          minR = sc_MinReplicas (ep_Scaling ep);
          maxR = sc_MaxReplicas (ep_Scaling ep);
          otherwise = (if 0 < minR then minR else 0)
      in case om_Annotations (ep_Meta ep) AnnotationDesiredReplicas of
           None \<Rightarrow> ret otherwise
         | Some ann \<Rightarrow>
             (case Atoi ann of
                None \<Rightarrow> ret otherwise
              | Some n \<Rightarrow>
                  if n = 0 \<and> sc_ScaleToZeroAfter (ep_Scaling ep) \<noteq> [] then
                    (case ParseDuration (sc_ScaleToZeroAfter (ep_Scaling ep)) of
                       None \<Rightarrow> ret otherwise
                     | Some d \<Rightarrow> do {
                         m \<leftarrow> gets idleSince;
                         since \<leftarrow> (case m key of
                             Some t \<Rightarrow> ret t
                           | None \<Rightarrow> do {
                               t \<leftarrow> kNow E;
                               modify (idleSince_update (\<lambda>m. m(key \<mapsto> t)));
                               ret t
                             });
                         now \<leftarrow> kNow E;
                         ret (if Sub now since < d then minR else otherwise)
                       })
                  else do {
                    modify (idleSince_update (\<lambda>m. m(key := None)));
                    ret (if n < minR then minR else if maxR < n then maxR else n)
                  }))"

section \<open>Counting pods\<close>

fun countPods :: "string \<Rightarrow> string \<Rightarrow> Pod list \<Rightarrow> int \<times> int \<Rightarrow> int \<times> int" where
  "countPods specHash current [] (ready, tot) = (ready, tot)"
| "countPods specHash current (p # ps) (ready, tot) =
     (let podHash = pod_Annotation p AnnotationSpecHash
      in if specHash \<noteq> [] \<and> podHash \<noteq> specHash then countPods specHash current ps (ready, tot)
         else if specHash = [] \<and> podHash = current then countPods specHash current ps (ready, tot)
         else countPods specHash current ps (if podReady p then ready + 1 else ready, tot + 1))"

definition countReplicaPods :: "'w env \<Rightarrow> CodaEndpoint \<Rightarrow> string \<Rightarrow> ('w, 'z, int \<times> int) io" where
  "countReplicaPods E ep specHash =
     (let current = computeSpecHash E ep
      in do {
        r \<leftarrow> kListEndpointPods E (ep_Namespace ep) (ep_Name ep);
        ret (case r of Inl err \<Rightarrow> (0, 0) | Inr pods \<Rightarrow> countPods specHash current pods (0, 0))
      })"

definition setRolloutCondition :: "CodaEndpoint \<Rightarrow> int \<Rightarrow> int \<Rightarrow> int \<Rightarrow> gotime \<Rightarrow> CodaEndpoint" where
  "setRolloutCondition ep newReady oldReady desired now =
     (let (status, msg) = (if 0 < oldReady then (''True'', ''draining old generation'')
                           else if newReady < desired then (''True'', ''surging new generation'')
                           else (''False'', ''rollout complete''));
          cond = \<lparr>cond_Type = rolloutCondition, cond_Status = status, cond_Reason = ''RollingUpdate'',
                  cond_Message = msg, cond_LastTransitionTime = now\<rparr>
      in ep\<lparr>ep_Status := (ep_Status ep)\<lparr>ept_Conditions := [cond]\<rparr>\<rparr>)"

section \<open>Building a pod\<close>

definition lmcacheEnabled :: "CodaEndpoint \<Rightarrow> bool" where
  "lmcacheEnabled ep = (case kv_LMCache (eps_KV (ep_Spec ep)) of None \<Rightarrow> False | Some lm \<Rightarrow> lm_Enabled lm)"

text \<open>Without a null provider in the registry the result would be a nil interface, \<open>None\<close> here.\<close>

definition selectKV :: "EpConfig \<Rightarrow> CodaEndpoint \<Rightarrow> KVProvider option" where
  "selectKV cfg ep =
     (case (if lmcacheEnabled ep then KVRegistry_Get (KVProviders cfg) lmcache_ProviderName else None) of
        Some p \<Rightarrow> Some p
      | None \<Rightarrow> KVRegistry_Get (KVProviders cfg) null_ProviderName)"

definition kvTransferConfig :: string where
  "kvTransferConfig =
     ''{'' @ Join [jsonField ''kv_connector'' (jsonString ''LMCacheMPConnector''),
        jsonField ''kv_role'' (jsonString ''kv_both''),
        jsonField ''kv_connector_extra_config'' (''{'' @
          Join [jsonField ''lmcache.mp.host'' (jsonString ''tcp://localhost''), jsonField ''lmcache.mp.port'' ''5555''] '',''
          @ ''}'')] '','' @ ''}''"

text \<open>The loop appends the connector arguments to the first container named \<open>vllm\<close>.\<close>

fun addKVArgs :: "Container list \<Rightarrow> Container list" where
  "addKVArgs [] = []"
| "addKVArgs (c # cs) =
     (if ctr_Name c = ''vllm''
      then c\<lparr>ctr_Args := ctr_Args c @ [''--kv-transfer-config'', kvTransferConfig]\<rparr> # cs
      else c # addKVArgs cs)"

definition gpuContainer :: "Quantity \<Rightarrow> Container \<Rightarrow> Container" where
  "gpuContainer qty c =
     (if ctr_Name c \<noteq> ''vllm'' then c
      else c\<lparr>ctr_Limits := (ctr_Limits c)(''nvidia.com/gpu'' \<mapsto> qty),
             ctr_Requests := (ctr_Requests c)(''nvidia.com/gpu'' \<mapsto> qty)\<rparr>)"

definition applyGPUScheduling :: "CodaEndpoint \<Rightarrow> PodSpec \<Rightarrow> PodSpec" where
  "applyGPUScheduling ep podSpec =
     (if rs_GPU (eps_Resources (ep_Spec ep)) \<le> 0 then podSpec
      else podSpec\<lparr>
        ps_NodeSelector := (ps_NodeSelector podSpec)(LabelGPU \<mapsto> ''true''),
        ps_Tolerations := ps_Tolerations podSpec @
          [\<lparr>tol_Key = ''opencoda.io/gpu'', tol_Operator = ''Exists'', tol_Effect = ''NoSchedule''\<rparr>],
        ps_Containers := map (gpuContainer (Itoa (rs_GPU (eps_Resources (ep_Spec ep))))) (ps_Containers podSpec)\<rparr>)"

definition nodeProfile :: NodeProfile where
  "nodeProfile = \<lparr>np_PinnedMemoryGiB = 8, np_NVMeCacheDir = ''/var/cache/opencoda''\<rparr>"

definition podSpecFor :: "EpConfig \<Rightarrow> CodaEndpoint \<Rightarrow> goerror + PodSpec" where
  "podSpecFor cfg ep =
     (case EngineRegistry_Get (Engines cfg) (es_Type (eps_Engine (ep_Spec ep))) of
        None \<Rightarrow> Inl (EMsg (''engine '' @ Quote (es_Type (eps_Engine (ep_Spec ep))) @ '' not registered''))
      | Some eng \<Rightarrow>
          (case kv_RenderPodPatch (the (selectKV cfg ep)) ep nodeProfile of
             Inl err \<Rightarrow> Inl err
           | Inr kvPatch \<Rightarrow>
               (case RenderPodSpec eng ep nodeProfile kvPatch of
                  Inl err \<Rightarrow> Inl err
                | Inr podSpec \<Rightarrow>
                    let podSpec = (if lmcacheEnabled ep
                                   then podSpec\<lparr>ps_Containers := addKVArgs (ps_Containers podSpec)\<rparr> else podSpec)
                    in Inr (applyGPUScheduling ep podSpec))))"

definition replicaName :: "CodaEndpoint \<Rightarrow> int \<Rightarrow> string" where
  "replicaName ep i = ep_Name ep @ ''-replica-'' @ Itoa i"

definition buildPod :: "EpConfig \<Rightarrow> 'w env \<Rightarrow> CodaEndpoint \<Rightarrow> int \<Rightarrow> string \<Rightarrow> ('w, 'z, goerror + Pod) io" where
  "buildPod cfg E ep i specHash =
     (case podSpecFor cfg ep of
        Inl err \<Rightarrow> ret (Inl err)
      | Inr podSpec \<Rightarrow> do {
          now \<leftarrow> kNow E;
          ret (Inr (zeroPod\<lparr>
            pod_Meta := zeroMeta\<lparr>om_Name := replicaName ep i, om_Namespace := ep_Namespace ep,
              om_Labels := [LabelEndpoint \<mapsto> ep_Name ep, ''app.kubernetes.io/name'' \<mapsto> ''opencoda''],
              om_Annotations := [AnnotationSpecHash \<mapsto> specHash, AnnotationPodCreatedAt \<mapsto> x_FormatTime E now]\<rparr>,
            pod_Spec := podSpec\<rparr>))
        })"

fun createReplicas ::
  "EpConfig \<Rightarrow> 'w env \<Rightarrow> CodaEndpoint \<Rightarrow> string \<Rightarrow> int list \<Rightarrow> ('w, 'z, goerror option) io" where
  "createReplicas cfg E ep specHash [] = ret None"
| "createReplicas cfg E ep specHash (i # is) = do {
     r \<leftarrow> buildPod cfg E ep i specHash;
     case r of
       Inl err \<Rightarrow> ret (Some err)
     | Inr pod \<Rightarrow> do {
         e \<leftarrow> kCreatePod E pod;
         case e of
           Some err \<Rightarrow>
             if \<not> IsAlreadyExists err then ret (Some err) else createReplicas cfg E ep specHash is
         | None \<Rightarrow> createReplicas cfg E ep specHash is
       }
   }"

section \<open>Draining the old generation\<close>

fun deleteOldPods :: "'w env \<Rightarrow> string \<Rightarrow> Pod list \<Rightarrow> ('w, 'z, unit) io" where
  "deleteOldPods E specHash [] = ret ()"
| "deleteOldPods E specHash (p # ps) =
     (if pod_Annotation p AnnotationSpecHash = specHash \<or> pod_Annotation p AnnotationSpecHash = []
      then deleteOldPods E specHash ps
      else do { _ \<leftarrow> kDeletePod E p; deleteOldPods E specHash ps })"

definition drainOldHashPods :: "'w env \<Rightarrow> CodaEndpoint \<Rightarrow> string \<Rightarrow> ('w, 'z, unit) io" where
  "drainOldHashPods E ep specHash = do {
     r \<leftarrow> kListEndpointPods E (ep_Namespace ep) (ep_Name ep);
     case r of Inl err \<Rightarrow> ret () | Inr pods \<Rightarrow> deleteOldPods E specHash pods
   }"

section \<open>Cold starts\<close>

text \<open>\<open>time.Duration.Seconds\<close>: whole seconds plus the remaining nanoseconds, both cut towards zero.\<close>

definition Seconds :: "duration \<Rightarrow> float64" where
  "Seconds d = (let sec = sgn d * (\<bar>d\<bar> div second); nsec = sgn d * (\<bar>d\<bar> mod second)
                in f_add (f_of_int sec) (f_div (f_of_int nsec) (10 ^ 9)))"

definition percentileIdx :: "float64 list \<Rightarrow> float64 \<Rightarrow> int" where
  "percentileIdx srtd p =
     (if length srtd = 1 then f_to_int (f_mul (srtd ! 0) 1000)
      else
        let rank = f_mul p (f_of_int (int (length srtd) - 1));
            lo = f_to_int rank;
            hi = lo + 1
        in if int (length srtd) \<le> hi then f_to_int (f_mul (last srtd) 1000)
           else
             let frac = f_sub rank (f_of_int lo);
                 val = f_add (f_mul (srtd ! nat lo) (f_sub 1 frac)) (f_mul (srtd ! nat hi) frac)
             in f_to_int (f_mul val 1000))"

text \<open>The literal 0.95 is the nearest float64.\<close>

definition percentileMs :: "float64 list \<Rightarrow> float64 \<Rightarrow> float64 \<Rightarrow> int \<times> int" where
  "percentileMs samples p q =
     (if samples = [] then (0, 0)
      else let srtd = sort samples in (percentileIdx srtd p, percentileIdx srtd q))"

definition keepLast50 :: "float64 list \<Rightarrow> float64 list" where
  "keepLast50 xs = (if 50 < length xs then drop (length xs - 50) xs else xs)"

definition samplesOf :: "(string \<rightharpoonup> float64 list) \<Rightarrow> string \<Rightarrow> float64 list" where
  "samplesOf m key = (case m key of None \<Rightarrow> [] | Some xs \<Rightarrow> xs)"

definition coldStartBegin :: "'w env \<Rightarrow> Pod \<Rightarrow> gotime" where
  "coldStartBegin E pod =
     (let ann = pod_Annotation pod AnnotationPodCreatedAt;
          createdAt = (if ann = [] then x_FormatTime E (om_CreationTimestamp (pod_Meta pod)) else ann)
      in case x_ParseTime E createdAt of
           Some t \<Rightarrow> t
         | None \<Rightarrow> om_CreationTimestamp (pod_Meta pod))"

definition markRecorded :: "Pod \<Rightarrow> Pod" where
  "markRecorded pod = pod\<lparr>pod_Meta := (pod_Meta pod)\<lparr>
     om_Annotations := (om_Annotations (pod_Meta pod))(AnnotationColdStartRecorded \<mapsto> ''true'')\<rparr>\<rparr>"

fun recordPods :: "'w env \<Rightarrow> Pod list \<Rightarrow> CodaEndpoint \<Rightarrow> ('w, 'z, CodaEndpoint) eio" where
  "recordPods E [] ep = ret ep"
| "recordPods E (pod # pods) ep =
     (if pod_Annotation pod AnnotationColdStartRecorded = ''true'' then recordPods E pods ep
      else if \<not> podReady pod then recordPods E pods ep
      else do {
        now \<leftarrow> kNow E;
        let elapsed = max 0 (Seconds (Sub now (coldStartBegin E pod)));
        metric ''coda_cold_start_seconds'' [''cold'', ep_Name ep] elapsed;
        m \<leftarrow> gets coldSamples;
        let samples = keepLast50 (samplesOf m (epKey ep) @ [elapsed]);
        modify (coldSamples_update (\<lambda>m. m(epKey ep \<mapsto> samples)));
        let (p50, p95) = percentileMs samples (1 / 2) (fl (95 / 100));
        _ \<leftarrow> kPatchPod E pod (markRecorded pod);
        recordPods E pods (ep\<lparr>ep_Status := (ep_Status ep)\<lparr>ept_ColdStart := \<lparr>cs_P50Ms = p50, cs_P95Ms = p95\<rparr>\<rparr>\<rparr>)
      })"

definition recordColdStarts :: "'w env \<Rightarrow> CodaEndpoint \<Rightarrow> ('w, 'z, CodaEndpoint) eio" where
  "recordColdStarts E ep = do {
     r \<leftarrow> kListEndpointPods E (ep_Namespace ep) (ep_Name ep);
     case r of Inl err \<Rightarrow> ret ep | Inr pods \<Rightarrow> recordPods E pods ep
   }"

section \<open>Reconcile\<close>

text \<open>The part after the status update: create what is missing, then drain the old generation.\<close>

definition scaleReplicas ::
  "EpConfig \<Rightarrow> 'w env \<Rightarrow> CodaEndpoint \<Rightarrow> string \<Rightarrow> int \<Rightarrow> int \<Rightarrow> int \<Rightarrow> int \<Rightarrow> ('w, 'z, duration \<times> goerror option) io" where
  "scaleReplicas cfg E ep specHash desired ready starting oldReady =
     (if desired = 0 then ret (10 * second, None)
      else do {
        e \<leftarrow> createReplicas cfg E ep specHash [ready + starting .. desired - 1];
        case e of
          Some err \<Rightarrow> ret (0, Some err)
        | None \<Rightarrow> do {
            (if desired \<le> ready \<and> 0 < oldReady then drainOldHashPods E ep specHash else ret ());
            ret (10 * second, None)
          }
      })"

text \<open>The code binds the pair (ready, total) that \<open>countReplicaPods\<close> returns to \<open>ready, starting\<close>.\<close>

definition reconcileReplicas ::
  "EpConfig \<Rightarrow> 'w env \<Rightarrow> CodaEndpoint \<Rightarrow> string \<Rightarrow> int \<Rightarrow> ('w, 'z, duration \<times> goerror option) eio" where
  "reconcileReplicas cfg E ep specHash desired = do {
     (ready, starting) \<leftarrow> countReplicaPods E ep specHash;
     (oldReady, _) \<leftarrow> countReplicaPods E ep [];
     let ep = ep\<lparr>ep_Status := (ep_Status ep)\<lparr>ept_Replicas :=
                \<lparr>rep_Ready = ready + oldReady, rep_Starting = starting\<rparr>\<rparr>\<rparr>;
     now \<leftarrow> kNow E;
     let ep = setRolloutCondition ep ready oldReady desired now;
     ep \<leftarrow> recordColdStarts E ep;
     u \<leftarrow> kStatusUpdateEndpoint E ep;
     case u of
       Inl err \<Rightarrow> ret (0, Some err)
     | Inr ep \<Rightarrow> scaleReplicas cfg E ep specHash desired ready starting oldReady
   }"

definition endpoint_Reconcile ::
  "EpConfig \<Rightarrow> 'w env \<Rightarrow> string \<Rightarrow> string \<Rightarrow> ('w, 'z, duration \<times> goerror option) eio" where
  "endpoint_Reconcile cfg E ns name = do {
     r \<leftarrow> kGetEndpoint E ns name;
     case r of
       Inl err \<Rightarrow> ret (0, IgnoreNotFound err)
     | Inr ep \<Rightarrow>
         (case ValidateEngineType (es_Type (eps_Engine (ep_Spec ep))) of
            Some err \<Rightarrow> ret (0, None)
          | None \<Rightarrow> do {
              desired \<leftarrow> desiredReplicas E ep;
              reconcileReplicas cfg E ep (computeSpecHash E ep) desired
            })
   }"

section \<open>Desired replicas\<close>

text \<open>
  The number of replicas an endpoint is reconciled to is within its configured bounds whatever
  the gateway's annotation says; and as long as a gateway that asks for none has done so for less
  than the scale-to-zero window, the minimum is kept and the start of the idle period is not moved.
\<close>
theorem desiredReplicas_bounds:
  assumes "0 \<le> sc_MinReplicas (ep_Scaling ep)"
    and "sc_MinReplicas (ep_Scaling ep) \<le> sc_MaxReplicas (ep_Scaling ep)"
  shows "wp (desiredReplicas E ep) (\<lambda>n s'.
     sc_MinReplicas (ep_Scaling ep) \<le> n \<and> n \<le> sc_MaxReplicas (ep_Scaling ep) \<and>
     (\<forall>k t. idleSince s k = Some t \<longrightarrow> k \<noteq> epKey ep \<or>
        om_Annotations (ep_Meta ep) AnnotationDesiredReplicas = Some ''0'' \<longrightarrow>
        sc_ScaleToZeroAfter (ep_Scaling ep) \<noteq> [] \<longrightarrow> idleSince s' k = Some t)) s"
  using assms
  by (auto simp: desiredReplicas_def Let_def wp Atoi_def parseDigits_def isDigit_def digitVal_def
      split: option.split prod.split)

text \<open>An endpoint whose gateway asks for five replicas, of which it may have three.\<close>

definition demoEndpoint :: CodaEndpoint where
  "demoEndpoint = zeroEndpoint\<lparr>
     ep_Meta := zeroMeta\<lparr>om_Name := ''e'', om_Namespace := ''n'',
       om_Annotations := [AnnotationDesiredReplicas \<mapsto> ''5'']\<rparr>,
     ep_Spec := (ep_Spec zeroEndpoint)\<lparr>
       eps_Engine := \<lparr>es_Type = ''vllm'', es_Version = [], es_Args = []\<rparr>,
       eps_Scaling := \<lparr>sc_MinReplicas = 1, sc_MaxReplicas = 3,
         sc_Target = \<lparr>st_Metric = [], st_Value = 0\<rparr>, sc_ScaleToZeroAfter = []\<rparr>\<rparr>\<rparr>"

definition epState :: "'w \<Rightarrow> ('w, event) epctl" where
  "epState w = \<lparr>world = w, trace = [], idleSince = Map.empty, coldSamples = Map.empty\<rparr>"

theorem desiredReplicas_bounds_witness:
  "wp (desiredReplicas idleEnv demoEndpoint) (\<lambda>n s. 1 \<le> n \<and> n \<le> 3) (epState ())"
proof -
  have "sc_MinReplicas (ep_Scaling demoEndpoint) = 1" "sc_MaxReplicas (ep_Scaling demoEndpoint) = 3"
    by (simp_all add: demoEndpoint_def zeroEndpoint_def)
  then show ?thesis
    using desiredReplicas_bounds [of demoEndpoint idleEnv "epState ()"] by (auto elim: wp_mono)
qed

section \<open>The pod of a replica\<close>

lemma Engines_get: "EngineRegistry_Get (Engines cfg) t = (if t = EngineName then Some (vllm_New (ec_EngineImage cfg)) else None)"
  using engreg.get_register [of Map.empty "vllm_New (ec_EngineImage cfg)" t] engreg.get_new [of t]
  by (simp add: Engines_def vllm_Name_def)

lemma KVProviders_get:
  "KVRegistry_Get (KVProviders cfg) n = (if n = null_ProviderName then Some NullKV
     else if n = lmcache_ProviderName then Some (LMCache (ec_GarageEndpoint cfg)) else None)"
  by (simp add: KVProviders_def kvreg.get_register kvreg.get_new kv_Name_def)

lemma selectKV_eq: "selectKV cfg ep = Some (if lmcacheEnabled ep then LMCache (ec_GarageEndpoint cfg) else NullKV)"
  by (simp add: selectKV_def KVProviders_get null_ProviderName_def lmcache_ProviderName_def)

text \<open>
  A pod is rendered exactly if the engine type is \<open>vllm\<close>.  Its first container is the engine,
  which alone asks for the endpoint's GPUs (limit and request, with the GPU node selector) if there
  are any; the LMCache server is the only other container, present exactly if LMCache is enabled, and
  then the engine's arguments end with its connector.
\<close>
theorem podSpec_shape:
  "case podSpecFor cfg ep of
     Inl err \<Rightarrow> es_Type (eps_Engine (ep_Spec ep)) \<noteq> ''vllm''
   | Inr ps \<Rightarrow> es_Type (eps_Engine (ep_Spec ep)) = ''vllm'' \<and>
       (let gpu = rs_GPU (eps_Resources (ep_Spec ep));
            want = (if 0 < gpu then [''nvidia.com/gpu'' \<mapsto> Itoa gpu] else Map.empty) in
        ps_NodeSelector ps = (if 0 < gpu then [LabelGPU \<mapsto> ''true''] else Map.empty) \<and>
        (\<exists>c cs. ps_Containers ps = c # cs \<and> ctr_Name c = ''vllm'' \<and> ctr_Limits c = want \<and> ctr_Requests c = want \<and>
           map ctr_Name cs = (if lmcacheEnabled ep then [''lmcache-server''] else []) \<and>
           list_all (\<lambda>c. ctr_Limits c = Map.empty \<and> ctr_Requests c = Map.empty) cs \<and>
           (\<exists>args. ctr_Args c = args @ (if lmcacheEnabled ep then [''--kv-transfer-config'', kvTransferConfig] else []))))"
proof (cases "kv_LMCache (eps_KV (ep_Spec ep))")
  case None
  then have "\<not> lmcacheEnabled ep" by (simp add: lmcacheEnabled_def)
  with None show ?thesis
    by (auto simp: podSpecFor_def Engines_get EngineName_def selectKV_eq kv_RenderPodPatch_def RenderPodSpec_def
        zeroPatch_def applyGPUScheduling_def gpuContainer_def Let_def)
next
  case (Some lm)
  then have "lmcacheEnabled ep = lm_Enabled lm" by (simp add: lmcacheEnabled_def)
  with Some show ?thesis
    by (auto simp: podSpecFor_def Engines_get EngineName_def selectKV_eq kv_RenderPodPatch_def RenderPodSpec_def
        lmcache_RenderPodPatch_def zeroPatch_def applyGPUScheduling_def gpuContainer_def Let_def)
qed

section \<open>Which pods are created and deleted\<close>

fun createEv :: "event \<Rightarrow> Pod option" where
  "createEv (Kube (CreatePod p r)) = Some p"
| "createEv e = None"

fun epListEv :: "event \<Rightarrow> (goerror + Pod list) option" where
  "epListEv (Kube (ListEndpointPods ns n r)) = Some r"
| "epListEv e = None"

definition podHash :: "Pod \<Rightarrow> string" where
  "podHash p = pod_Annotation p AnnotationSpecHash"

lemma countPods_eq:
  "countPods h current pods (r, t) =
     (let sel = filter (\<lambda>p. if h \<noteq> [] then podHash p = h else podHash p \<noteq> current) pods
      in (r + int (length (filter podReady sel)), t + int (length sel)))"
  by (induction pods arbitrary: r t) (auto simp: Let_def podHash_def)

definition stale :: "string \<Rightarrow> Pod \<Rightarrow> bool" where
  "stale h p \<longleftrightarrow> podHash p \<noteq> h \<and> podHash p \<noteq> []"

definition podFor :: "CodaEndpoint \<Rightarrow> string \<Rightarrow> int \<Rightarrow> Pod \<Rightarrow> bool" where
  "podFor ep h i p \<longleftrightarrow> pod_Name p = replicaName ep i \<and> pod_Namespace p = ep_Namespace ep \<and> podHash p = h \<and>
     om_Labels (pod_Meta p) LabelEndpoint = Some (ep_Name ep) \<and> om_OwnerReferences (pod_Meta p) = []"

lemma emits_buildPod:
  "emits (buildPod cfg E ep i h) (\<lambda>r es. select createEv es = [] \<and> select podDeleteEv es = [] \<and>
     select epListEv es = [] \<and> (\<forall>pod. r = Inr pod \<longrightarrow> podFor ep h i pod))"
  by (auto simp: buildPod_def podFor_def podHash_def key_defs zeroPod_def zeroMeta_def
      intro!: emits split: sum.split)

lemma emits_createReplicas:
  "emits (createReplicas cfg E ep h is) (\<lambda>r es. select podDeleteEv es = [] \<and> select epListEv es = [] \<and>
     (\<exists>k. list_all2 (podFor ep h) (take k is) (select createEv es)))"
proof (induction "is")
  case (Cons i "is")
  show ?case
    unfolding createReplicas.simps
  proof (rule emits_bind_fixed [OF emits_buildPod], goal_cases)
    case (1 r es)
    have stop: "\<exists>k. list_all2 (podFor ep h) (take k (i # is)) []"
      by (rule exI [of _ 0]) simp
    have one: "\<exists>k. list_all2 (podFor ep h) (take k (i # is)) [pod]" if "r = Inr pod" for pod
      by (rule exI [of _ 1]) (use 1 that in simp)
    have more: "\<exists>k. list_all2 (podFor ep h) (take k (i # is)) (pod # pods)"
      if "r = Inr pod" "\<exists>k. list_all2 (podFor ep h) (take k is) pods" for pod pods
    proof -
      from that(2) obtain k where "list_all2 (podFor ep h) (take k is) pods" by blast
      with 1 that(1) show ?thesis by (intro exI [of _ "Suc k"]) simp
    qed
    show ?case
      using 1 stop one more
      by (auto intro!: emits emits_mono [OF Cons.IH] split: sum.split option.split) blast+
  qed
qed (auto intro!: emits)

lemma emits_deleteOldPods:
  "emits (deleteOldPods E h pods) (\<lambda>_ es. select podDeleteEv es = filter (stale h) pods \<and>
     select createEv es = [] \<and> select epListEv es = [])"
proof (induction pods)
  case (Cons p pods)
  then show ?case by (auto intro!: emits emits_mono [OF Cons.IH] simp: stale_def podHash_def)
qed (auto intro!: emits)

lemma emits_drainOldHashPods:
  "emits (drainOldHashPods E ep h) (\<lambda>_ es. select createEv es = [] \<and> (\<exists>a. select epListEv es = [a] \<and>
     select podDeleteEv es = (case a of Inl _ \<Rightarrow> [] | Inr pods \<Rightarrow> filter (stale h) pods)))"
  unfolding drainOldHashPods_def by (auto intro!: emits emits_mono [OF emits_deleteOldPods])

lemma emits_recordPods:
  "emits (recordPods E pods ep) (\<lambda>_ es. select createEv es = [] \<and> select podDeleteEv es = [] \<and> select epListEv es = [])"
proof (induction pods arbitrary: ep)
  case (Cons pod pods)
  show ?case
    by (auto intro!: emits emits_mono [OF Cons.IH] simp: Let_def split: prod.split)
qed (auto intro!: emits)

lemma emits_recordColdStarts:
  "emits (recordColdStarts E ep) (\<lambda>_ es. select createEv es = [] \<and> select podDeleteEv es = [] \<and>
     (\<exists>a. select epListEv es = [a]))"
  unfolding recordColdStarts_def by (auto intro!: emits emits_mono [OF emits_recordPods])

text \<open>The counts behind an answer to a list call: ready and all pods of the hash, or of the other hashes.\<close>

definition countsOf :: "string \<Rightarrow> string \<Rightarrow> goerror + Pod list \<Rightarrow> int \<times> int" where
  "countsOf h current a = (case a of Inl err \<Rightarrow> (0, 0) | Inr pods \<Rightarrow> countPods h current pods (0, 0))"

lemma emits_countReplicaPods:
  "emits (countReplicaPods E ep h) (\<lambda>n es. select createEv es = [] \<and> select podDeleteEv es = [] \<and>
     (\<exists>a. select epListEv es = [a] \<and> n = countsOf h (computeSpecHash E ep) a))"
  by (auto simp: countReplicaPods_def countsOf_def Let_def intro!: emits)

lemma emits_scaleReplicas:
  "emits (scaleReplicas cfg E ep h desired ready starting oldReady) (\<lambda>r es.
     (\<exists>k. list_all2 (podFor ep h) (take k [ready + starting .. desired - 1]) (select createEv es)) \<and>
     (select podDeleteEv es = [] \<or> desired \<le> ready \<and> 0 < oldReady \<and>
        (\<exists>pods. select epListEv es = [Inr pods] \<and> select podDeleteEv es = filter (stale h) pods)))"
proof -
  have drain: "emits (if b then drainOldHashPods E ep h else ret ()) (\<lambda>_ es. select createEv es = [] \<and>
     (select podDeleteEv es = [] \<or> b \<and>
        (\<exists>pods. select epListEv es = [Inr pods] \<and> select podDeleteEv es = filter (stale h) pods)))" for b
    by (cases b) (auto intro!: emits emits_mono [OF emits_drainOldHashPods] split: sum.splits)
  have none: "\<exists>k. list_all2 (podFor ep h) (take k xs) []" for xs
    by (rule exI [of _ 0]) simp
  show ?thesis
    unfolding scaleReplicas_def
    by (intro emits_if emits_return emits_bind_fixed [OF emits_createReplicas] emits_case_option
        emits_bind_fixed [OF drain]) (auto simp: none)
qed

text \<open>What a reconciliation may create and delete, given the two counts it starts with.\<close>

definition rolloutTrace :: "string \<Rightarrow> string \<Rightarrow> int \<Rightarrow> event list \<Rightarrow> bool" where
  "rolloutTrace current h desired es \<longleftrightarrow>
     (case select epListEv es of
        a # b # rest \<Rightarrow>
          (let (ready, tot) = countsOf h current a; (oldReady, oldTot) = countsOf [] current b in
           (\<exists>ep' k. list_all2 (podFor ep' h) (take k [ready + tot .. desired - 1]) (select createEv es)) \<and>
           (select podDeleteEv es = [] \<or> desired \<le> ready \<and> 0 < oldReady \<and>
              (\<exists>pods. Inr pods \<in> set rest \<and> select podDeleteEv es = filter (stale h) pods)))
      | _ \<Rightarrow> False)"

lemma rolloutTraceI:
  assumes "select epListEv es = a # b # rest" and "(ready, tot) = countsOf h current a"
    and "(oldReady, oldTot) = countsOf [] current b"
    and "list_all2 (podFor ep' h) (take k [ready + tot .. desired - 1]) (select createEv es)"
    and "select podDeleteEv es = [] \<or> desired \<le> ready \<and> 0 < oldReady \<and>
              (\<exists>pods. Inr pods \<in> set rest \<and> select podDeleteEv es = filter (stale h) pods)"
  shows "rolloutTrace current h desired es"
proof -
  from assms(2,3) [symmetric] show ?thesis
    using assms(1,4,5) by (auto simp: rolloutTrace_def)
qed

lemma emits_reconcileReplicas:
  "emits (reconcileReplicas cfg E ep h desired) (\<lambda>r es. rolloutTrace (computeSpecHash E ep) h desired es)"
  unfolding reconcileReplicas_def Let_def
proof (rule emits_bind_fixed [OF emits_countReplicaPods], rule emits_case_prod,
    rule emits_bind_fixed [OF emits_countReplicaPods], rule emits_case_prod, rule emits_ext_bind,
    rule emits_bind_fixed [OF emits_recordColdStarts], rule emits_ext_bind, goal_cases)
  case (1 n1 es1 ready tot n2 es2 oldReady oldTot now ep' es3 u)
  from 1 obtain a b c where ab: "select epListEv es1 = [a]" "(ready, tot) = countsOf h (computeSpecHash E ep) a"
      "select epListEv es2 = [b]" "(oldReady, oldTot) = countsOf [] (computeSpecHash E ep) b"
      "select epListEv es3 = [c]" by auto
  note quiet = 1
  show ?case
  proof (rule emits_case_sum, goal_cases)
    case (1 err)
    show ?case
      using 1 quiet ab
      by (intro emits_return rolloutTraceI [where a = a and b = b and rest = "[c]" and k = 0]) auto
  next
    case (2 ep'')
    have "rolloutTrace (computeSpecHash E ep) h desired
        (es1 @ es2 @ Clock now # es3 @ Kube (StatusUpdateEndpoint p u) # es)"
      if "list_all2 (podFor ep'' h) (take k [ready + tot .. desired - 1]) (select createEv es)"
        "select podDeleteEv es = [] \<or> desired \<le> ready \<and> 0 < oldReady \<and>
          (\<exists>pods. select epListEv es = [Inr pods] \<and> select podDeleteEv es = filter (stale h) pods)" for k es p
      using that quiet ab
      by (intro rolloutTraceI [where a = a and b = b and rest = "c # select epListEv es" and k = k and ep' = ep'']) auto
    then show ?case by (intro emits_mono [OF emits_scaleReplicas]) auto
  qed
qed

text \<open>
  C13: A reconciliation of the replicas creates only pods of the current hash, for replica numbers
  from (ready + all) of the first count up to the desired number, in order and each once; and it
  deletes pods only when at least the desired number of new ones is ready and an old one still is,
  and then exactly the listed pods that carry another, non-empty hash.
\<close>
theorem rollout_safe:
  "emits (reconcileReplicas cfg E ep h desired) (\<lambda>r es. rolloutTrace (computeSpecHash E ep) h desired es)"
  by (rule emits_reconcileReplicas)

text \<open>
  C37: The second component of \<open>countReplicaPods\<close> is the number of all pods, not of the starting
  ones, so the ready pods are counted twice: when every pod of the current hash is ready, nothing
  is created for a desired number up to twice theirs, and the scale-up stalls.
\<close>
theorem scaleup_counts_ready_twice:
  assumes "h \<noteq> []"
  shows "emits (reconcileReplicas cfg E ep h desired) (\<lambda>r es. \<forall>pods rest.
     select epListEv es = Inr pods # rest \<longrightarrow> list_all podReady (filter (\<lambda>p. podHash p = h) pods) \<longrightarrow>
     desired \<le> 2 * int (length (filter (\<lambda>p. podHash p = h) pods)) \<longrightarrow> select createEv es = [])"
  using emits_reconcileReplicas
proof (rule emits_mono, intro allI impI)
  fix r es pods rest
  assume tr: "rolloutTrace (computeSpecHash E ep) h desired es" and pods: "select epListEv es = Inr pods # rest"
    and ready: "list_all podReady (filter (\<lambda>p. podHash p = h) pods)"
    and few: "desired \<le> 2 * int (length (filter (\<lambda>p. podHash p = h) pods))"
  have "filter podReady (filter (\<lambda>p. podHash p = h) pods) = filter (\<lambda>p. podHash p = h) pods"
    using ready by (auto simp: list_all_iff intro: filter_cong)
  with tr pods few show "select createEv es = []"
    by (auto simp: rolloutTrace_def countsOf_def countPods_eq assms Let_def split: list.splits prod.splits)
qed

text \<open>One ready pod of the current hash, and two replicas desired.\<close>

definition readyPod :: "string \<Rightarrow> Pod" where
  "readyPod h = zeroPod\<lparr>pod_Meta := zeroMeta\<lparr>om_Name := ''e-replica-0'', om_Annotations :=
     [AnnotationSpecHash \<mapsto> h, AnnotationColdStartRecorded \<mapsto> ''true'']\<rparr>,
     pod_Conditions := [\<lparr>pcd_Type = ''Ready'', pcd_Status = ''True''\<rparr>]\<rparr>"

definition stallEnv :: "unit env" where
  "stallEnv = idleEnv\<lparr>x_ListEndpointPods := (\<lambda>ns n w. (Inr [readyPod ''h''], w))\<rparr>"

lemma stallEnv_lists:
  "wp (reconcileReplicas \<lparr>ec_EngineImage = [], ec_GarageEndpoint = []\<rparr> stallEnv demoEndpoint ''h'' 2)
     (\<lambda>r s. \<exists>rest. select epListEv (trace s) = Inr [readyPod ''h''] # rest) (epState ())"
  by (simp add: reconcileReplicas_def countReplicaPods_def recordColdStarts_def scaleReplicas_def stallEnv_def
      idleEnv_def readyPod_def podReady_def key_defs epState_def wp Let_def setRolloutCondition_def)

theorem scaleup_counts_ready_twice_witness:
  "wp (reconcileReplicas \<lparr>ec_EngineImage = [], ec_GarageEndpoint = []\<rparr> stallEnv demoEndpoint ''h'' 2)
     (\<lambda>r s. select createEv (trace s) = []) (epState ())"
proof -
  have "podHash (readyPod ''h'') = ''h''" "podReady (readyPod ''h'')"
    by (simp_all add: podHash_def readyPod_def podReady_def key_defs)
  moreover have "''h'' \<noteq> ([] :: string)" by simp
  ultimately show ?thesis
    using wp_conj [OF stallEnv_lists emits_wp [OF scaleup_counts_ready_twice]]
    by (auto simp: epState_def elim!: wp_mono)
qed

section \<open>Replicas that are not wanted any more\<close>

text \<open>The endpoint a reconciliation has read, and one nobody asks a replica of.\<close>

fun readEndpoint :: "event list \<Rightarrow> CodaEndpoint option" where
  "readEndpoint (Kube (GetEndpoint ns n (Inr ep)) # es) = Some ep"
| "readEndpoint es = None"

definition unwanted :: "CodaEndpoint \<Rightarrow> bool" where
  "unwanted ep \<longleftrightarrow> sc_MinReplicas (ep_Scaling ep) = 0 \<and> 0 \<le> sc_MaxReplicas (ep_Scaling ep) \<and>
     om_Annotations (ep_Meta ep) AnnotationDesiredReplicas \<in> {None, Some ''0''}"

lemma emits_desiredReplicas:
  "emits (desiredReplicas E ep) (\<lambda>n es. select createEv es = [] \<and> select podDeleteEv es = [] \<and> (unwanted ep \<longrightarrow> n = 0))"
  by (auto simp: desiredReplicas_def unwanted_def Let_def Atoi_def parseDigits_def isDigit_def digitVal_def
      intro!: emits split: option.split)

lemma emits_reconcileReplicas_stale:
  "emits (reconcileReplicas cfg E ep h desired) (\<lambda>r es. list_all (stale h) (select podDeleteEv es))"
  using emits_reconcileReplicas
  by (rule emits_mono) (auto simp: rolloutTrace_def list_all_iff split: list.splits prod.splits)

lemma emits_reconcileReplicas_none:
  "emits (reconcileReplicas cfg E ep h 0) (\<lambda>r es. select createEv es = [] \<and> select podDeleteEv es = [])"
  unfolding reconcileReplicas_def scaleReplicas_def Let_def
  by (auto intro!: emits emits_bind_fixed [OF emits_countReplicaPods] emits_bind_fixed [OF emits_recordColdStarts])

lemma emits_desired_creates: "emits (desiredReplicas E ep) (\<lambda>n es. select createEv es = [])"
  using emits_desiredReplicas by (rule emits_mono) simp

lemma podFor_unowned: "list_all2 (podFor ep h) is ps \<Longrightarrow> list_all (\<lambda>p. om_OwnerReferences (pod_Meta p) = []) ps"
  by (induction rule: list_all2_induct) (auto simp: podFor_def)

lemma emits_endpoint_unowned:
  "emits (endpoint_Reconcile cfg E ns name) (\<lambda>r es. list_all (\<lambda>p. om_OwnerReferences (pod_Meta p) = []) (select createEv es))"
proof -
  have "emits (reconcileReplicas cfg E ep h d) (\<lambda>r es. list_all (\<lambda>p. om_OwnerReferences (pod_Meta p) = []) (select createEv es))"
    for ep h d
    using emits_reconcileReplicas
    by (rule emits_mono) (auto simp: rolloutTrace_def dest: podFor_unowned split: list.splits prod.splits)
  then show ?thesis
    unfolding endpoint_Reconcile_def
    by (auto intro!: emits emits_bind_fixed [OF emits_desired_creates] elim!: emits_mono)
qed

text \<open>
  C14: Replicas are never taken away.  Whatever number is desired, a reconciliation of an endpoint
  deletes only pods that carry the hash of another specification than the endpoint's; an endpoint
  that wants no replica at all, because its minimum is zero and the gateway asks for none, keeps all
  the pods it has, and nothing is deleted or created for one that could not be read.
\<close>
theorem replicas_never_shrink:
  "emits (endpoint_Reconcile cfg E ns name) (\<lambda>r es.
     case readEndpoint es of
       None \<Rightarrow> select createEv es = [] \<and> select podDeleteEv es = []
     | Some ep \<Rightarrow> if unwanted ep then select createEv es = [] \<and> select podDeleteEv es = []
         else list_all (stale (computeSpecHash E ep)) (select podDeleteEv es))"
  unfolding endpoint_Reconcile_def
proof (rule emits_ext_bind, rule emits_case_sum, goal_cases)
  case (1 r err)
  then show ?case by (auto intro!: emits)
next
  case (2 r ep)
  show ?case
  proof (rule emits_case_option, goal_cases)
    case 1
    show ?case
    proof (rule emits_bind_fixed [OF emits_desiredReplicas], cases "unwanted ep", goal_cases)
      case (1 desired es)
      then show ?case using 2 emits_reconcileReplicas_none by (auto elim!: emits_mono)
    next
      case (2 desired es)
      then show ?case using \<open>r = Inr ep\<close> by (auto intro!: emits_mono [OF emits_reconcileReplicas_stale])
    qed
  qed (use 2 in \<open>auto intro!: emits\<close>)
qed

section \<open>Cold-start samples\<close>

definition coldInv :: "(string \<rightharpoonup> float64 list) \<Rightarrow> bool" where
  "coldInv m \<longleftrightarrow> (\<forall>k xs. m k = Some xs \<longrightarrow> length xs \<le> 50 \<and> (\<forall>x\<in>set xs. 0 \<le> x))"

lemma coldInv_add:
  assumes "coldInv m" and "0 \<le> x"
  shows "coldInv (m(k \<mapsto> keepLast50 (samplesOf m k @ [x])))"
proof -
  have "length (keepLast50 xs) \<le> 50" for xs by (simp add: keepLast50_def)
  moreover have "\<forall>y\<in>set (keepLast50 (samplesOf m k @ [x])). 0 \<le> y"
  proof
    fix y
    assume "y \<in> set (keepLast50 (samplesOf m k @ [x]))"
    then have "y \<in> set (samplesOf m k @ [x])" by (auto simp: keepLast50_def dest: in_set_dropD split: if_splits)
    with assms show "0 \<le> y" by (cases "m k") (auto simp: samplesOf_def coldInv_def)
  qed
  ultimately show ?thesis using assms by (auto simp: coldInv_def)
qed

lemma wp_recordPods:
  "coldInv (coldSamples s) \<Longrightarrow> wp (recordPods E pods ep) (\<lambda>_ s'. coldInv (coldSamples s')) s"
proof (induction pods arbitrary: ep s)
  case (Cons pod pods)
  show ?case
    using Cons.prems
    by (auto simp: wp Let_def intro!: Cons.IH coldInv_add [unfolded fun_upd_def] split: prod.split)
qed (simp add: wp)

lemma wp_recordColdStarts:
  "coldInv (coldSamples s) \<Longrightarrow> wp (recordColdStarts E ep) (\<lambda>_ s'. coldInv (coldSamples s')) s"
  by (auto simp: recordColdStarts_def wp intro!: wp_recordPods split: sum.split prod.split)

lemma wp_countReplicaPods:
  "coldInv (coldSamples s) \<Longrightarrow> wp (countReplicaPods E ep h) (\<lambda>_ s'. coldInv (coldSamples s')) s"
  by (simp add: countReplicaPods_def Let_def wp split: prod.split)

lemma wp_desiredReplicas:
  "coldInv (coldSamples s) \<Longrightarrow> wp (desiredReplicas E ep) (\<lambda>_ s'. coldInv (coldSamples s')) s"
  by (simp add: desiredReplicas_def Let_def wp split: option.split prod.split)

lemma wp_createReplicas:
  "coldInv (coldSamples s) \<Longrightarrow> wp (createReplicas cfg E ep h is) (\<lambda>_ s'. coldInv (coldSamples s')) s"
proof (induction "is" arbitrary: s)
  case (Cons i "is")
  then show ?case
    by (auto simp: wp buildPod_def split: sum.split option.split prod.split)
qed (simp add: wp)

lemma wp_deleteOldPods:
  "coldInv (coldSamples s) \<Longrightarrow> wp (deleteOldPods E h pods) (\<lambda>_ s'. coldInv (coldSamples s')) s"
  by (induction pods arbitrary: s) (auto simp: wp split: prod.split)

lemma wp_drainOldHashPods:
  "coldInv (coldSamples s) \<Longrightarrow> wp (drainOldHashPods E ep h) (\<lambda>_ s'. coldInv (coldSamples s')) s"
  by (auto simp: drainOldHashPods_def wp intro!: wp_deleteOldPods split: sum.split prod.split)

lemma wp_scaleReplicas:
  "coldInv (coldSamples s) \<Longrightarrow>
     wp (scaleReplicas cfg E ep h desired ready starting oldReady) (\<lambda>_ s'. coldInv (coldSamples s')) s"
  unfolding scaleReplicas_def wp
  by (auto intro!: wp_mono [OF wp_createReplicas] simp: wp split: option.split
      intro: wp_mono [OF wp_drainOldHashPods])

text \<open>
  The cold-start samples an endpoint reconciler keeps are never negative and never more than
  fifty per endpoint, through any reconciliation.
\<close>
theorem coldSamples_bounded:
  assumes "coldInv (coldSamples s)"
  shows "wp (endpoint_Reconcile cfg E ns name) (\<lambda>_ s'. coldInv (coldSamples s')) s"
proof -
  have "wp (reconcileReplicas cfg E ep h desired) (\<lambda>_ s'. coldInv (coldSamples s')) s"
    if "coldInv (coldSamples s)" for ep h desired s
    unfolding reconcileReplicas_def Let_def wp
    by (auto intro!: wp_mono [OF wp_countReplicaPods] wp_mono [OF wp_recordColdStarts] wp_scaleReplicas
        simp: that wp split: sum.split prod.split)
  then show ?thesis
    using assms
    by (auto simp: endpoint_Reconcile_def wp intro!: wp_mono [OF wp_desiredReplicas]
        split: sum.split option.split prod.split)
qed

theorem coldSamples_bounded_witness:
  "wp (endpoint_Reconcile \<lparr>ec_EngineImage = [], ec_GarageEndpoint = []\<rparr> stallEnv ''n'' ''e'')
     (\<lambda>_ s'. coldInv (coldSamples s')) (epState ())"
  by (rule coldSamples_bounded) (simp add: epState_def coldInv_def)

section \<open>One record per cold start\<close>

fun patchEv :: "event \<Rightarrow> (Pod \<times> Pod) option" where
  "patchEv (Kube (PatchPod old new r)) = Some (old, new)"
| "patchEv e = None"

fun observeEv :: "event \<Rightarrow> float64 option" where
  "observeEv (Metric n ls v) = Some v"
| "observeEv e = None"

definition fresh :: "Pod \<Rightarrow> bool" where
  "fresh p \<longleftrightarrow> podReady p \<and> pod_Annotation p AnnotationColdStartRecorded \<noteq> ''true''"

lemma emits_recordPods_once:
  "emits (recordPods E pods ep) (\<lambda>_ es. select epListEv es = [] \<and>
     select patchEv es = map (\<lambda>p. (p, markRecorded p)) (filter fresh pods) \<and>
     length (select observeEv es) = length (filter fresh pods) \<and> list_all (\<lambda>x. 0 \<le> x) (select observeEv es))"
proof (induction pods arbitrary: ep)
  case (Cons pod pods)
  show ?case
    by (auto intro!: emits emits_mono [OF Cons.IH] simp: Let_def fresh_def split: prod.split)
qed (auto intro!: emits)

lemma markRecorded_not_fresh: "\<not> fresh (markRecorded p)"
  by (simp add: fresh_def markRecorded_def)

text \<open>
  Every pod that is listed ready and not yet marked gives exactly one cold-start observation,
  which is not negative, and is patched with the mark that keeps it from giving another; no other
  pod is patched or observed.
\<close>
theorem coldstart_recorded_once:
  "emits (recordColdStarts E ep) (\<lambda>_ es. \<exists>a. select epListEv es = [a] \<and>
     (let pods = filter fresh (case a of Inl err \<Rightarrow> [] | Inr pods \<Rightarrow> pods) in
      select patchEv es = map (\<lambda>p. (p, markRecorded p)) pods \<and> list_all (\<lambda>p. \<not> fresh (markRecorded p)) pods \<and>
      length (select observeEv es) = length pods \<and> list_all (\<lambda>x. 0 \<le> x) (select observeEv es)))"
  unfolding recordColdStarts_def
  by (auto intro!: emits emits_mono [OF emits_recordPods_once] simp: list_all_iff markRecorded_not_fresh)

end
