(* ===== verification/Gateway.thy ===== *)
theory Gateway
  imports Engine_KV "HOL-Library.AList"
begin

text \<open>
  \<open>internal/gateway/server.go\<close> and \<open>token.go\<close>: the router, the autoscaler, the HTTP server and its
  bearer tokens.

  A router is the association list of its endpoints, in the order they were first registered;
  where the code ranges over the map the order is an argument.  Each router operation holds the
  mutex, so it is one step; the interleaving of the handlers with each other and with the sync loop
  is the transition system of the theory \<open>Gateway_Steps\<close>.  SHA-256 and the encoding of floats are parameters.
\<close>

section \<open>Router\<close>

record EndpointState =
  est_Name :: string
  est_ModelID :: string
  est_ReplicaURLs :: "string list"
  est_InFlight :: int
  est_QueueDepth :: int
  est_DesiredReplicas :: int

type_synonym Router = "(string \<times> EndpointState) list"

definition RegisterEndpoint :: "Router \<Rightarrow> string \<Rightarrow> string \<Rightarrow> string list \<Rightarrow> Router" where
  "RegisterEndpoint r name modelID urls =
     AList.update name \<lparr>est_Name = name, est_ModelID = modelID, est_ReplicaURLs = urls,
       est_InFlight = 0, est_QueueDepth = 0, est_DesiredReplicas = 0\<rparr> r"

definition RegisterByModel :: "Router \<Rightarrow> string \<Rightarrow> EndpointState \<Rightarrow> Router" where
  "RegisterByModel r modelID ep = AList.update (est_Name ep) ep r"

definition PickReplica :: "Router \<Rightarrow> string \<Rightarrow> string \<times> Router" where
  "PickReplica r endpointName =
     (case map_of r endpointName of
        None \<Rightarrow> ([], r)
      | Some ep \<Rightarrow>
          if est_ReplicaURLs ep = [] then ([], r)
          else (est_ReplicaURLs ep ! nat (est_InFlight ep mod int (length (est_ReplicaURLs ep))),
                AList.update endpointName (ep\<lparr>est_InFlight := est_InFlight ep + 1\<rparr>) r))"

definition InFlight :: "Router \<Rightarrow> string \<Rightarrow> int" where
  "InFlight r endpointName = (case map_of r endpointName of Some ep \<Rightarrow> est_InFlight ep | None \<Rightarrow> 0)"

definition QueueDepth :: "Router \<Rightarrow> string \<Rightarrow> int" where
  "QueueDepth r endpointName = (case map_of r endpointName of Some ep \<Rightarrow> est_QueueDepth ep | None \<Rightarrow> 0)"

definition IncQueue :: "Router \<Rightarrow> string \<Rightarrow> Router" where
  "IncQueue r endpointName =
     (case map_of r endpointName of
        Some ep \<Rightarrow> AList.update endpointName (ep\<lparr>est_QueueDepth := est_QueueDepth ep + 1\<rparr>) r
      | None \<Rightarrow> r)"

definition DecQueue :: "Router \<Rightarrow> string \<Rightarrow> Router" where
  "DecQueue r endpointName =
     (case map_of r endpointName of
        Some ep \<Rightarrow>
          if 0 < est_QueueDepth ep
          then AList.update endpointName (ep\<lparr>est_QueueDepth := est_QueueDepth ep - 1\<rparr>) r else r
      | None \<Rightarrow> r)"

definition endpointsIn :: "(string list \<Rightarrow> string list) \<Rightarrow> Router \<Rightarrow> EndpointState list" where
  "endpointsIn ord r = map (\<lambda>k. the (map_of r k)) (ord (map fst r))"

definition PickEndpointByModel :: "(string list \<Rightarrow> string list) \<Rightarrow> Router \<Rightarrow> string \<Rightarrow> EndpointState option" where
  "PickEndpointByModel ord r model =
     find (\<lambda>ep. est_ModelID ep = model \<or> est_Name ep = model) (endpointsIn ord r)"

section \<open>Autoscaler\<close>

text \<open>Go's division of ints cuts towards zero.\<close>

definition goDiv :: "int \<Rightarrow> int \<Rightarrow> int" where
  "goDiv a b = sgn a * sgn b * (\<bar>a\<bar> div \<bar>b\<bar>)"

definition fget :: "(string \<times> float64) list \<Rightarrow> string \<Rightarrow> float64" where
  "fget m k = (case map_of m k of None \<Rightarrow> 0 | Some v \<Rightarrow> v)"

definition clampReplicas :: "CodaEndpoint \<Rightarrow> int \<Rightarrow> int" where
  "clampReplicas ep load =
     (let mn = sc_MinReplicas (ep_Scaling ep);
          mx = sc_MaxReplicas (ep_Scaling ep);
          target = (if st_Value (sc_Target (ep_Scaling ep)) \<le> 0 then 8 else st_Value (sc_Target (ep_Scaling ep)));
          desired = goDiv load target;
          desired = (if desired < mn then mn else desired)
      in if mx < desired then mx else desired)"

definition Evaluate ::
  "(string \<times> float64) list \<Rightarrow> CodaEndpoint \<Rightarrow> int \<Rightarrow> int \<Rightarrow> int \<times> (string \<times> float64) list" where
  "Evaluate ewma ep inFlight queueDepth =
     (let alpha = fl (3 / 10);
          prev = fget ewma (ep_Name ep)
      in (clampReplicas ep (inFlight + queueDepth),
          AList.update (ep_Name ep)
            (f_add (f_mul alpha (f_of_int (inFlight + queueDepth))) (f_mul (f_sub 1 alpha) prev)) ewma))"

definition DemandForecast :: "(string \<times> float64) list \<Rightarrow> string \<Rightarrow> float64" where
  "DemandForecast ewma endpoint = fget ewma endpoint"

definition TotalDemand :: "(string list \<Rightarrow> string list) \<Rightarrow> (string \<times> float64) list \<Rightarrow> float64" where
  "TotalDemand ord ewma = foldl (\<lambda>tot k. f_add tot (fget ewma k)) 0 (ord (map fst ewma))"

section \<open>Server state\<close>

record ('w, 'e) gw = "('w, 'e) sys" +
  routes :: Router
  demand :: "(string \<times> float64) list"
  kvHits :: "(string \<times> float64) list"

type_synonym ('w, 'z, 'a) gio = "(('w, event, 'z) gw_scheme, 'a) state"

definition onRouter :: "(Router \<Rightarrow> Router) \<Rightarrow> ('w, 'z, unit) gio" where
  "onRouter f = modify (\<lambda>s. s\<lparr>routes := f (routes s)\<rparr>)"

record Response =
  rsp_Status :: int
  rsp_Header :: Header
  rsp_Body :: string

text \<open>\<open>http.Error\<close>.\<close>

definition httpError :: "string \<Rightarrow> int \<Rightarrow> Header \<Rightarrow> Response" where
  "httpError msg code header =
     \<lparr>rsp_Status = code,
      rsp_Header = header(''Content-Type'' \<mapsto> [''text/plain; charset=utf-8''], ''X-Content-Type-Options'' \<mapsto> [''nosniff'']),
      rsp_Body = msg @ [newline]\<rparr>"

section \<open>token.go\<close>

fun checkTokens :: "'w env \<Rightarrow> string \<Rightarrow> string \<Rightarrow> CodaToken list \<Rightarrow> ('w, 'z, bool) io" where
  "checkTokens E tokenID hashHex [] = ret False"
| "checkTokens E tokenID hashHex (tok # toks) =
     (if tks_TokenID (tok_Spec tok) \<noteq> tokenID then checkTokens E tokenID hashHex toks
      else if tks_SecretHash (tok_Spec tok) \<noteq> hashHex then ret False
      else (case tks_ExpiresAt (tok_Spec tok) of
              None \<Rightarrow> ret True
            | Some t \<Rightarrow> do { now \<leftarrow> kNow E; ret (\<not> t < now) }))"

definition Validate :: "'w env \<Rightarrow> string \<Rightarrow> ('w, 'z, bool) io" where
  "Validate E authHeader =
     (if \<not> HasPrefix authHeader ''Bearer '' then ret False
      else (case SplitN2 (TrimPrefix authHeader ''Bearer '') (CHR '':'') of
              [tokenID, secret] \<Rightarrow> do {
                r \<leftarrow> kListTokens E;
                case r of
                  Inl err \<Rightarrow> ret False
                | Inr tokens \<Rightarrow> checkTokens E tokenID (EncodeToString (x_Sha256 E secret)) tokens
              }
            | _ \<Rightarrow> ret False))"

definition gateway_CreateToken :: "'w env \<Rightarrow> string \<Rightarrow> string \<Rightarrow> ('w, 'z, goerror + string) io" where
  "gateway_CreateToken E namespace tokenID = do {
     now \<leftarrow> kNow E;
     let secret = tokenID @ ''-'' @ Itoa now;
     let cr = \<lparr>tok_Meta = zeroMeta\<lparr>om_Name := tokenID, om_Namespace := namespace\<rparr>,
               tok_Spec = \<lparr>tks_TokenID = tokenID, tks_SecretHash = EncodeToString (x_Sha256 E secret),
                           tks_ExpiresAt = None\<rparr>,
               tok_Status = \<lparr>tkt_Conditions = []\<rparr>\<rparr>;
     e \<leftarrow> kCreateToken E cr;
     ret (case e of Some err \<Rightarrow> Inl err | None \<Rightarrow> Inr (tokenID @ '':'' @ secret))
   }"

section \<open>Requests\<close>

record Request =
  rq_Path :: string
  rq_Header :: Header
  rq_Body :: string

definition headerGet :: "Header \<Rightarrow> string \<Rightarrow> string" where
  "headerGet h k = (case h k of Some (v # vs) \<Rightarrow> v | _ \<Rightarrow> [])"

text \<open>The test of \<open>Middleware\<close>; a nil validator is the argument \<open>False\<close>.\<close>

definition authorized :: "'w env \<Rightarrow> bool \<Rightarrow> Request \<Rightarrow> ('w, 'z, bool) io" where
  "authorized E hasValidator req =
     (if rq_Path req = ''/healthz'' then ret True
      else let auth = headerGet (rq_Header req) ''Authorization''
           in if auth = [] \<or> \<not> hasValidator then ret False else Validate E auth)"

definition Middleware ::
  "'w env \<Rightarrow> bool \<Rightarrow> (Request \<Rightarrow> ('w, 'z, Response outcome) gio) \<Rightarrow> Request \<Rightarrow> ('w, 'z, Response outcome) gio" where
  "Middleware E hasValidator nxt req = do {
     ok \<leftarrow> authorized E hasValidator req;
     if ok then nxt req else ret (Returns (httpError ''unauthorized'' 401 Map.empty))
   }"

definition serveModelID :: "string \<Rightarrow> string" where
  "serveModelID model = TrimPrefix model ''hf://''"

text \<open>
  A body that decodes to JSON \<open>null\<close> leaves the map nil, and the assignment to it panics.  The encoding of
  the model, a string, does not fail.
\<close>

definition rewriteProxyModelBody :: "string \<Rightarrow> string \<Rightarrow> string outcome" where
  "rewriteProxyModelBody body servedModel =
     (case unmarshalMap body of
        Inl err \<Rightarrow> Returns body
      | Inr payload \<Rightarrow>
          (case payload of
             None \<Rightarrow> Panics ''assignment to entry in nil map''
           | Some m \<Rightarrow>
               (case marshalMap (AList.update ''model'' (JStr (quoteBody servedModel)) m) of
                  Inl err \<Rightarrow> Returns body
                | Inr out \<Rightarrow> Returns out)))"

definition proxyRequest :: "string \<Rightarrow> Request \<Rightarrow> string \<Rightarrow> HTTPRequest" where
  "proxyRequest url req body =
     \<lparr>hq_Method = ''POST'', hq_URL = url @ ''/v1/chat/completions'', hq_Header = rq_Header req, hq_Body = body\<rparr>"

definition proxyChat :: "'w env \<Rightarrow> Request \<Rightarrow> string \<Rightarrow> string \<Rightarrow> ('w, 'z, Response outcome) io" where
  "proxyChat E req model url =
     (case rewriteProxyModelBody (rq_Body req) (serveModelID model) of
        Panics m \<Rightarrow> ret (Panics m)
      | Returns body \<Rightarrow>
          (case x_URLError E (url @ ''/v1/chat/completions'') of
             Some err \<Rightarrow> ret (Returns (httpError (ErrorText err) 500 Map.empty))
           | None \<Rightarrow> do {
               resp \<leftarrow> kHTTP E (proxyRequest url req body);
               ret (Returns (case resp of
                      Inl err \<Rightarrow> httpError (ErrorText err) 502 Map.empty
                    | Inr r \<Rightarrow> \<lparr>rsp_Status = hr_StatusCode r, rsp_Header = hr_Header r, rsp_Body = hr_Body r\<rparr>))
             }))"

text \<open>The deferred \<open>DecQueue\<close> runs on every way out, a panic included.\<close>

definition handleChatCompletions ::
  "'w env \<Rightarrow> (string list \<Rightarrow> string list) \<Rightarrow> Request \<Rightarrow> ('w, 'z, Response outcome) gio" where
  "handleChatCompletions E ord req =
     (let model = unmarshalModel (rq_Body req)
      in do {
        r \<leftarrow> gets routes;
        case PickEndpointByModel ord r model of
          None \<Rightarrow> ret (Returns (httpError ''model not found'' 404 Map.empty))
        | Some ep \<Rightarrow> do {
            onRouter (\<lambda>r. IncQueue r (est_Name ep));
            r \<leftarrow> gets routes;
            let (url, r') = PickReplica r (est_Name ep);
            onRouter (\<lambda>_. r');
            resp \<leftarrow> (if url = []
                     then ret (Returns (httpError ''no replicas ready'' 429 [''Retry-After'' \<mapsto> [''5'']]))
                     else proxyChat E req model url);
            onRouter (\<lambda>r. DecQueue r (est_Name ep));
            ret resp
          }
      })"

section \<open>The other handlers and the routes\<close>

definition okResponse :: "string \<Rightarrow> Response" where
  "okResponse body = \<lparr>rsp_Status = 200, rsp_Header = Map.empty, rsp_Body = body\<rparr>"

definition handleHealthz :: "('w, 'z, Response outcome) gio" where
  "handleHealthz = ret (Returns (okResponse ''ok''))"

definition handleMetrics :: "('w, 'z, Response outcome) gio" where
  "handleMetrics = ret (Returns (okResponse (''# gateway metrics placeholder'' @ [newline])))"

text \<open>\<open>json.Encoder.Encode\<close> of a slice: nil is \<open>null\<close>; the encoder ends with a newline.\<close>

definition jsonSlice :: "string list \<Rightarrow> string" where
  "jsonSlice xs = (if xs = [] then ''null'' else ''['' @ Join xs '','' @ '']'')"

definition modelJSON :: "EndpointState \<Rightarrow> string" where
  "modelJSON ep = ''{'' @ jsonField ''id'' (jsonString (est_ModelID ep)) @ ''}''"

definition handleModels :: "(string list \<Rightarrow> string list) \<Rightarrow> ('w, 'z, Response outcome) gio" where
  "handleModels ord = do {
     r \<leftarrow> gets routes;
     let models = map modelJSON (endpointsIn ord r);
     ret (Returns (okResponse (''{'' @ jsonField ''data'' (jsonSlice models) @ ''}'' @ [newline])))
   }"

definition KVHitRate :: "(string \<times> float64) list \<Rightarrow> string \<Rightarrow> float64" where
  "KVHitRate hits endpoint = fget hits endpoint"

text \<open>\<open>jf\<close> is the encoding of a float; a nil \<open>kvSync\<close> is the argument \<open>False\<close>.\<close>

definition studioJSON ::
  "(float64 \<Rightarrow> string) \<Rightarrow> bool \<Rightarrow> (string \<times> float64) list \<Rightarrow> EndpointState \<Rightarrow> string" where
  "studioJSON jf hasSync hits ep =
     (let kvRate = (if hasSync then KVHitRate hits (est_Name ep) else 0)
      in ''{'' @ Join [jsonField ''name'' (jsonString (est_Name ep)),
           jsonField ''ready'' (Itoa (int (length (est_ReplicaURLs ep)))), jsonField ''starting'' (Itoa 0),
           jsonField ''kvHitRate'' (jf kvRate), jsonField ''model'' (jsonString (est_ModelID ep))] '','' @ ''}'')"

definition handleStudioEndpoints ::
  "(float64 \<Rightarrow> string) \<Rightarrow> bool \<Rightarrow> (string list \<Rightarrow> string list) \<Rightarrow> ('w, 'z, Response outcome) gio" where
  "handleStudioEndpoints jf hasSync ord = do {
     r \<leftarrow> gets routes;
     hits \<leftarrow> gets kvHits;
     ret (Returns (okResponse (jsonSlice (map (studioJSON jf hasSync hits) (endpointsIn ord r)) @ [newline])))
   }"

fun studioLogLines :: "'w env \<Rightarrow> int list \<Rightarrow> ('w, 'z, string) io" where
  "studioLogLines E [] = ret []"
| "studioLogLines E (i # is) = do {
     _ \<leftarrow> kSleep E (500 * 10 ^ 6);
     rest \<leftarrow> studioLogLines E is;
     ret (''[studio] log line '' @ Itoa i @ [newline] @ rest)
   }"

definition handleStudioLogs :: "'w env \<Rightarrow> ('w, 'z, Response outcome) io" where
  "handleStudioLogs E = do {
     body \<leftarrow> studioLogLines E [0, 1, 2];
     ret (Returns \<lparr>rsp_Status = 200,
       rsp_Header = [''Content-Type'' \<mapsto> [''text/plain''], ''Cache-Control'' \<mapsto> [''no-cache'']], rsp_Body = body\<rparr>)
   }"

text \<open>
  The patterns \<open>ListenAndServe\<close> registers match their path exactly.  What the mux of \<open>net/http\<close>
  answers for any other path (not found, a redirect to the clean path) is the argument \<open>other\<close>.
\<close>

record 'w gwConfig =
  gc_Env :: "'w env"
  gc_Order :: "string list \<Rightarrow> string list"
  gc_HasValidator :: bool
  gc_HasSync :: bool
  gc_FloatJSON :: "float64 \<Rightarrow> string"
  gc_Other :: "Request \<Rightarrow> Response"

definition mux :: "'w gwConfig \<Rightarrow> Request \<Rightarrow> ('w, 'z, Response outcome) gio" where
  "mux C req =
     (if rq_Path req = ''/healthz'' then handleHealthz
      else if rq_Path req = ''/v1/models'' then handleModels (gc_Order C)
      else if rq_Path req = ''/v1/chat/completions'' then handleChatCompletions (gc_Env C) (gc_Order C) req
      else if rq_Path req = ''/metrics'' then handleMetrics
      else if rq_Path req = ''/v1/studio/endpoints''
      then handleStudioEndpoints (gc_FloatJSON C) (gc_HasSync C) (gc_Order C)
      else if rq_Path req = ''/v1/studio/logs/stream'' then handleStudioLogs (gc_Env C)
      else ret (Returns (gc_Other C req)))"

definition ServeHTTP :: "'w gwConfig \<Rightarrow> Request \<Rightarrow> ('w, 'z, Response outcome) gio" where
  "ServeHTTP C req = Middleware (gc_Env C) (gc_HasValidator C) (mux C) req"

section \<open>Router lemmas\<close>

definition endpointOK :: "string \<Rightarrow> EndpointState \<Rightarrow> bool" where
  "endpointOK k ep \<longleftrightarrow> est_Name ep = k \<and> 0 \<le> est_InFlight ep \<and> 0 \<le> est_QueueDepth ep"

text \<open>Every endpoint is stored under its name, with counters that are not negative.\<close>

definition routerInv :: "Router \<Rightarrow> bool" where
  "routerInv r \<longleftrightarrow> list_all (\<lambda>k. endpointOK k (the (map_of r k))) (map fst r)"

lemma routerInv_iff: "routerInv r \<longleftrightarrow> (\<forall>k ep. map_of r k = Some ep \<longrightarrow> endpointOK k ep)"
proof -
  have "k \<in> fst ` set r \<longleftrightarrow> (\<exists>ep. map_of r k = Some ep)" for k
    by (metis map_of_eq_None_iff not_Some_eq)
  then show ?thesis by (force simp: routerInv_def list_all_iff)
qed

lemma routerInvD: "routerInv r \<Longrightarrow> map_of r k = Some ep \<Longrightarrow> endpointOK k ep"
  by (simp add: routerInv_iff)

lemma map_of_update [simp]: "map_of (AList.update k v r) = (map_of r)(k \<mapsto> v)"
  by (rule update_conv')

lemma routerInv_update: "routerInv r \<Longrightarrow> endpointOK k ep \<Longrightarrow> routerInv (AList.update k ep r)"
  by (auto simp: routerInv_iff)

lemma routerInv_Nil [simp]: "routerInv []"
  by (simp add: routerInv_def)

lemma routerInv_Register [simp]: "routerInv r \<Longrightarrow> routerInv (RegisterEndpoint r name modelID urls)"
  by (simp add: RegisterEndpoint_def routerInv_update endpointOK_def)

lemma routerInv_RegisterByModel:
  "routerInv r \<Longrightarrow> endpointOK (est_Name ep) ep \<Longrightarrow> routerInv (RegisterByModel r modelID ep)"
  by (simp add: RegisterByModel_def routerInv_update)

lemma routerInv_Inc [simp]: "routerInv r \<Longrightarrow> routerInv (IncQueue r n)"
  by (auto simp: IncQueue_def routerInv_iff endpointOK_def split: option.split)

lemma routerInv_Dec [simp]: "routerInv r \<Longrightarrow> routerInv (DecQueue r n)"
  by (auto simp: DecQueue_def routerInv_iff endpointOK_def split: option.split)

lemma routerInv_Pick [simp]: "routerInv r \<Longrightarrow> routerInv (snd (PickReplica r n))"
  by (auto simp: PickReplica_def routerInv_iff endpointOK_def split: option.split)

lemma QueueDepth_nonneg: "routerInv r \<Longrightarrow> 0 \<le> QueueDepth r n"
  by (auto simp: QueueDepth_def endpointOK_def split: option.split dest: routerInvD)

text \<open>
  The contract of the queue counters a request handler relies on.  \<open>known\<close> tells which keys have a
  counter; the counters of the other keys are not touched.
\<close>

locale load_counter =
  fixes inv :: "'r \<Rightarrow> bool"
    and known :: "'r \<Rightarrow> 'k \<Rightarrow> bool"
    and depth :: "'r \<Rightarrow> 'k \<Rightarrow> int"
    and inc :: "'r \<Rightarrow> 'k \<Rightarrow> 'r"
    and dec :: "'r \<Rightarrow> 'k \<Rightarrow> 'r"
  assumes depth_nonneg: "inv r \<Longrightarrow> 0 \<le> depth r k"
    and inc_depth: "depth (inc r k) k' = depth r k' + (if k' = k \<and> known r k then 1 else 0)"
    and dec_depth: "depth (dec r k) k' = depth r k' - (if k' = k \<and> known r k \<and> 0 < depth r k then 1 else 0)"
    and unknown_depth: "\<not> known r k \<Longrightarrow> depth r k = 0"
    and inc_inv: "inv r \<Longrightarrow> inv (inc r k)"
    and dec_inv: "inv r \<Longrightarrow> inv (dec r k)"
begin

text \<open>A decrement undoes an increment, whatever happened to the rest of the state in between.\<close>

lemma balanced:
  assumes "inv r" and "\<And>k'. depth r' k' = depth (inc r k) k'" and "known r' k = known r k"
  shows "depth (dec r' k) k' = depth r k'"
  using assms depth_nonneg [OF assms(1), of k] by (auto simp: dec_depth inc_depth)

text \<open>A decrement never takes a counter below its bound by the other holders.\<close>

lemma dec_le: "depth r k \<le> int n \<Longrightarrow> depth (dec r k) k \<le> int (n - 1)"
  using unknown_depth [of r k] by (auto simp: dec_depth)

lemma dec_other: "k' \<noteq> k \<Longrightarrow> depth (dec r k) k' = depth r k'"
  by (simp add: dec_depth)

lemma inc_le: "depth r k \<le> int n \<Longrightarrow> depth (inc r k) k \<le> int (Suc n)"
  by (auto simp: inc_depth)

lemma inc_other: "k' \<noteq> k \<Longrightarrow> depth (inc r k) k' = depth r k'"
  by (simp add: inc_depth)

end

definition registered :: "Router \<Rightarrow> string \<Rightarrow> bool" where
  "registered r n \<longleftrightarrow> map_of r n \<noteq> None"

lemma QueueDepth_Inc:
  "QueueDepth (IncQueue r n) m = QueueDepth r m + (if m = n \<and> registered r n then 1 else 0)"
  by (auto simp: registered_def QueueDepth_def IncQueue_def split: option.splits)

lemma QueueDepth_Dec:
  "QueueDepth (DecQueue r n) m = QueueDepth r m - (if m = n \<and> registered r n \<and> 0 < QueueDepth r n then 1 else 0)"
  by (auto simp: registered_def QueueDepth_def DecQueue_def split: option.splits)

lemma QueueDepth_unregistered: "\<not> registered r n \<Longrightarrow> QueueDepth r n = 0"
  by (simp add: registered_def QueueDepth_def)

interpretation rq: load_counter routerInv registered QueueDepth IncQueue DecQueue
  by unfold_locales (simp_all add: QueueDepth_nonneg QueueDepth_Inc QueueDepth_Dec QueueDepth_unregistered
      routerInv_Inc routerInv_Dec)

lemma registered_Inc [simp]: "registered (IncQueue r n) m = registered r m"
  by (auto simp: registered_def IncQueue_def split: option.split)

lemma registered_Dec [simp]: "registered (DecQueue r n) m = registered r m"
  by (auto simp: registered_def DecQueue_def split: option.split)

lemma registered_Pick [simp]: "registered (snd (PickReplica r n)) m = registered r m"
  by (auto simp: registered_def PickReplica_def split: option.split)

lemma QueueDepth_Pick [simp]: "QueueDepth (snd (PickReplica r n)) m = QueueDepth r m"
  by (auto simp: QueueDepth_def PickReplica_def split: option.split)

definition urlsOf :: "Router \<Rightarrow> string \<Rightarrow> string list" where
  "urlsOf r n = (case map_of r n of None \<Rightarrow> [] | Some ep \<Rightarrow> est_ReplicaURLs ep)"

lemma urlsOf_Inc [simp]: "urlsOf (IncQueue r n) m = urlsOf r m"
  by (auto simp: urlsOf_def IncQueue_def split: option.split)

lemma urlsOf_Pick [simp]: "urlsOf (snd (PickReplica r n)) m = urlsOf r m"
  by (auto simp: urlsOf_def PickReplica_def split: option.split)

lemma urlsOf_Dec [simp]: "urlsOf (DecQueue r n) m = urlsOf r m"
  by (auto simp: urlsOf_def DecQueue_def split: option.split)

lemma InFlight_Inc [simp]: "InFlight (IncQueue r n) m = InFlight r m"
  by (auto simp: InFlight_def IncQueue_def split: option.split)

lemma InFlight_nonneg: "routerInv r \<Longrightarrow> 0 \<le> InFlight r n"
  by (auto simp: InFlight_def endpointOK_def split: option.split dest: routerInvD)

lemma PickReplica_empty: "urlsOf r n = [] \<Longrightarrow> PickReplica r n = ([], r)"
  by (auto simp: PickReplica_def urlsOf_def split: option.split)

lemma PickReplica_url:
  "urlsOf r n \<noteq> [] \<Longrightarrow>
     fst (PickReplica r n) = urlsOf r n ! nat (InFlight r n mod int (length (urlsOf r n))) \<and>
     InFlight (snd (PickReplica r n)) n = InFlight r n + 1"
  by (auto simp: PickReplica_def urlsOf_def InFlight_def split: option.splits)

lemma PickReplica_in:
  assumes "urlsOf r n \<noteq> []"
  shows "fst (PickReplica r n) \<in> set (urlsOf r n)"
proof -
  have "nat (InFlight r n mod int (length (urlsOf r n))) < length (urlsOf r n)"
    using assms by (simp add: nat_less_iff)
  then show ?thesis using PickReplica_url [OF assms] by auto
qed

section \<open>Round robin\<close>

text \<open>The replicas a run of picks gives.\<close>

fun picks :: "Router \<Rightarrow> string \<Rightarrow> nat \<Rightarrow> string list \<times> Router" where
  "picks r n 0 = ([], r)"
| "picks r n (Suc k) = (case PickReplica r n of (u, r1) \<Rightarrow> case picks r1 n k of (us, r2) \<Rightarrow> (u # us, r2))"

lemma picks_add:
  "picks r n (j + k) = (case picks r n j of (us, r1) \<Rightarrow> case picks r1 n k of (vs, r2) \<Rightarrow> (us @ vs, r2))"
  by (induction j arbitrary: r) (auto split: prod.split)

lemma picks_state:
  "urlsOf r n \<noteq> [] \<Longrightarrow> urlsOf (snd (picks r n k)) n = urlsOf r n \<and> InFlight (snd (picks r n k)) n = InFlight r n + int k"
proof (induction k arbitrary: r)
  case (Suc k)
  obtain u r1 where 1: "PickReplica r n = (u, r1)" by fastforce
  have "urlsOf r1 n = urlsOf r n" "InFlight r1 n = InFlight r n + 1"
    using urlsOf_Pick [of r n n] PickReplica_url [OF Suc.prems] 1 by auto
  then show ?case using Suc.IH [of r1] Suc.prems 1 by (auto split: prod.splits)
qed simp

lemma picks_urls:
  assumes "urlsOf r n \<noteq> []" and "0 \<le> InFlight r n"
  shows "fst (picks r n k) = map (\<lambda>i. urlsOf r n ! ((nat (InFlight r n) + i) mod length (urlsOf r n))) [0..<k]"
proof (induction k)
  case (Suc k)
  obtain us r1 where 1: "picks r n k = (us, r1)" by fastforce
  then have r1: "urlsOf r1 n = urlsOf r n" "InFlight r1 n = InFlight r n + int k"
    using picks_state [OF assms(1), of k] by auto
  have "nat ((InFlight r n + int k) mod int (length (urlsOf r n))) =
      (nat (InFlight r n) + k) mod length (urlsOf r n)"
    using assms(2) by (simp add: nat_mod_distrib nat_add_distrib)
  then have "fst (PickReplica r1 n) = urlsOf r n ! ((nat (InFlight r n) + k) mod length (urlsOf r n))"
    using PickReplica_url [of r1 n] assms(1) r1 by simp
  then show ?case
    using Suc.IH 1 picks_add [of r n k 1] by (auto split: prod.splits)
qed simp

lemma snd_picks_Suc: "snd (picks r n (Suc k)) = snd (picks (snd (PickReplica r n)) n k)"
  by (simp split: prod.split)

lemma routerInv_picks: "routerInv r \<Longrightarrow> routerInv (snd (picks r n k))"
proof (induction k arbitrary: r)
  case (Suc k)
  then show ?case unfolding snd_picks_Suc by simp
qed simp

lemma mset_rotate: "mset (rotate m xs) = mset xs"
  by (metis append_take_drop_id mset_append rotate_drop_take union_commute)

lemma picks_round:
  assumes "urlsOf r n \<noteq> []" and "0 \<le> InFlight r n"
  shows "fst (picks r n (length (urlsOf r n))) = rotate (nat (InFlight r n)) (urlsOf r n)"
  unfolding picks_urls [OF assms] by (rule nth_equalityI) (auto simp: nth_rotate)

text \<open>
  C35: The router spreads requests evenly: as long as an endpoint is not registered again, in any
  \<open>c * k\<close> picks in a row from its \<open>k\<close> replicas every replica is picked exactly \<open>c\<close> times.
\<close>
theorem round_robin_fair:
  assumes "routerInv r" and "urlsOf r n \<noteq> []"
  shows "mset (fst (picks r n (c * length (urlsOf r n)))) = repeat_mset c (mset (urlsOf r n))"
  using assms
proof (induction c arbitrary: r)
  case (Suc c)
  let ?k = "length (urlsOf r n)"
  obtain us r1 where 1: "picks r n ?k = (us, r1)" by fastforce
  then have us: "mset us = mset (urlsOf r n)"
    using picks_round [OF Suc.prems(2) InFlight_nonneg [OF Suc.prems(1)]] by (auto simp: mset_rotate)
  have "urlsOf r1 n = urlsOf r n" "routerInv r1"
    using picks_state [OF Suc.prems(2), of ?k] routerInv_picks [OF Suc.prems(1), of n ?k] 1 by auto
  then show ?case
    using Suc.IH [of r1] Suc.prems us 1 picks_add [of r n ?k "c * ?k"] by (auto split: prod.splits)
qed simp

theorem round_robin_fair_witness:
  "mset (fst (picks (RegisterEndpoint [] ''e'' ''m'' [''a'', ''b'', ''c'']) ''e'' 6)) =
     repeat_mset 2 {#''a'', ''b'', ''c''#}"
  using round_robin_fair [of "RegisterEndpoint [] ''e'' ''m'' [''a'', ''b'', ''c'']" "''e''" 2]
  by (simp add: urlsOf_def RegisterEndpoint_def routerInv_def endpointOK_def del: picks.simps)

section \<open>Chat completions\<close>

fun httpEv :: "event \<Rightarrow> (HTTPRequest \<times> (goerror + HTTPResponse)) option" where
  "httpEv (HTTP q a) = Some (q, a)"
| "httpEv e = None"

text \<open>The endpoint serves a model under its model id or its own name.\<close>

definition serves :: "Router \<Rightarrow> string \<Rightarrow> string \<Rightarrow> bool" where
  "serves r model n \<longleftrightarrow> (\<exists>ep. map_of r n = Some ep \<and> (est_ModelID ep = model \<or> n = model))"

lemma endpointsIn_keys:
  assumes "map_order ord" and "ep \<in> set (endpointsIn ord r)" and "routerInv r"
  shows "map_of r (est_Name ep) = Some ep"
proof -
  obtain k where k: "k \<in> set (ord (map fst r))" "ep = the (map_of r k)"
    using assms(2) by (auto simp: endpointsIn_def)
  have "set (ord (map fst r)) = set (map fst r)"
    using assms(1) unfolding map_order_def by (metis mset_eq_setD)
  with k obtain ep' where "map_of r k = Some ep'" by (metis map_of_eq_None_iff not_Some_eq set_map)
  with k show ?thesis using routerInvD [OF assms(3)] by (auto simp: endpointOK_def)
qed

lemma in_endpointsIn:
  assumes "map_order ord" and "map_of r n = Some ep"
  shows "ep \<in> set (endpointsIn ord r)"
proof -
  have "n \<in> set (ord (map fst r))"
    using assms unfolding map_order_def by (metis map_of_SomeD image_eqI fst_conv mset_eq_setD set_map)
  with assms(2) show ?thesis unfolding endpointsIn_def by force
qed

lemma PickEndpointByModel_Some:
  assumes "map_order ord" and "routerInv r" and "PickEndpointByModel ord r model = Some ep"
  shows "map_of r (est_Name ep) = Some ep \<and> serves r model (est_Name ep)"
proof -
  have "ep \<in> set (endpointsIn ord r)" "est_ModelID ep = model \<or> est_Name ep = model"
    using assms(3) by (auto simp: PickEndpointByModel_def find_Some_iff)
  then show ?thesis using endpointsIn_keys [OF assms(1) _ assms(2)] by (auto simp: serves_def)
qed

lemma PickEndpointByModel_None:
  assumes "map_order ord" and "routerInv r" and "PickEndpointByModel ord r model = None"
  shows "\<not> serves r model n"
proof
  assume "serves r model n"
  then obtain ep where ep: "map_of r n = Some ep" "est_ModelID ep = model \<or> n = model"
    by (auto simp: serves_def)
  with in_endpointsIn [OF assms(1) ep(1)] routerInvD [OF assms(2) ep(1)] assms(3) show False
    by (auto simp: PickEndpointByModel_def find_None_iff endpointOK_def)
qed

text \<open>What a proxied request does: at most one call, to the given replica, and nothing to the router.\<close>

definition proxied :: "Request \<Rightarrow> string \<Rightarrow> Response outcome \<Rightarrow> event list \<Rightarrow> bool" where
  "proxied req url resp es \<longleftrightarrow>
     (es = [] \<and> ((\<exists>m. resp = Panics m) \<or> (\<exists>h. resp = Returns h \<and> rsp_Status h = 500))) \<or>
     (\<exists>body a. es = [HTTP (proxyRequest url req body) a] \<and>
        (case a of
           Inl err \<Rightarrow> resp = Returns (httpError (ErrorText err) 502 Map.empty)
         | Inr r \<Rightarrow> resp = Returns \<lparr>rsp_Status = hr_StatusCode r, rsp_Header = hr_Header r, rsp_Body = hr_Body r\<rparr>))"

text \<open>What a client of an endpoint gets: 429 with no replica, else the answer of one of them.\<close>

definition answered :: "Router \<Rightarrow> string \<Rightarrow> Request \<Rightarrow> Response outcome \<Rightarrow> event list \<Rightarrow> bool" where
  "answered r n req resp es \<longleftrightarrow>
     (if urlsOf r n = []
      then es = [] \<and> resp = Returns (httpError ''no replicas ready'' 429 [''Retry-After'' \<mapsto> [''5'']])
      else \<exists>url\<in>set (urlsOf r n). proxied req url resp es)"

lemma wp_proxyChat:
  fixes s :: "('w, event, 'z) gw_scheme"
  shows "wp (proxyChat E req model url) (\<lambda>resp s'. routes s' = routes s \<and> demand s' = demand s \<and> kvHits s' = kvHits s \<and>
     (\<exists>es. trace s' = trace s @ es \<and> proxied req url resp es)) s"
  by (auto simp: proxyChat_def wp proxied_def httpError_def split: outcome.split option.split prod.split sum.split)

text \<open>
  C22: A chat request leaves every queue counter, and the replicas of every endpoint, as it found
  them, on every way out, and keeps the router's invariant.  If no endpoint serves the model the
  answer is 404 and nothing is sent; otherwise an endpoint that serves it is chosen: with no replica
  the answer is 429 with \<open>Retry-After\<close> and nothing is sent, and else at most one request is sent, to
  one of its replicas, whose answer is passed on (502 if there was none).
\<close>
theorem chat_completions:
  assumes inv: "routerInv (routes s)" and ord: "map_order ord"
    and urls: "\<And>n. [] \<notin> set (urlsOf (routes s) n)"
  shows "wp (handleChatCompletions E ord req) (\<lambda>resp s'.
     routerInv (routes s') \<and>
     (\<forall>n. QueueDepth (routes s') n = QueueDepth (routes s) n \<and> urlsOf (routes s') n = urlsOf (routes s) n) \<and>
     (\<exists>es. trace s' = trace s @ es \<and>
       (if \<exists>n. serves (routes s) (unmarshalModel (rq_Body req)) n
        then \<exists>n. serves (routes s) (unmarshalModel (rq_Body req)) n \<and> answered (routes s) n req resp es
        else es = [] \<and> resp = Returns (httpError ''model not found'' 404 Map.empty)))) s"
proof (cases "PickEndpointByModel ord (routes s) (unmarshalModel (rq_Body req))")
  case None
  with PickEndpointByModel_None [OF ord inv None] inv show ?thesis
    by (auto simp: handleChatCompletions_def Let_def wp)
next
  case (Some ep)
  let ?n = "est_Name ep" and ?r = "routes s"
  let ?r1 = "IncQueue ?r ?n"
  let ?r2 = "snd (PickReplica ?r1 ?n)" and ?url = "fst (PickReplica ?r1 ?n)"
  let ?r3 = "DecQueue ?r2 ?n"
  have sv: "serves ?r (unmarshalModel (rq_Body req)) ?n"
    using PickEndpointByModel_Some [OF ord inv Some] by simp
  have fin: "routerInv ?r3 \<and> (\<forall>n. QueueDepth ?r3 n = QueueDepth ?r n \<and> urlsOf ?r3 n = urlsOf ?r n)"
    using inv rq.balanced [OF inv, of ?r2 ?n] by simp
  have url: "if urlsOf ?r ?n = [] then ?url = [] else ?url \<noteq> [] \<and> ?url \<in> set (urlsOf ?r ?n)"
    using PickReplica_empty [of ?r1 ?n] PickReplica_in [of ?r1 ?n] urls [of ?n] by auto
  have out: "\<exists>n. serves ?r (unmarshalModel (rq_Body req)) n \<and> answered ?r n req resp es"
    if "if ?url = [] then es = [] \<and> resp = Returns (httpError ''no replicas ready'' 429 [''Retry-After'' \<mapsto> [''5'']])
      else proxied req ?url resp es" for resp es
    using sv url that by (intro exI [of _ ?n]) (auto simp: answered_def split: if_splits)
  have ex: "\<exists>n. serves ?r (unmarshalModel (rq_Body req)) n" using sv by blast
  show ?thesis
    unfolding handleChatCompletions_def Let_def wp Some option.case onRouter_def if_P [OF ex]
    using fin by (auto simp: split_beta wp intro!: wp_mono [OF wp_proxyChat] out)
qed

definition gwState :: "Router \<Rightarrow> (unit, event) gw" where
  "gwState r = \<lparr>world = (), trace = [], routes = r, demand = [], kvHits = []\<rparr>"

definition chatRequest :: "string \<Rightarrow> Request" where
  "chatRequest auth = \<lparr>rq_Path = ''/v1/chat/completions'', rq_Header = [''Authorization'' \<mapsto> [auth]],
     rq_Body = textJSON (JObj [(''model'', JStr ''m'')])\<rparr>"

lemma chatRequest_model: "unmarshalModel (rq_Body (chatRequest auth)) = ''m''"
proof -
  have "jsonOK maxNestingDepth (JObj [(''model'', JStr ''m'')])"
    by (simp add: maxNestingDepth_def rawOK_iff litBody.intros)
  then show ?thesis
    by (simp add: unmarshalModel_def chatRequest_def parse_text setModel_def unquote_ascii ToLower_def toLowerChar_def)
qed

theorem chat_completions_witness:
  "wp (handleChatCompletions idleEnv rev (chatRequest [])) (\<lambda>resp s'.
     QueueDepth (routes s') ''e'' = 0 \<and> (\<exists>es. trace s' = es \<and> proxied (chatRequest []) ''http://a:8000'' resp es))
     (gwState (RegisterEndpoint [] ''e'' ''m'' [''http://a:8000'']))"
proof -
  define s where "s = gwState (RegisterEndpoint [] ''e'' ''m'' [''http://a:8000''])"
  have s: "routerInv (routes s)" "[] \<notin> set (urlsOf (routes s) n)" "QueueDepth (routes s) ''e'' = 0"
    "urlsOf (routes s) ''e'' = [''http://a:8000'']" "trace s = []"
    "serves (routes s) (unmarshalModel (rq_Body (chatRequest []))) n \<longleftrightarrow> n = ''e''" for n
    by (auto simp: s_def gwState_def routerInv_def RegisterEndpoint_def endpointOK_def urlsOf_def serves_def
        chatRequest_model QueueDepth_def)
  show ?thesis
    using chat_completions [OF s(1) map_order_rev s(2), of idleEnv "chatRequest []"]
    unfolding s_def [symmetric] by (rule wp_mono) (auto simp: s answered_def)
qed

section \<open>Rewriting the body\<close>

lemma update_fields:
  "map_of (map (\<lambda>(k, v). (k, denJSON v)) (AList.update k v m)) = (map_of (map (\<lambda>(k, v). (k, denJSON v)) m))(k \<mapsto> denJSON v)"
  by (induction m) auto

lemma rewritten_map:
  assumes "parseJSON body = Some (JObj kvs)"
    and m_def: "m = AList.update ''model'' (JStr (quoteBody served)) (fold putField kvs [])"
  shows "distinct (map fst m)" "\<And>k v. (k, v) \<in> set m \<Longrightarrow> jsonOK (maxNestingDepth - 1) v \<and> toValid k = k"
    "map_of (map (\<lambda>(k, v). (k, denJSON v)) m) = (fieldsOf kvs)(''model'' \<mapsto> JStr (toValid served))"
proof -
  show "distinct (map fst m)" unfolding m_def by (intro distinct_update put_distinct) simp
  have ok: "jsonOK (maxNestingDepth - 1) v" if "(k, v) \<in> set kvs" for k v
    using parse_OK [OF assms(1)] that by auto
  have "unquote (quoteBody ''model'') = ''model''"
    by (simp add: quoteBody_ascii escAscii_def unquote_ascii)
  then have "toValid ''model'' = ''model''" by (simp add: unquote_quoteBody)
  then show "jsonOK (maxNestingDepth - 1) v \<and> toValid k = k" if "(k, v) \<in> set m" for k v
    using update_set [OF that [unfolded m_def]]
      put_all [of kvs "\<lambda>k v. jsonOK (maxNestingDepth - 1) v \<and> toValid k = k" "[]" k v] ok
    by (auto simp: toValid_unquote rawOK_iff raw_quoteBody)
  show "map_of (map (\<lambda>(k, v). (k, denJSON v)) m) = (fieldsOf kvs)(''model'' \<mapsto> JStr (toValid served))"
    unfolding m_def update_fields fields_put by (simp add: unquote_quoteBody)
qed

text \<open>
  C38: The body of a proxied request.  If the client's body is a JSON object, the replica gets an object
  with the same fields and values, however deep, except that \<open>model\<close> is the model without its
  \<open>hf://\<close> prefix (invalid UTF-8 in it replaced), the keys sorted and each there once; of equal
  keys of the client's object the last counts.  On a body that is the JSON value \<open>null\<close> the handler panics,
  and any other body, JSON or not, is passed on as it is.
\<close>
theorem rewrite_body:
  "case parseJSON body of
     Some (JObj kvs) \<Rightarrow> \<exists>out kvs'. rewriteProxyModelBody body (serveModelID model) = Returns out \<and>
       parseJSON out = Some (JObj kvs') \<and>
       fieldsOf kvs' = (fieldsOf kvs)(''model'' \<mapsto> JStr (toValid (TrimPrefix model ''hf://''))) \<and>
       sorted (map (unquote \<circ> fst) kvs') \<and> distinct (map (unquote \<circ> fst) kvs')
   | Some JNull \<Rightarrow> \<exists>msg. rewriteProxyModelBody body (serveModelID model) = Panics msg
   | _ \<Rightarrow> rewriteProxyModelBody body (serveModelID model) = Returns body"
proof (cases "\<exists>kvs. parseJSON body = Some (JObj kvs)")
  case True
  then obtain kvs where kvs: "parseJSON body = Some (JObj kvs)" by blast
  note m = rewritten_map [where served = "serveModelID model", OF kvs refl]
  from marshal_unmarshal [OF m(1, 2)] m(3) kvs show ?thesis
    by (force simp: rewriteProxyModelBody_def unmarshalMap_def serveModelID_def)
qed (auto simp: rewriteProxyModelBody_def unmarshalMap_def split: option.split json.split)

section \<open>Authorisation\<close>

fun tokensEv :: "event \<Rightarrow> (goerror + CodaToken list) option" where
  "tokensEv (Kube (ListTokens r)) = Some r"
| "tokensEv e = None"

fun clockEv :: "event \<Rightarrow> gotime option" where
  "clockEv (Clock t) = Some t"
| "clockEv e = None"

text \<open>
  When the listed tokens grant a pair of token id and secret: the first token with that id has the
  hash of the secret, and its expiry, if it has one, is not before the time read.
\<close>

definition tokenGrants :: "'w env \<Rightarrow> CodaToken list \<Rightarrow> string \<Rightarrow> string \<Rightarrow> gotime list \<Rightarrow> bool" where
  "tokenGrants E ts tokenID secret clocks \<longleftrightarrow>
     (case find (\<lambda>t. tks_TokenID (tok_Spec t) = tokenID) ts of
        None \<Rightarrow> False
      | Some t \<Rightarrow> tks_SecretHash (tok_Spec t) = EncodeToString (x_Sha256 E secret) \<and>
          (case tks_ExpiresAt (tok_Spec t) of None \<Rightarrow> True | Some e \<Rightarrow> list_all (\<lambda>now. now \<le> e) clocks \<and> clocks \<noteq> []))"

text \<open>When the events of the check show that a bearer header is good.\<close>

definition granted :: "'w env \<Rightarrow> string \<Rightarrow> event list \<Rightarrow> bool" where
  "granted E auth es \<longleftrightarrow> (\<exists>tokenID secret ts. auth = ''Bearer '' @ tokenID @ '':'' @ secret \<and>
     CHR '':'' \<notin> set tokenID \<and> select tokensEv es = [Inr ts] \<and> tokenGrants E ts tokenID secret (select clockEv es))"

definition authEv :: "event \<Rightarrow> bool" where
  "authEv e \<longleftrightarrow> tokensEv e \<noteq> None \<or> clockEv e \<noteq> None"

lemma emits_checkTokens:
  "emits (checkTokens E tokenID (EncodeToString (x_Sha256 E secret)) ts) (\<lambda>ok es.
     list_all authEv es \<and> select tokensEv es = [] \<and> (ok \<longleftrightarrow> tokenGrants E ts tokenID secret (select clockEv es)))"
proof (induction ts)
  case (Cons t ts)
  show ?case
    by (auto intro!: emits emits_mono [OF Cons.IH] simp: authEv_def tokenGrants_def not_less)
qed (auto intro!: emits simp: tokenGrants_def)

lemma SplitN2_pair:
  "SplitN2 s c = [a, b] \<longleftrightarrow> s = a @ c # b \<and> c \<notin> set a"
  using SplitN2_cases [of c s] SplitN2_append by fastforce

lemma granted_pair:
  assumes "CHR '':'' \<notin> set tokenID"
  shows "granted E (''Bearer '' @ tokenID @ '':'' @ secret) es \<longleftrightarrow>
    (\<exists>ts. select tokensEv es = [Inr ts] \<and> tokenGrants E ts tokenID secret (select clockEv es))"
proof -
  have "tokenID' = tokenID \<and> secret' = secret"
    if "tokenID @ CHR '':'' # secret = tokenID' @ CHR '':'' # secret'" "CHR '':'' \<notin> set tokenID'" for tokenID' secret'
    using SplitN2_append [OF that(2), of secret'] SplitN2_append [OF assms, of secret] that(1) by simp
  with assms show ?thesis unfolding granted_def by fastforce
qed

lemma emits_Validate:
  "emits (Validate E auth) (\<lambda>ok es. list_all authEv es \<and> (ok \<longleftrightarrow> granted E auth es))"
proof (cases "\<exists>tokenID secret. auth = ''Bearer '' @ tokenID @ '':'' @ secret \<and> CHR '':'' \<notin> set tokenID")
  case True
  then obtain tokenID secret where
    auth: "auth = ''Bearer '' @ tokenID @ '':'' @ secret" "CHR '':'' \<notin> set tokenID" by blast
  have split: "SplitN2 (tokenID @ '':'' @ secret) (CHR '':'') = [tokenID, secret]"
    using auth(2) by (simp add: SplitN2_append)
  show ?thesis
    unfolding Validate_def auth(1) HasPrefix_append TrimPrefix_append split granted_pair [OF auth(2)]
    by (auto intro!: emits emits_mono [OF emits_checkTokens] simp: authEv_def)
next
  case False
  then have no: "\<not> granted E auth es" for es by (auto simp: granted_def)
  have "\<not> (HasPrefix auth ''Bearer '' \<and> SplitN2 (TrimPrefix auth ''Bearer '') (CHR '':'') = [a, b])" for a b
    using False by (auto simp: HasPrefix_iff SplitN2_pair TrimPrefix_def HasPrefix_def) (metis append_Cons append_Nil)
  then show ?thesis
    unfolding Validate_def by (auto intro!: emits simp: no split: list.split)
qed

lemma wp_Validate_frame:
  fixes s :: "('w, event, 'z) gw_scheme"
  shows "wp (Validate E auth) (\<lambda>_ s'. routes s' = routes s \<and> demand s' = demand s \<and> kvHits s' = kvHits s) s"
proof -
  have "wp (checkTokens E a h ts) (\<lambda>_ s'. routes s' = routes s \<and> demand s' = demand s \<and> kvHits s' = kvHits s) s"
    for a h ts and s :: "('w, event, 'z) gw_scheme"
    by (induction ts) (auto simp: wp split: option.split prod.split)
  from wp_mono [OF this] show ?thesis
    unfolding Validate_def by (auto simp: wp split: list.split sum.split prod.split)
qed

text \<open>
  C10: Every request but a health check passes the token check first.  The check only lists the
  tokens and reads the clock, and leaves the server's state alone; if what it read grants the bearer
  header, the handler of the path runs, and if not the answer is 401 and nothing else happens.  A
  health check is answered without any of this and has no effect.
\<close>
theorem auth_gate:
  "wp (ServeHTTP C req) (\<lambda>resp s'.
     if rq_Path req = ''/healthz'' then s' = s \<and> resp = Returns (okResponse ''ok'')
     else \<exists>s1 es. trace s1 = trace s @ es \<and> list_all authEv es \<and>
       routes s1 = routes s \<and> demand s1 = demand s \<and> kvHits s1 = kvHits s \<and>
       (if gc_HasValidator C \<and> granted (gc_Env C) (headerGet (rq_Header req) ''Authorization'') es
        then run_state (mux C req) s1 = (resp, s')
        else s' = s1 \<and> resp = Returns (httpError ''unauthorized'' 401 Map.empty))) s"
proof (cases "rq_Path req = ''/healthz''")
  case True
  then show ?thesis
    by (simp add: ServeHTTP_def Middleware_def authorized_def mux_def handleHealthz_def wp)
next
  case False
  let ?auth = "headerGet (rq_Header req) ''Authorization''"
  have no: "\<not> granted E [] es" for E es by (simp add: granted_def)
  note v = wp_conj [OF emits_wp [OF emits_Validate [of "gc_Env C" ?auth]] wp_Validate_frame]
  have "wp (authorized (gc_Env C) (gc_HasValidator C) req) (\<lambda>ok s1. \<exists>es. trace s1 = trace s @ es \<and> list_all authEv es \<and>
       routes s1 = routes s \<and> demand s1 = demand s \<and> kvHits s1 = kvHits s \<and>
       (ok \<longleftrightarrow> gc_HasValidator C \<and> granted (gc_Env C) ?auth es)) s"
    using False by (auto simp: authorized_def Let_def wp no intro!: wp_mono [OF v])
  then show ?thesis
    unfolding ServeHTTP_def Middleware_def wp_bind
    by (rule wp_mono) (use False in \<open>auto simp: wp intro!: wp_runI\<close>)
qed

section \<open>Token round trip\<close>

fun createTokenEv :: "event \<Rightarrow> (CodaToken \<times> goerror option) option" where
  "createTokenEv (Kube (CreateToken t r)) = Some (t, r)"
| "createTokenEv e = None"

text \<open>Every check that lists the token \<open>t\<close> first among those with its id accepts the pair.\<close>

definition pairAccepted :: "'w env \<Rightarrow> CodaToken \<Rightarrow> string \<Rightarrow> string \<Rightarrow> bool" where
  "pairAccepted E t tokenID secret \<longleftrightarrow>
     emits (Validate E (''Bearer '' @ tokenID @ '':'' @ secret) :: ('w, unit, bool) io) (\<lambda>ok es. \<forall>ts.
       select tokensEv es = [Inr ts] \<and> find (\<lambda>t'. tks_TokenID (tok_Spec t') = tokenID) ts = Some t \<longrightarrow> ok)"

lemma pairAcceptedI:
  assumes "CHR '':'' \<notin> set tokenID" and "tks_SecretHash (tok_Spec t) = EncodeToString (x_Sha256 E secret)"
    and "tks_ExpiresAt (tok_Spec t) = None"
  shows "pairAccepted E t tokenID secret"
  unfolding pairAccepted_def
  using assms granted_pair [OF assms(1), of E secret]
  by (intro emits_mono [OF emits_Validate]) (auto simp: tokenGrants_def)

text \<open>
  C34: Creating a token stores one resource under the token's id and namespace, with the hash of
  the secret and not the secret, and no expiry; if the API server accepts it, the pair that is printed
  is accepted as a bearer token by every later check in which that resource is the first one
  listed with the id.  The id must not contain a colon.
\<close>
theorem token_roundtrip:
  assumes "CHR '':'' \<notin> set tokenID"
  shows "emits (gateway_CreateToken E namespace tokenID) (\<lambda>r es. \<exists>secret t a. select createTokenEv es = [(t, a)] \<and>
     om_Name (tok_Meta t) = tokenID \<and> om_Namespace (tok_Meta t) = namespace \<and>
     tok_Spec t = \<lparr>tks_TokenID = tokenID, tks_SecretHash = EncodeToString (x_Sha256 E secret), tks_ExpiresAt = None\<rparr> \<and>
     r = (case a of Some err \<Rightarrow> Inl err | None \<Rightarrow> Inr (tokenID @ '':'' @ secret)) \<and>
     pairAccepted E t tokenID secret)"
  unfolding gateway_CreateToken_def Let_def
proof (intro emits)
  fix now e
  show "\<exists>secret t a. select createTokenEv [Clock now, Kube (CreateToken
      \<lparr>tok_Meta = zeroMeta\<lparr>om_Name := tokenID, om_Namespace := namespace\<rparr>,
       tok_Spec = \<lparr>tks_TokenID = tokenID, tks_SecretHash = EncodeToString (x_Sha256 E (tokenID @ ''-'' @ Itoa now)),
         tks_ExpiresAt = None\<rparr>, tok_Status = \<lparr>tkt_Conditions = []\<rparr>\<rparr> e)] = [(t, a)] \<and>
     om_Name (tok_Meta t) = tokenID \<and> om_Namespace (tok_Meta t) = namespace \<and>
     tok_Spec t = \<lparr>tks_TokenID = tokenID, tks_SecretHash = EncodeToString (x_Sha256 E secret), tks_ExpiresAt = None\<rparr> \<and>
     (case e of None \<Rightarrow> Inr (tokenID @ '':'' @ tokenID @ ''-'' @ Itoa now) | Some err \<Rightarrow> Inl err) =
       (case a of Some err \<Rightarrow> Inl err | None \<Rightarrow> Inr (tokenID @ '':'' @ secret)) \<and>
     pairAccepted E t tokenID secret"
    using assms by (intro exI [of _ "tokenID @ ''-'' @ Itoa now"]) (simp add: pairAcceptedI)
qed

text \<open>A one-token cluster: the witness creates a token in it and presents the pair.\<close>

definition tokenEnv :: "CodaToken option env" where
  "tokenEnv = idleEnv\<lparr>x_Now := (\<lambda>w. (7, w)), x_CreateToken := (\<lambda>t w. (None, Some t)),
     x_ListTokens := (\<lambda>w. (Inr (case w of None \<Rightarrow> [] | Some t \<Rightarrow> [t]), w))\<rparr>"

lemma createToken_run:
  "wp (gateway_CreateToken tokenEnv ''default'' ''ci'')
     (\<lambda>r s'. \<exists>t. world s' = Some t \<and> select createTokenEv (trace s') = [(t, None)] \<and> tks_TokenID (tok_Spec t) = ''ci'')
     \<lparr>world = None, trace = []\<rparr>"
  by (simp add: gateway_CreateToken_def tokenEnv_def wp)

lemma checkTokens_events:
  "wp (checkTokens E i h ts) (\<lambda>_ s'. \<exists>es. trace s' = trace s @ es \<and> select tokensEv es = []) s"
  by (induction ts) (auto simp: wp split: option.split prod.split)

lemma validate_lists:
  "wp (Validate tokenEnv (''Bearer '' @ ''ci'' @ '':'' @ secret))
     (\<lambda>_ s''. \<exists>es. trace s'' = trace s @ es \<and> select tokensEv es = [Inr (case world s of None \<Rightarrow> [] | Some t \<Rightarrow> [t])]) s"
  by (auto simp: Validate_def wp HasPrefix_def TrimPrefix_def tokenEnv_def intro!: wp_mono [OF checkTokens_events])

theorem token_roundtrip_witness:
  "wp (gateway_CreateToken tokenEnv ''default'' ''ci'') (\<lambda>r s'. \<exists>secret. r = Inr (''ci'' @ '':'' @ secret) \<and>
     wp (Validate tokenEnv (''Bearer '' @ ''ci'' @ '':'' @ secret)) (\<lambda>ok _. ok) s') \<lparr>world = None, trace = []\<rparr>"
proof -
  let ?s = "\<lparr>world = None, trace = []\<rparr> :: (CodaToken option, event) sys"
  have ok: "wp (Validate tokenEnv (''Bearer '' @ ''ci'' @ '':'' @ secret)) (\<lambda>ok _. ok) s'"
    if "pairAccepted tokenEnv t ''ci'' secret" "world s' = Some t" "tks_TokenID (tok_Spec t) = ''ci''"
    for s' :: "(CodaToken option, event) sys" and t secret
    using wp_conj [OF emits_wp [OF that(1) [unfolded pairAccepted_def], of s'] validate_lists [of secret s']]
      that(2, 3) by (auto elim!: wp_mono)
  have "CHR '':'' \<notin> set ''ci''" by simp
  from wp_conj [OF createToken_run emits_wp [OF token_roundtrip [OF this, of tokenEnv "''default''"], of ?s]]
  show ?thesis by (rule wp_mono) (auto intro!: ok [simplified])
qed

section \<open>Autoscaler\<close>

lemma goDiv_nonneg: "0 \<le> a \<Longrightarrow> 0 < b \<Longrightarrow> goDiv a b = a div b"
  by (auto simp: goDiv_def sgn_if)

text \<open>
  The autoscaler's answer is within the endpoint's bounds, and within them it is the load divided
  by the target (8 if none is set), rounded down: it is above the minimum only if that many replicas
  are loaded to the target, and below the maximum only if one more would not be.  The demand
  signal it keeps is not negative.
\<close>
theorem autoscaler_evaluate:
  assumes "sc_MinReplicas (ep_Scaling ep) \<le> sc_MaxReplicas (ep_Scaling ep)"
    and "0 \<le> inFlight" and "0 \<le> queueDepth" and "0 \<le> fget ewma (ep_Name ep)"
    and "t = (if st_Value (sc_Target (ep_Scaling ep)) \<le> 0 then 8 else st_Value (sc_Target (ep_Scaling ep)))"
    and "Evaluate ewma ep inFlight queueDepth = (desired, ewma')"
  shows "sc_MinReplicas (ep_Scaling ep) \<le> desired \<and> desired \<le> sc_MaxReplicas (ep_Scaling ep) \<and>
    (desired = sc_MinReplicas (ep_Scaling ep) \<or> desired * t \<le> inFlight + queueDepth) \<and>
    (desired = sc_MaxReplicas (ep_Scaling ep) \<or> inFlight + queueDepth < (desired + 1) * t) \<and>
    0 \<le> DemandForecast ewma' (ep_Name ep)"
proof -
  let ?q = "(inFlight + queueDepth) div t"
  have t: "0 < t" using assms(5) by simp
  have d: "desired = (if sc_MaxReplicas (ep_Scaling ep) < max ?q (sc_MinReplicas (ep_Scaling ep))
      then sc_MaxReplicas (ep_Scaling ep) else max ?q (sc_MinReplicas (ep_Scaling ep)))"
    using assms t by (auto simp: Evaluate_def Let_def clampReplicas_def goDiv_nonneg split: if_splits)
  have q: "?q * t \<le> inFlight + queueDepth" "inFlight + queueDepth < (?q + 1) * t"
    using t by (simp_all add: minus_mod_eq_div_mult [symmetric] distrib_right)
  have mono: "x \<le> y \<Longrightarrow> x * t \<le> y * t" for x y using t by simp
  have "0 \<le> f_sub 1 (fl (3 / 10))" "0 \<le> fl (3 / 10)"
    by code_simp+
  then have "0 \<le> DemandForecast ewma' (ep_Name ep)"
    using assms by (auto simp: Evaluate_def Let_def DemandForecast_def fget_def
        intro!: f_add_nonneg f_mul_nonneg f_of_int_nonneg)
  moreover have "desired = sc_MinReplicas (ep_Scaling ep) \<or> desired \<le> ?q"
    "desired = sc_MaxReplicas (ep_Scaling ep) \<or> ?q \<le> desired"
    using d assms(1) by (auto split: if_splits simp: max_def)
  ultimately show ?thesis
    using d assms(1) q mono [of desired ?q] mono [of "?q + 1" "desired + 1"] by (auto split: if_splits)
qed

definition scaledEndpoint :: CodaEndpoint where
  "scaledEndpoint = zeroEndpoint\<lparr>ep_Meta := zeroMeta\<lparr>om_Name := ''e'', om_Namespace := ''n''\<rparr>,
     ep_Spec := (ep_Spec zeroEndpoint)\<lparr>eps_Scaling := \<lparr>sc_MinReplicas = 1, sc_MaxReplicas = 4,
       sc_Target = \<lparr>st_Metric = [], st_Value = 0\<rparr>, sc_ScaleToZeroAfter = []\<rparr>\<rparr>\<rparr>"

theorem autoscaler_evaluate_witness:
  "fst (Evaluate [] scaledEndpoint 10 7) \<in> {1..4} \<and>
   (fst (Evaluate [] scaledEndpoint 10 7) = 1 \<or> fst (Evaluate [] scaledEndpoint 10 7) * 8 \<le> 10 + 7)"
  using autoscaler_evaluate [of scaledEndpoint 10 7 "[]" 8, OF _ _ _ _ _ prod.collapse [symmetric]]
  by (simp add: scaledEndpoint_def zeroEndpoint_def fget_def)

end
