(* ===== verification/Gateway_Sync.thy ===== *)
theory Gateway_Sync
  imports Gateway
begin

text \<open>
  \<open>internal/gateway/k8s.go\<close>: the loop that registers the ready replicas of every endpoint in the
  router, scrapes their prefix-cache counters, and writes the autoscaler's decision and the demand
  signal back to the cluster.
\<close>

section \<open>k8s.go: metrics\<close>

text \<open>
  \<open>bufio.Scanner\<close> with lines: the pieces between newlines without a final empty one and without a
  carriage return at the end; a line of 65536 bytes or more stops the scan.
\<close>

definition dropCR :: "string \<Rightarrow> string" where
  "dropCR l = (if l \<noteq> [] \<and> last l = CHR 0x0D then butlast l else l)"

definition scanLines :: "string \<Rightarrow> string list" where
  "scanLines s =
     (let ls = Split s newline
      in map dropCR (takeWhile (\<lambda>l. length l < 65536) (if last ls = [] then butlast ls else ls)))"

definition parseMetricCounter :: "string \<Rightarrow> int \<times> bool" where
  "parseMetricCounter line =
     (let parts = Fields line
      in if length parts < 2 then (0, False) else ParseUint (parts ! 1))"

text \<open>One turn of the loop over the lines; the error of \<open>parseMetricCounter\<close> is dropped.\<close>

definition metricLine :: "string \<Rightarrow> int \<times> int \<times> bool \<Rightarrow> int \<times> int \<times> bool" where
  "metricLine raw acc =
     (case acc of (hits, queries, ok) \<Rightarrow>
        let line = TrimSpace raw
        in if HasPrefix line ''#'' then (hits, queries, ok)
           else if HasPrefix line ''vllm:gpu_prefix_cache_hits_total '' then (fst (parseMetricCounter line), queries, True)
           else if HasPrefix line ''vllm:gpu_prefix_cache_queries_total '' then (hits, fst (parseMetricCounter line), True)
           else if HasPrefix line ''coda_prefix_cache_hits_total '' then (fst (parseMetricCounter line), queries, True)
           else if HasPrefix line ''coda_prefix_cache_queries_total '' then (hits, fst (parseMetricCounter line), True)
           else (hits, queries, ok))"

definition parsePrefixCacheMetrics :: "string \<Rightarrow> int \<times> int \<times> bool" where
  "parsePrefixCacheMetrics body = fold metricLine (scanLines body) (0, 0, False)"

definition metricsRequest :: "string \<Rightarrow> HTTPRequest" where
  "metricsRequest podIP =
     \<lparr>hq_Method = ''GET'', hq_URL = ''http://'' @ podIP @ '':8000/metrics'', hq_Header = Map.empty, hq_Body = []\<rparr>"

definition scrapeKVHitRate :: "'w env \<Rightarrow> string \<Rightarrow> ('w, 'z, float64 option) io" where
  "scrapeKVHitRate E podIP =
     (case x_URLError E (hq_URL (metricsRequest podIP)) of
        Some err \<Rightarrow> ret None
      | None \<Rightarrow> do {
          resp \<leftarrow> kHTTP E (metricsRequest podIP);
          ret (case resp of
                 Inl err \<Rightarrow> None
               | Inr r \<Rightarrow>
                   if hr_StatusCode r \<noteq> 200 then None
                   else (case parsePrefixCacheMetrics (hr_Body r) of (hits, queries, ok) \<Rightarrow>
                           if \<not> ok \<or> queries = 0 then None
                           else Some (f_div (f_of_int hits) (f_of_int queries))))
        })"

section \<open>k8s.go: the sync loop\<close>

text \<open>The loop over the pods: the URLs of the ready ones, and the last hit rate scraped.\<close>

fun syncPods :: "'w env \<Rightarrow> Pod list \<Rightarrow> string list \<times> float64 \<Rightarrow> ('w, 'z, string list \<times> float64) io" where
  "syncPods E [] (urls, rate) = ret (urls, rate)"
| "syncPods E (pod # pods) (urls, rate) =
     (if pod_PodIP pod = [] then syncPods E pods (urls, rate)
      else if podReady pod then do {
        r \<leftarrow> scrapeKVHitRate E (pod_PodIP pod);
        syncPods E pods (urls @ [''http://'' @ pod_PodIP pod @ '':8000''],
                         case r of Some rate' \<Rightarrow> rate' | None \<Rightarrow> rate)
      }
      else syncPods E pods (urls, rate))"

definition patchEndpointKVHit :: "'w env \<Rightarrow> CodaEndpoint \<Rightarrow> float64 \<Rightarrow> ('w, 'z, unit) io" where
  "patchEndpointKVHit E ep rate = do {
     r \<leftarrow> kGetEndpoint E (ep_Namespace ep) (ep_Name ep);
     case r of
       Inl err \<Rightarrow> ret ()
     | Inr fresh \<Rightarrow> do {
         _ \<leftarrow> kStatusUpdateEndpoint E (fresh\<lparr>ep_Status := (ep_Status fresh)\<lparr>ept_KVHitRate := rate\<rparr>\<rparr>);
         ret ()
       }
   }"

definition annotateDesired :: "CodaEndpoint \<Rightarrow> int \<Rightarrow> CodaEndpoint" where
  "annotateDesired ep desired = ep\<lparr>ep_Meta := (ep_Meta ep)\<lparr>
     om_Annotations := (om_Annotations (ep_Meta ep))(AnnotationDesiredReplicas \<mapsto> Itoa desired)\<rparr>\<rparr>"

definition patchDesiredReplicas :: "'w env \<Rightarrow> CodaEndpoint \<Rightarrow> int \<Rightarrow> ('w, 'z, unit) io" where
  "patchDesiredReplicas E ep desired = do {
     _ \<leftarrow> kPatchEndpoint E ep (annotateDesired ep desired);
     ret ()
   }"

fun updateDemand :: "'w env \<Rightarrow> float64 \<Rightarrow> BufferPolicy list \<Rightarrow> ('w, 'z, unit) io" where
  "updateDemand E ewma [] = ret ()"
| "updateDemand E ewma (p # ps) = do {
     _ \<leftarrow> kStatusUpdatePolicy E (p\<lparr>policy_Status := (policy_Status p)\<lparr>bpt_DemandEWMA := ewma\<rparr>\<rparr>);
     updateDemand E ewma ps
   }"

definition exportDemand ::
  "'w env \<Rightarrow> (string list \<Rightarrow> string list) \<Rightarrow> int \<Rightarrow> int \<Rightarrow> ('w, 'z, unit) gio" where
  "exportDemand E ord desired load = do {
     d \<leftarrow> gets demand;
     let ewma = (if TotalDemand ord d = 0 then f_of_int load else TotalDemand ord d);
     r \<leftarrow> kListPolicies E;
     case r of Inl err \<Rightarrow> ret () | Inr policies \<Rightarrow> updateDemand E ewma policies
   }"

definition recordHitRate :: "'w env \<Rightarrow> CodaEndpoint \<Rightarrow> float64 \<Rightarrow> ('w, 'z, unit) gio" where
  "recordHitRate E ep rate =
     (if 0 < rate then do {
        modify (\<lambda>s. s\<lparr>kvHits := AList.update (ep_Name ep) rate (kvHits s)\<rparr>);
        metric ''coda_kv_hit_rate'' [ep_Name ep] rate;
        patchEndpointKVHit E ep rate
      } else ret ())"

definition SyncEndpoint ::
  "'w env \<Rightarrow> (string list \<Rightarrow> string list) \<Rightarrow> CodaEndpoint \<Rightarrow> ('w, 'z, unit) gio" where
  "SyncEndpoint E ord ep = do {
     r \<leftarrow> kListEndpointPods E (ep_Namespace ep) (ep_Name ep);
     case r of
       Inl err \<Rightarrow> ret ()
     | Inr pods \<Rightarrow> do {
         (urls, rate) \<leftarrow> syncPods E pods ([], 0);
         onRouter (\<lambda>r. RegisterEndpoint r (ep_Name ep) (ms_Source (eps_Model (ep_Spec ep))) urls);
         recordHitRate E ep rate;
         inFlight \<leftarrow> gets (\<lambda>s. InFlight (routes s) (ep_Name ep));
         queue \<leftarrow> gets (\<lambda>s. QueueDepth (routes s) (ep_Name ep));
         d \<leftarrow> gets demand;
         let (desired, d') = Evaluate d ep inFlight queue;
         modify (\<lambda>s. s\<lparr>demand := d'\<rparr>);
         patchDesiredReplicas E ep desired;
         exportDemand E ord desired (inFlight + queue)
       }
   }"

fun syncEndpoints ::
  "'w env \<Rightarrow> (string list \<Rightarrow> string list) \<Rightarrow> CodaEndpoint list \<Rightarrow> ('w, 'z, unit) gio" where
  "syncEndpoints E ord [] = ret ()"
| "syncEndpoints E ord (ep # eps) = do {
     r \<leftarrow> kGetEndpoint E (ep_Namespace ep) (ep_Name ep);
     (case r of Inl err \<Rightarrow> ret () | Inr fresh \<Rightarrow> SyncEndpoint E ord fresh);
     syncEndpoints E ord eps
   }"

text \<open>One tick of \<open>RunAutoscalerLoop\<close>.\<close>

definition autoscalerTick :: "'w env \<Rightarrow> (string list \<Rightarrow> string list) \<Rightarrow> ('w, 'z, unit) gio" where
  "autoscalerTick E ord = do {
     r \<leftarrow> kListEndpoints E;
     case r of Inl err \<Rightarrow> ret () | Inr endpoints \<Rightarrow> syncEndpoints E ord endpoints
   }"

section \<open>What a sync registers\<close>

definition replicaURL :: "Pod \<Rightarrow> string" where
  "replicaURL pod = ''http://'' @ pod_PodIP pod @ '':8000''"

definition serving :: "Pod \<Rightarrow> bool" where
  "serving pod \<longleftrightarrow> pod_PodIP pod \<noteq> [] \<and> podReady pod"

fun endpointPatchEv :: "event \<Rightarrow> (CodaEndpoint \<times> CodaEndpoint) option" where
  "endpointPatchEv (Kube (PatchEndpoint old new r)) = Some (old, new)"
| "endpointPatchEv e = None"

fun policyUpdateEv :: "event \<Rightarrow> BufferPolicy option" where
  "policyUpdateEv (Kube (StatusUpdatePolicy p r)) = Some p"
| "policyUpdateEv e = None"

text \<open>Events that neither patch an endpoint nor update a policy.\<close>

abbreviation quietEvs :: "event list \<Rightarrow> bool" where
  "quietEvs es \<equiv> select endpointPatchEv es = [] \<and> select policyUpdateEv es = []"

text \<open>The part of the state the requests and the autoscaler share is left alone.\<close>

abbreviation sameServer :: "('w, event, 'z) gw_scheme \<Rightarrow> ('w, event, 'z) gw_scheme \<Rightarrow> bool" where
  "sameServer s s' \<equiv> routes s' = routes s \<and> demand s' = demand s \<and> kvHits s' = kvHits s"

lemma wp_scrape:
  fixes s :: "('w, event, 'z) gw_scheme"
  shows "wp (scrapeKVHitRate E ip) (\<lambda>_ s'. sameServer s s' \<and> (\<exists>es. trace s' = trace s @ es \<and> quietEvs es)) s"
  by (auto simp: scrapeKVHitRate_def wp split: option.split prod.split)

lemma wp_syncPods:
  fixes s :: "('w, event, 'z) gw_scheme"
  shows "wp (syncPods E pods (urls, rate)) (\<lambda>r s'. sameServer s s' \<and>
     fst r = urls @ map replicaURL (filter serving pods) \<and> (\<exists>es. trace s' = trace s @ es \<and> quietEvs es)) s"
proof (induction pods arbitrary: urls rate s)
  case (Cons pod pods)
  show ?case
    by (auto simp: wp serving_def [of pod] replicaURL_def [of pod] intro!: wp_mono [OF wp_scrape] wp_mono [OF Cons.IH])
qed (simp add: wp)

lemma wp_recordHitRate:
  fixes s :: "('w, event, 'z) gw_scheme"
  shows "wp (recordHitRate E ep rate) (\<lambda>_ s'. routes s' = routes s \<and> demand s' = demand s \<and>
     kvHits s' = (if 0 < rate then AList.update (ep_Name ep) rate (kvHits s) else kvHits s) \<and>
     (\<exists>es. trace s' = trace s @ es \<and> quietEvs es)) s"
  by (auto simp: recordHitRate_def patchEndpointKVHit_def wp split: sum.split prod.split)

lemma wp_updateDemand:
  fixes s :: "('w, event, 'z) gw_scheme"
  shows "wp (updateDemand E ewma ps) (\<lambda>_ s'. sameServer s s' \<and>
     (\<exists>es. trace s' = trace s @ es \<and> select endpointPatchEv es = [] \<and>
       list_all (\<lambda>p. bpt_DemandEWMA (policy_Status p) = ewma) (select policyUpdateEv es))) s"
proof (induction ps arbitrary: s)
  case (Cons p ps)
  show ?case by (auto simp: wp intro!: wp_mono [OF Cons.IH] split: prod.split)
qed (simp add: wp)

definition demandSignal :: "(string list \<Rightarrow> string list) \<Rightarrow> (string \<times> float64) list \<Rightarrow> int \<Rightarrow> float64" where
  "demandSignal ord d load = (if TotalDemand ord d = 0 then f_of_int load else TotalDemand ord d)"

lemma demandSignal_idle [simp]: "demandSignal ord d 0 = TotalDemand ord d"
  by (simp add: demandSignal_def f_of_int_def)

lemma wp_exportDemand:
  fixes s :: "('w, event, 'z) gw_scheme"
  shows "wp (exportDemand E ord desired load) (\<lambda>_ s'. sameServer s s' \<and>
     (\<exists>es. trace s' = trace s @ es \<and> select endpointPatchEv es = [] \<and>
       list_all (\<lambda>p. bpt_DemandEWMA (policy_Status p) = demandSignal ord (demand s) load) (select policyUpdateEv es))) s"
  by (auto simp: exportDemand_def demandSignal_def [symmetric] Let_def wp intro!: wp_mono [OF wp_updateDemand] split: sum.split prod.split)

lemma Register_counters [simp]:
  "InFlight (RegisterEndpoint r n m urls) n = 0" "QueueDepth (RegisterEndpoint r n m urls) n = 0"
  "urlsOf (RegisterEndpoint r n m urls) k = (if k = n then urls else urlsOf r k)"
  by (simp_all add: RegisterEndpoint_def InFlight_def QueueDepth_def urlsOf_def)

lemma fst_Evaluate [simp]: "fst (Evaluate d ep i q) = clampReplicas ep (i + q)"
  by (simp add: Evaluate_def Let_def)

text \<open>The state and the writes after a sync that got the answer \<open>a\<close> for its pods.\<close>

definition synced :: "(string list \<Rightarrow> string list) \<Rightarrow> CodaEndpoint \<Rightarrow> ('w, event, 'z) gw_scheme \<Rightarrow> ('w, event, 'z) gw_scheme \<Rightarrow>
    (goerror + Pod list) \<Rightarrow> event list \<Rightarrow> bool" where
  "synced ord ep s s' a es \<longleftrightarrow>
     (case a of
        Inl err \<Rightarrow> sameServer s s' \<and> es = []
      | Inr pods \<Rightarrow>
          routes s' = RegisterEndpoint (routes s) (ep_Name ep) (ms_Source (eps_Model (ep_Spec ep)))
            (map replicaURL (filter serving pods)) \<and>
          demand s' = snd (Evaluate (demand s) ep 0 0) \<and>
          select endpointPatchEv es = [(ep, annotateDesired ep (clampReplicas ep 0))] \<and>
          list_all (\<lambda>p. bpt_DemandEWMA (policy_Status p) = TotalDemand ord (demand s')) (select policyUpdateEv es))"

lemma wp_SyncEndpoint:
  fixes s :: "('w, event, 'z) gw_scheme"
  shows "wp (SyncEndpoint E ord ep) (\<lambda>_ s'. \<exists>a es. synced ord ep s s' a es \<and>
     a = fst (x_ListEndpointPods E (ep_Namespace ep) (ep_Name ep) (world s)) \<and> trace s' = trace s @ Kube (ListEndpointPods (ep_Namespace ep) (ep_Name ep) a) # es) s"
proof -
  have synced_Inr: "synced ord ep s s' (Inr pods) es"
    if "routes s' = RegisterEndpoint (routes s) (ep_Name ep) (ms_Source (eps_Model (ep_Spec ep))) (map replicaURL (filter serving pods))"
      "demand s' = snd (Evaluate (demand s) ep 0 0)" "select endpointPatchEv es = [(ep, annotateDesired ep (clampReplicas ep 0))]"
      "list_all (\<lambda>p. bpt_DemandEWMA (policy_Status p) = TotalDemand ord (demand s')) (select policyUpdateEv es)"
    for s' :: "('w, event, 'z) gw_scheme" and pods es
    using that by (simp add: synced_def)
  have synced_Inl: "synced ord ep s s' (Inl err) []" if "sameServer s s'"
    for s' :: "('w, event, 'z) gw_scheme" and err
    using that by (simp add: synced_def)
  show ?thesis
    unfolding SyncEndpoint_def patchDesiredReplicas_def onRouter_def wp
    by (auto simp: wp split_beta Let_def intro!: wp_mono [OF wp_syncPods] wp_mono [OF wp_recordHitRate]
        wp_mono [OF wp_exportDemand] synced_Inr synced_Inl split: sum.split prod.split)
qed

lemma QueueDepth_Register [simp]: "k \<noteq> n \<Longrightarrow> QueueDepth (RegisterEndpoint r n m urls) k = QueueDepth r k"
  by (simp add: QueueDepth_def RegisterEndpoint_def)

text \<open>
  C32: A sync of an endpoint whose pods can be listed registers exactly the pods that are ready and
  have an IP, in the order listed, as the replicas of the endpoint, none of them with an empty URL,
  and leaves the other endpoints' replicas and queues as they were; if the list fails nothing
  changes.  The router's invariant is kept.
\<close>
theorem sync_registers_ready:
  fixes s :: "('w, event, 'z) gw_scheme"
  assumes "routerInv (routes s)"
  shows "wp (SyncEndpoint E ord ep) (\<lambda>_ s'. routerInv (routes s') \<and>
     (\<exists>a es. trace s' = trace s @ Kube (ListEndpointPods (ep_Namespace ep) (ep_Name ep) a) # es \<and>
        (case a of
           Inl err \<Rightarrow> sameServer s s' \<and> es = []
         | Inr pods \<Rightarrow>
             urlsOf (routes s') (ep_Name ep) =
               map replicaURL (filter serving pods) \<and>
             [] \<notin> set (urlsOf (routes s') (ep_Name ep)) \<and>
             (\<forall>n. n = ep_Name ep \<or> (urlsOf (routes s') n = urlsOf (routes s) n \<and>
                QueueDepth (routes s') n = QueueDepth (routes s) n))))) s" (is "wp _ (\<lambda>_. ?P) _")
proof (rule wp_mono [OF wp_SyncEndpoint], elim exE conjE)
  fix a es and s' :: "('w, event, 'z) gw_scheme"
  assume "synced ord ep s s' a es" "trace s' = trace s @ Kube (ListEndpointPods (ep_Namespace ep) (ep_Name ep) a) # es"
  with assms show "?P s'" by (cases a) (auto simp: synced_def replicaURL_def)
qed

definition podsEnv :: "unit env" where
  "podsEnv = idleEnv\<lparr>
     x_ListEndpoints := (\<lambda>w. (Inr [scaledEndpoint], w)),
     x_GetEndpoint := (\<lambda>_ _ w. (Inr scaledEndpoint, w)),
     x_ListPolicies := (\<lambda>w. (Inr [zeroPolicy], w)),
     x_ListEndpointPods := (\<lambda>_ _ w. (Inr [zeroPod\<lparr>pod_PodIP := ''10.0.0.1'',
       pod_Conditions := [\<lparr>pcd_Type = ''Ready'', pcd_Status = ''True''\<rparr>]\<rparr>, zeroPod\<lparr>pod_PodIP := ''10.0.0.2''\<rparr>], w))\<rparr>"

theorem sync_registers_ready_witness:
  "wp (SyncEndpoint podsEnv rev scaledEndpoint) (\<lambda>_ s'. urlsOf (routes s') ''e'' = [''http://10.0.0.1:8000''])
     (gwState [])"
proof -
  have "routerInv (routes (gwState []))" by (simp add: gwState_def)
  from wp_conj [OF wp_SyncEndpoint [of podsEnv rev scaledEndpoint "gwState []"]
      sync_registers_ready [OF this, of podsEnv rev scaledEndpoint]]
  show ?thesis
    by (rule wp_mono)
      (auto simp: podsEnv_def scaledEndpoint_def zeroPod_def replicaURL_def serving_def podReady_def gwState_def)
qed

section \<open>The load the autoscaler sees\<close>

lemma TotalDemand_zero:
  assumes "\<And>n. fget d n = 0"
  shows "TotalDemand ord d = 0"
proof -
  have "foldl (\<lambda>tot k. f_add tot (fget d k)) 0 ks = 0" for ks
    by (induction ks) (simp_all add: assms f_add_def)
  then show ?thesis by (simp add: TotalDemand_def)
qed

lemma Evaluate_idle:
  assumes "\<And>n. fget d n = 0"
  shows "fget (snd (Evaluate d ep 0 0)) n = 0"
  using assms [of n] assms [of "ep_Name ep"]
  by (simp add: Evaluate_def Let_def fget_def f_add_def f_mul_def f_of_int_def)

text \<open>No demand recorded, and only idle decisions and an idle demand signal written.\<close>

definition idleSync :: "('w, event, 'z) gw_scheme \<Rightarrow> ('w, event, 'z) gw_scheme \<Rightarrow> bool" where
  "idleSync s s' \<longleftrightarrow> (\<forall>n. fget (demand s') n = 0) \<and> (\<exists>es. trace s' = trace s @ es \<and>
     list_all (\<lambda>(old, new). new = annotateDesired old (clampReplicas old 0)) (select endpointPatchEv es) \<and>
     list_all (\<lambda>p. bpt_DemandEWMA (policy_Status p) = 0) (select policyUpdateEv es))"

lemma idleSync_SyncEndpoint:
  fixes s :: "('w, event, 'z) gw_scheme"
  assumes "\<And>n. fget (demand s) n = 0"
  shows "wp (SyncEndpoint E ord ep) (\<lambda>_. idleSync s) s"
proof (rule wp_mono [OF wp_SyncEndpoint])
  fix u and s' :: "('w, event, 'z) gw_scheme"
  have "TotalDemand ord (snd (Evaluate (demand s) ep 0 0)) = 0"
    using Evaluate_idle [OF assms] by (rule TotalDemand_zero)
  then show "\<exists>a es. synced ord ep s s' a es \<and>
      a = fst (x_ListEndpointPods E (ep_Namespace ep) (ep_Name ep) (world s)) \<and> trace s' = trace s @ Kube (ListEndpointPods (ep_Namespace ep) (ep_Name ep) a) # es \<Longrightarrow>
      idleSync s s'"
    using assms Evaluate_idle [OF assms] by (fastforce simp: synced_def idleSync_def split: sum.splits)
qed

lemma idleSync_trans: "idleSync s s' \<Longrightarrow> idleSync s' s'' \<Longrightarrow> idleSync s s''"
  unfolding idleSync_def by fastforce

lemma idleSync_event:
  "(\<And>n. fget (demand s) n = 0) \<Longrightarrow> demand s' = demand s \<Longrightarrow> trace s' = trace s @ [e] \<Longrightarrow>
   quietEvs [e] \<Longrightarrow> idleSync s s'"
  by (auto simp: idleSync_def)

lemma idleSync_syncEndpoints:
  fixes s :: "('w, event, 'z) gw_scheme"
  assumes "\<And>n. fget (demand s) n = 0"
  shows "wp (syncEndpoints E ord eps) (\<lambda>_. idleSync s) s"
  using assms
proof (induction eps arbitrary: s)
  case Nil
  then show ?case by (simp add: wp idleSync_def)
next
  case (Cons ep eps)
  have rest: "wp (syncEndpoints E ord eps) (\<lambda>_. idleSync s) s'" if "idleSync s s'" for s' :: "('w, event, 'z) gw_scheme"
  proof -
    have "fget (demand s') n = 0" for n using that by (simp add: idleSync_def)
    from Cons.IH [OF this] show ?thesis using idleSync_trans [OF that] by (rule wp_mono)
  qed
  have sync: "wp (SyncEndpoint E ord ep') (\<lambda>_. wp (syncEndpoints E ord eps) (\<lambda>_. idleSync s)) s'"
    if "idleSync s s'" for ep' and s' :: "('w, event, 'z) gw_scheme"
  proof -
    have "fget (demand s') n = 0" for n using that by (simp add: idleSync_def)
    from idleSync_SyncEndpoint [OF this] show ?thesis
      by (rule wp_mono) (use that in \<open>blast intro: rest idleSync_trans\<close>)
  qed
  have ev: "idleSync s (s\<lparr>world := w, trace := trace s @ [Kube (GetEndpoint ns n r)]\<rparr>)" for w ns n r
    by (rule idleSync_event [OF Cons.prems, where e = "Kube (GetEndpoint ns n r)"]) simp_all
  show ?case by (auto simp: wp intro!: sync rest ev split: sum.split prod.split)
qed

text \<open>
  C33: When no request is picked between the moments a sync registers an endpoint and reads its
  load, the autoscaler never sees any load: registering has just reset both counters.  So, starting
  from no recorded demand, a tick of the loop asks for the replicas of an idle endpoint, whatever
  the router's counters were before, exports a demand of zero to every buffer policy, and leaves no
  recorded demand for the next tick.
\<close>
theorem sync_ignores_load:
  assumes "\<And>n. DemandForecast (demand s) n = 0"
  shows "wp (autoscalerTick E ord) (\<lambda>_ s'. (\<forall>n. DemandForecast (demand s') n = 0) \<and>
     (\<exists>es. trace s' = trace s @ es \<and>
       list_all (\<lambda>(old, new). new = annotateDesired old (clampReplicas old 0)) (select endpointPatchEv es) \<and>
       list_all (\<lambda>p. bpt_DemandEWMA (policy_Status p) = 0) (select policyUpdateEv es))) s"
proof -
  have z: "fget (demand s) n = 0" for n using assms by (simp add: DemandForecast_def)
  have ev: "idleSync s (s\<lparr>world := w, trace := trace s @ [Kube (ListEndpoints r)]\<rparr>)" for w r
    by (rule idleSync_event [OF z, where e = "Kube (ListEndpoints r)"]) simp_all
  have "wp (autoscalerTick E ord) (\<lambda>_. idleSync s) s"
    by (auto simp: autoscalerTick_def wp ev z intro!: wp_mono [OF idleSync_syncEndpoints] idleSync_trans [OF ev]
        split: sum.split prod.split)
  then show ?thesis by (rule wp_mono) (simp add: idleSync_def DemandForecast_def)
qed


theorem sync_ignores_load_witness:
  "wp (autoscalerTick podsEnv rev) (\<lambda>_ s'. \<exists>es. trace s' = es \<and>
     list_all (\<lambda>(old, new). new = annotateDesired old (clampReplicas old 0)) (select endpointPatchEv es))
     (gwState [(''e'', \<lparr>est_Name = ''e'', est_ModelID = ''m'', est_ReplicaURLs = [''http://10.0.0.1:8000''],
       est_InFlight = 40, est_QueueDepth = 20, est_DesiredReplicas = 0\<rparr>)])" (is "wp _ _ ?s")
proof -
  have "DemandForecast (demand ?s) n = 0" for n by (simp add: DemandForecast_def gwState_def fget_def)
  from sync_ignores_load [OF this, of podsEnv rev] show ?thesis
    by (rule wp_mono) (simp add: gwState_def)
qed

section \<open>Parsing the prefix-cache counters\<close>

text \<open>
  The lines of a metrics page the parser tells apart: a comment, a counter of one of the two
  families (vLLM's or the test server's), and a line that is neither.
\<close>

datatype metricItem = Comment string | Hits bool int | Queries bool int | Blank

definition hitsName :: "bool \<Rightarrow> string" where
  "hitsName vllm = (if vllm then ''vllm:gpu_prefix_cache_hits_total'' else ''coda_prefix_cache_hits_total'')"

definition queriesName :: "bool \<Rightarrow> string" where
  "queriesName vllm = (if vllm then ''vllm:gpu_prefix_cache_queries_total'' else ''coda_prefix_cache_queries_total'')"

fun renderItem :: "metricItem \<Rightarrow> string" where
  "renderItem (Comment c) = CHR ''#'' # c"
| "renderItem (Hits b n) = hitsName b @ CHR '' '' # Itoa n"
| "renderItem (Queries b n) = queriesName b @ CHR '' '' # Itoa n"
| "renderItem Blank = []"

text \<open>What a page means: the last value of each counter, 0 where there is none, and whether there was any.\<close>

fun readItem :: "metricItem \<Rightarrow> int \<times> int \<times> bool \<Rightarrow> int \<times> int \<times> bool" where
  "readItem (Hits b n) (h, q, ok) = (n, q, True)"
| "readItem (Queries b n) (h, q, ok) = (h, n, True)"
| "readItem i acc = acc"

fun itemOK :: "metricItem \<Rightarrow> bool" where
  "itemOK (Comment c) = (newline \<notin> set c \<and> length c < 65535)"
| "itemOK (Hits b n) = (0 \<le> n \<and> n < 2 ^ 64)"
| "itemOK (Queries b n) = (0 \<le> n \<and> n < 2 ^ 64)"
| "itemOK Blank = True"

lemma fieldsAux_nospace: "list_all (\<lambda>c. \<not> isSpace c) b \<Longrightarrow> fieldsAux b acc = (if acc = [] \<and> b = [] then [] else [rev acc @ b])"
  by (induction b arbitrary: acc) auto

lemma fieldsAux_space:
  "list_all (\<lambda>c. \<not> isSpace c) a \<Longrightarrow> isSpace c \<Longrightarrow> rev acc @ a \<noteq> [] \<Longrightarrow> fieldsAux (a @ c # t) acc = (rev acc @ a) # fieldsAux t []"
  by (induction a arbitrary: acc) auto

lemma Fields_pair:
  assumes "list_all (\<lambda>c. \<not> isSpace c) a" and "list_all (\<lambda>c. \<not> isSpace c) b" and "a \<noteq> []" and "b \<noteq> []"
  shows "Fields (a @ CHR '' '' # b) = [a, b]"
  using fieldsAux_space [OF assms(1), of "CHR '' ''" "[]" b] fieldsAux_nospace [OF assms(2), of "[]"] assms
  by (simp add: Fields_def isSpace_def)

lemma TrimSpace_id:
  assumes "s \<noteq> []" and "\<not> isSpace (hd s)" and "\<not> isSpace (last s)"
  shows "TrimSpace s = s"
proof -
  have "dropWhile isSpace s = s" using assms(1, 2) by (cases s) auto
  moreover have "dropWhile isSpace (rev s) = rev s" using assms(1, 3) by (cases s rule: rev_cases) auto
  ultimately show ?thesis by (simp add: TrimSpace_def)
qed

lemma hd_TrimSpace:
  assumes "\<not> isSpace c"
  shows "\<exists>t. TrimSpace (c # s) = c # t"
proof -
  have "\<exists>zs. dropWhile isSpace (ys @ [c]) = zs @ [c]" for ys
    using assms by (induction ys) auto
  from this [of "rev s"] assms show ?thesis by (auto simp: TrimSpace_def) (metis rev_rev_ident)
qed

lemma itemNames:
  "list_all (\<lambda>c. \<not> isSpace c) (hitsName b)" "list_all (\<lambda>c. \<not> isSpace c) (queriesName b)"
  "\<not> isSpace (hd (hitsName b))" "\<not> isSpace (hd (queriesName b))" "hitsName b \<noteq> []" "queriesName b \<noteq> []"
  "length (hitsName b) < 50" "length (queriesName b) < 50"
  by (simp_all add: hitsName_def queriesName_def isSpace_def)

lemma Itoa_list: "list_all (\<lambda>c. \<not> isSpace c) (Itoa n)" "Itoa n \<noteq> []"
  using Itoa_no_space by (auto simp: list_all_iff Itoa_def)

lemma counter_line:
  assumes "list_all (\<lambda>c. \<not> isSpace c) a" and "a \<noteq> []" and "0 \<le> n" and "n < 2 ^ 64"
  shows "TrimSpace (a @ CHR '' '' # Itoa n) = a @ CHR '' '' # Itoa n"
    and "parseMetricCounter (a @ CHR '' '' # Itoa n) = (n, True)"
proof -
  have "\<not> isSpace (hd a)" "\<not> isSpace (last (Itoa n))"
    using assms(1, 2) Itoa_list [of n] by (auto simp: list_all_iff)
  then show "TrimSpace (a @ CHR '' '' # Itoa n) = a @ CHR '' '' # Itoa n"
    using assms(2) Itoa_list [of n] by (intro TrimSpace_id) auto
  show "parseMetricCounter (a @ CHR '' '' # Itoa n) = (n, True)"
    using Fields_pair [OF assms(1) Itoa_list(1) assms(2) Itoa_list(2)] ParseUint_Itoa [OF assms(3, 4)]
    by (simp add: parseMetricCounter_def)
qed

lemma metricLine_item:
  assumes "itemOK i"
  shows "metricLine (renderItem i) acc = readItem i acc"
proof (cases i)
  case (Comment c)
  have "\<not> isSpace (CHR ''#'')" by (simp add: isSpace_def)
  from hd_TrimSpace [OF this, of c] show ?thesis
    using Comment by (cases acc) (auto simp: metricLine_def HasPrefix_def)
next
  case (Hits b n)
  note l = counter_line [OF itemNames(1, 5), of n b]
  show ?thesis
    using Hits assms l by (cases acc) (auto simp: metricLine_def hitsName_def HasPrefix_def)
next
  case (Queries b n)
  note l = counter_line [OF itemNames(2, 6), of n b]
  show ?thesis
    using Queries assms l by (cases acc) (auto simp: metricLine_def queriesName_def HasPrefix_def)
next
  case Blank
  then show ?thesis by (cases acc) (simp add: metricLine_def TrimSpace_def HasPrefix_def)
qed

lemma itoaNat_length: "0 \<le> n \<Longrightarrow> n < 10 ^ Suc k \<Longrightarrow> length (itoaNat n) \<le> Suc k"
proof (induction k arbitrary: n)
  case 0
  then show ?case by (subst itoaNat.simps) simp
next
  case (Suc k)
  then have "n div 10 < 10 ^ Suc k" by (simp add: div_less_iff_less_mult mult.commute)
  with Suc show ?case by (subst itoaNat.simps) auto
qed

lemma renderItem_line:
  assumes "itemOK i"
  shows "newline \<notin> set (renderItem i)" and "length (renderItem i) < 65536"
    and "metricLine (dropCR (renderItem i)) acc = readItem i acc"
proof -
  have sp: "isSpace newline" "isSpace (CHR 0x0D)" by (simp_all add: isSpace_def)
  have names: "newline \<notin> set (hitsName b)" "newline \<notin> set (queriesName b)" "newline \<notin> set (Itoa n)" for b n
    using itemNames(1, 2) [of b] Itoa_list(1) [of n] sp by (auto simp: list_all_iff)
  have len: "length (Itoa n) \<le> 20" if "0 \<le> n" "n < 2 ^ 64" for n
    using itoaNat_length [of n 19] that by (simp add: Itoa_def)
  have cr: "last (Itoa n) \<noteq> CHR 0x0D" for n
    using Itoa_list [of n] sp by (metis last_in_set list_all_iff)
  show "newline \<notin> set (renderItem i)" using assms names by (cases i) auto
  show "length (renderItem i) < 65536"
  proof (cases i)
    case (Hits b n)
    then show ?thesis using assms len [of n] itemNames(7) [of b] by simp
  next
    case (Queries b n)
    then show ?thesis using assms len [of n] itemNames(8) [of b] by simp
  qed (use assms in simp_all)
  show "metricLine (dropCR (renderItem i)) acc = readItem i acc"
  proof (cases i)
    case (Comment c)
    define c' where "c' = (if c \<noteq> [] \<and> last c = CHR 0x0D then butlast c else c)"
    have "dropCR (renderItem i) = renderItem (Comment c')" by (simp add: Comment dropCR_def c'_def)
    moreover have "itemOK (Comment c')" using assms by (auto simp: Comment c'_def dest: in_set_butlastD)
    ultimately show ?thesis using metricLine_item [of "Comment c'" acc] Comment by (cases acc) simp
  qed (use assms cr Itoa_list(2) metricLine_item [OF assms, of acc] in \<open>simp_all add: dropCR_def\<close>)
qed

lemma Split_lines:
  "list_all (\<lambda>l. newline \<notin> set l) ls \<Longrightarrow> Split (concat (map (\<lambda>l. l @ [newline]) ls)) newline = ls @ [[]]"
  by (induction ls) (simp_all add: Split_append_sep Split_no_sep)

lemma scanLines_lines:
  assumes "list_all (\<lambda>l. newline \<notin> set l) ls" and "list_all (\<lambda>l. length l < 65536) ls"
  shows "scanLines (concat (map (\<lambda>l. l @ [newline]) ls)) = map dropCR ls"
proof -
  have tw: "takeWhile (\<lambda>l. length l < 65536) ls = ls" using assms(2) by (simp add: list_all_iff)
  show ?thesis unfolding scanLines_def Let_def Split_lines [OF assms(1)] by (simp only: last_snoc butlast_snoc if_True tw refl)
qed

lemma parse_page:
  assumes "list_all itemOK is"
  shows "parsePrefixCacheMetrics (concat (map (\<lambda>i. renderItem i @ [newline]) is)) = fold readItem is (0, 0, False)"
proof -
  let ?ls = "map renderItem is"
  have "list_all (\<lambda>l. newline \<notin> set l) ?ls" "list_all (\<lambda>l. length l < 65536) ?ls"
    using assms renderItem_line(1, 2) by (auto simp: list_all_iff)
  then have "scanLines (concat (map (\<lambda>l. l @ [newline]) ?ls)) = map dropCR ?ls" by (rule scanLines_lines)
  moreover have "concat (map (\<lambda>l. l @ [newline]) ?ls) = concat (map (\<lambda>i. renderItem i @ [newline]) is)"
    by (simp add: comp_def)
  moreover have "fold metricLine (map dropCR ?ls) acc = fold readItem is acc" for acc
    using assms by (induction "is" arbitrary: acc) (simp_all add: renderItem_line(3))
  ultimately show ?thesis by (simp add: parsePrefixCacheMetrics_def)
qed

text \<open>
  C36: The metrics parser reads back any page of comments, blank lines and counters of either
  family: the last value given for hits and for queries, and whether there was any.
\<close>
theorem metrics_parse_page:
  assumes "list_all itemOK is"
  shows "parsePrefixCacheMetrics (concat (map (\<lambda>i. renderItem i @ [newline]) is)) = fold readItem is (0, 0, False)"
  using assms by (rule parse_page)

theorem metrics_parse_page_witness:
  "parsePrefixCacheMetrics (concat (map (\<lambda>i. renderItem i @ [newline])
     [Blank, Comment '' HELP'', Hits False 7, Queries False 10, Hits True 8])) = (8, 10, True)"
  by (subst metrics_parse_page) simp_all

end
