(* ===== verification/Metrics.thy ===== *)
theory Metrics
  imports Kube
begin

text \<open>
  \<open>internal/metrics\<close>: the collectors the program declares, and their registration.  A collector is its
  kind with the options it is created with and the names of its labels.  The Prometheus client is not
  part of the program; what matters of it here is what it makes panic: \<open>MustRegister\<close> two collectors
  of one name, \<open>WithLabelValues\<close> a number of values that is not the number of label names.
\<close>

section \<open>Declarations\<close>

text \<open>The buckets of a histogram, by the call that computes them.\<close>

datatype Buckets = ExponentialBuckets float64 float64 nat

datatype collectorKind = GaugeVec | CounterVec | HistogramVec Buckets

record Collector =
  col_Kind :: collectorKind
  col_Namespace :: string
  col_Name :: string
  col_Help :: string
  col_Labels :: "string list"

definition Namespace :: string where
  "Namespace = ''coda''"

definition AllocationUtilization :: Collector where
  "AllocationUtilization =
     \<lparr>col_Kind = GaugeVec, col_Namespace = Namespace, col_Name = ''allocation_utilization'',
      col_Help = ''GPU-seconds running app code / GPU-seconds provisioned'', col_Labels = [''endpoint'']\<rparr>"

definition ColdStartSeconds :: Collector where
  "ColdStartSeconds =
     \<lparr>col_Kind = HistogramVec (ExponentialBuckets 1 2 12), col_Namespace = Namespace,
      col_Name = ''cold_start_seconds'', col_Help = ''Cold start latency by path'',
      col_Labels = [''path'', ''endpoint'']\<rparr>"

definition KVHitRateGauge :: Collector where
  "KVHitRateGauge =
     \<lparr>col_Kind = GaugeVec, col_Namespace = Namespace, col_Name = ''kv_hit_rate'',
      col_Help = ''LMCache prefix hit rate'', col_Labels = [''endpoint'']\<rparr>"

definition PoolObservedHourlyUSD :: Collector where
  "PoolObservedHourlyUSD =
     \<lparr>col_Kind = GaugeVec, col_Namespace = Namespace, col_Name = ''pool_observed_hourly_usd'',
      col_Help = ''Observed hourly USD per pool'', col_Labels = [''pool'']\<rparr>"

definition PoolICE :: Collector where
  "PoolICE =
     \<lparr>col_Kind = CounterVec, col_Namespace = Namespace, col_Name = ''pool_ice_total'',
      col_Help = ''Insufficient capacity errors per pool'', col_Labels = [''pool'']\<rparr>"

definition BufferSize :: Collector where
  "BufferSize =
     \<lparr>col_Kind = GaugeVec, col_Namespace = Namespace, col_Name = ''buffer_size'',
      col_Help = ''Warm GPU buffer size'', col_Labels = [''policy'']\<rparr>"

definition EndpointCostUSD :: Collector where
  "EndpointCostUSD =
     \<lparr>col_Kind = GaugeVec, col_Namespace = Namespace, col_Name = ''endpoint_cost_usd_hourly'',
      col_Help = ''Estimated hourly cost per endpoint'', col_Labels = [''endpoint'', ''namespace'']\<rparr>"

section \<open>Registration\<close>

text \<open>\<open>mustRegister\<close> is the method of the registerer that is passed in.\<close>

definition Register :: "(Collector list \<Rightarrow> 'r \<Rightarrow> 'r outcome) \<Rightarrow> 'r \<Rightarrow> 'r outcome" where
  "Register mustRegister reg = mustRegister
     [AllocationUtilization, ColdStartSeconds, KVHitRateGauge, PoolObservedHourlyUSD, PoolICE, BufferSize,
      EndpointCostUSD] reg"

text \<open>The name a collector is exported under, \<open>prometheus.BuildFQName\<close> without a subsystem.\<close>

definition fqName :: "Collector \<Rightarrow> string" where
  "fqName c = col_Namespace c @ ''_'' @ col_Name c"

text \<open>What \<open>Register\<close> hands over, read off by a registerer that keeps a list.\<close>

definition collectors :: "Collector list" where
  "collectors = (case Register (\<lambda>cs reg. Returns (reg @ cs)) [] of Returns reg \<Rightarrow> reg | Panics m \<Rightarrow> [])"

lemma collectors_list:
  "collectors = [AllocationUtilization, ColdStartSeconds, KVHitRateGauge, PoolObservedHourlyUSD, PoolICE, BufferSize,
     EndpointCostUSD]"
  by (simp add: collectors_def Register_def)

lemma collectors_distinct: "distinct (map fqName collectors)"
  by (simp add: collectors_list fqName_def AllocationUtilization_def ColdStartSeconds_def KVHitRateGauge_def
      PoolObservedHourlyUSD_def PoolICE_def BufferSize_def EndpointCostUSD_def)

section \<open>Observations\<close>

text \<open>
  An observation fits a collector when it has its name and one value per label.
\<close>

definition declaredAs :: "string \<Rightarrow> nat \<Rightarrow> bool" where
  "declaredAs n k \<longleftrightarrow> (n, k) \<in> set (map (\<lambda>c. (fqName c, length (col_Labels c))) collectors)"

fun wellLabelled :: "event \<Rightarrow> bool" where
  "wellLabelled (Metric n ls v) \<longleftrightarrow> declaredAs n (length ls)"
| "wellLabelled e \<longleftrightarrow> True"

lemma declared_observations:
  "declaredAs ''coda_cold_start_seconds'' (Suc (Suc 0))" "declaredAs ''coda_kv_hit_rate'' (Suc 0)"
  by (simp_all add: declaredAs_def collectors_list fqName_def AllocationUtilization_def ColdStartSeconds_def
      KVHitRateGauge_def PoolObservedHourlyUSD_def PoolICE_def BufferSize_def EndpointCostUSD_def Namespace_def)

end
