(* ===== verification/Manager.thy ===== *)
theory Manager
  imports Health_Controller Endpoint_Controller Gateway_Sync Metrics
begin

text \<open>
  \<open>cmd/coda-controller-manager\<close>: the process that runs the four controllers.  \<open>main\<close> reads its
  configuration, builds the provider cache and the reconcilers, and starts the manager, which then
  calls the reconcilers, one job after another, on the objects they watch.  A job is one call; the
  jobs share the provider cache and, through the API server, the objects.

  The calls of the controller runtime that may fail while the process starts are the argument \<open>fails\<close>.
\<close>

section \<open>Configuration\<close>

record managerFlags =
  mf_MetricsAddr :: string
  mf_ProbeAddr :: string
  mf_GarageEndpoint :: string

definition managerDefaults :: managerFlags where
  "managerDefaults = \<lparr>mf_MetricsAddr = '':8080'', mf_ProbeAddr = '':8081'',
     mf_GarageEndpoint = ''http://garage.opencoda-system.svc:3900''\<rparr>"

text \<open>The bundle of certificate authorities is not set, hence empty.\<close>

definition managerBoot :: "(string \<Rightarrow> string) \<Rightarrow> string \<Rightarrow> BootstrapConfig" where
  "managerBoot getenv host =
     \<lparr>bc_APIServerURL = host, bc_CABundle = [], bc_JoinToken = getenv ''CODA_JOIN_TOKEN'',
      bc_ClusterName = getenv ''EKS_CLUSTER_NAME''\<rparr>"

definition managerChecker :: "(string \<Rightarrow> string) \<Rightarrow> Checker" where
  "managerChecker getenv = (if getenv ''CODA_FAKE_HEALTH'' = ''1'' then FakeChecker else ExecChecker)"

section \<open>Start\<close>

datatype setupStep =
    GetConfig
  | NewManager
  | RegisterMetrics
  | StartPriceSync
  | PoolController
  | BufferController
  | EndpointController
  | HealthController
  | HealthzCheck
  | ReadyzCheck
  | StartManager

text \<open>
  The steps in order, each with the message of its error.  The first is \<open>GetConfigOrDie\<close>, which itself
  ends the process; a step without a message gives no error: the registration of the metrics, and the
  price job, which runs on its own.
\<close>

definition setupSteps :: "(setupStep \<times> string option) list" where
  "setupSteps =
     [(GetConfig, Some ''unable to get kubeconfig''), (NewManager, Some ''unable to start manager''),
      (RegisterMetrics, None), (StartPriceSync, None), (PoolController, Some ''pool controller''),
      (BufferController, Some ''buffer controller''), (EndpointController, Some ''endpoint controller''),
      (HealthController, Some ''health controller''), (HealthzCheck, Some ''healthz''), (ReadyzCheck, Some ''readyz''),
      (StartManager, Some ''manager stopped'')]"

text \<open>The steps that were taken, the messages that were logged for errors, and the exit code.\<close>

fun runSetup :: "(setupStep \<Rightarrow> goerror option) \<Rightarrow> (setupStep \<times> string option) list \<Rightarrow>
    setupStep list \<times> (string \<times> goerror) list \<times> int" where
  "runSetup fails [] = ([], [], 0)"
| "runSetup fails ((st, m) # rest) =
     (case (m, fails st) of
        (Some msg, Some err) \<Rightarrow> ([st], [(msg, err)], 1)
      | _ \<Rightarrow> (case runSetup fails rest of (taken, logs, code) \<Rightarrow> (st # taken, logs, code)))"

definition manager_main :: "(setupStep \<Rightarrow> goerror option) \<Rightarrow> setupStep list \<times> (string \<times> goerror) list \<times> int" where
  "manager_main fails = runSetup fails setupSteps"

section \<open>The running process\<close>

text \<open>The memory of the endpoint reconciler, beside the provider cache the other three share.\<close>

record ('w, 'e) manager = "('w, 'e) mgr" +
  mg_idleSince :: "string \<rightharpoonup> gotime"
  mg_coldSamples :: "string \<rightharpoonup> float64 list"

definition onEndpointState ::
  "('w, unit, 'a) eio \<Rightarrow> (('w, event) manager, 'a) state" where
  "onEndpointState m = State (\<lambda>s.
     case run_state m \<lparr>world = world s, trace = trace s, idleSince = mg_idleSince s, coldSamples = mg_coldSamples s\<rparr> of
       (a, t) \<Rightarrow> (a, s\<lparr>world := world t, trace := trace t, mg_idleSince := idleSince t, mg_coldSamples := coldSamples t\<rparr>))"

definition startState :: "'w \<Rightarrow> ('w, event) manager" where
  "startState w = \<lparr>world = w, trace = [], pcache = Map.empty, mg_idleSince = Map.empty, mg_coldSamples = Map.empty\<rparr>"

record 'w managerConfig =
  mc_Env :: "'w env"
  mc_Boot :: BootstrapConfig
  mc_Checker :: Checker
  mc_Endpoint :: EpConfig
  mc_Fill :: "int \<Rightarrow> PoolView list \<Rightarrow> goerror + Plan"
  mc_Order :: "string list \<Rightarrow> string list"

text \<open>
  What \<open>main\<close> builds.  \<open>endpoint.NewReconciler\<close> takes the engine image from the environment;
  \<open>srt\<close> is \<open>sort.Slice\<close> and \<open>ord\<close> the order of map iteration.
\<close>

definition managerSetup ::
  "'w env \<Rightarrow> (string \<Rightarrow> string) \<Rightarrow> string \<Rightarrow> managerFlags \<Rightarrow>
     ((PoolView \<Rightarrow> PoolView \<Rightarrow> bool) \<Rightarrow> PoolView list \<Rightarrow> PoolView list) \<Rightarrow> (string list \<Rightarrow> string list) \<Rightarrow> 'w managerConfig" where
  "managerSetup E getenv host flags srt ord =
     \<lparr>mc_Env = E, mc_Boot = managerBoot getenv host, mc_Checker = managerChecker getenv,
      mc_Endpoint = \<lparr>ec_EngineImage = getenv ''CODA_ENGINE_IMAGE'', ec_GarageEndpoint = mf_GarageEndpoint flags\<rparr>,
      mc_Fill = Fill srt, mc_Order = ord\<rparr>"

text \<open>The controllers watch pools, policies, endpoints and nodes; what a job returns is for the work queue.\<close>

datatype job = PoolJob string | BufferJob string | EndpointJob string string | NodeJob string

definition discard :: "('s, 'a) state \<Rightarrow> ('s, unit) state" where
  "discard m = do { _ \<leftarrow> m; ret () }"

fun runJob :: "'w managerConfig \<Rightarrow> job \<Rightarrow> (('w, event) manager, unit) state" where
  "runJob M (PoolJob n) = discard (pool_Reconcile (mc_Order M) (mc_Env M) (mc_Boot M) n)"
| "runJob M (BufferJob n) = discard (buffer_Reconcile (mc_Fill M) (mc_Env M) (mc_Boot M) n)"
| "runJob M (EndpointJob ns n) = discard (onEndpointState (endpoint_Reconcile (mc_Endpoint M) (mc_Env M) ns n))"
| "runJob M (NodeJob n) = discard (health_Reconcile (mc_Env M) (mc_Checker M) (mc_Boot M) n)"

fun runJobs :: "'w managerConfig \<Rightarrow> job list \<Rightarrow> (('w, event) manager, unit) state" where
  "runJobs M [] = ret ()"
| "runJobs M (j # js) = do { runJob M j; runJobs M js }"

section \<open>Duties\<close>

text \<open>
  What the manager may do on behalf of an object: anything that only reads, and the writes listed here.
  A node is only ever cordoned on behalf of a policy; the pods of the system are never touched; a pod
  is only ever patched to mark its cold start as recorded; an instance is only started with a script
  that carries neither the address of the API server nor the token nor the bundle.
\<close>

fun readEvent :: "event \<Rightarrow> bool" where
  "readEvent (Kube (GetPolicy n r)) = True"
| "readEvent (Kube (GetPool n r)) = True"
| "readEvent (Kube (GetNode n r)) = True"
| "readEvent (Kube (GetEndpoint ns n r)) = True"
| "readEvent (Kube (GetSecret ns n r)) = True"
| "readEvent (Kube (ListNodes k v r)) = True"
| "readEvent (Kube (ListPods r)) = True"
| "readEvent (Kube (ListEndpointPods ns n r)) = True"
| "readEvent (Cloud (LoadAWSConfig c r)) = True"
| "readEvent (Cloud (DescribeSpotPriceHistory c t r)) = True"
| "readEvent (Cloud (DescribeImages c t r)) = True"
| "readEvent (Cloud (NewInstancesRESTClient c r)) = True"
| "readEvent (Clock t) = True"
| "readEvent (Sleep d) = True"
| "readEvent (LookPath t r) = True"
| "readEvent e = False"

definition bareScript :: "string \<Rightarrow> string \<Rightarrow> string \<Rightarrow> string" where
  "bareScript mode pool cluster = UserData \<lparr>bcf_APIServerURL = [], bcf_CABundle = [], bcf_JoinToken = [],
     bcf_PoolName = pool, bcf_ClusterName = cluster, bcf_JoinMode = mode\<rparr>"

fun launchEvent :: "event \<Rightarrow> bool" where
  "launchEvent (Cloud (RunInstances c inp r)) \<longleftrightarrow>
     (\<exists>pool cluster. ri_UserData inp = base64Encode (bareScript ''eks'' pool cluster))"
| "launchEvent (Cloud (InsertInstance rq r)) \<longleftrightarrow>
     (\<exists>pool. gi_Metadata (iir_Instance rq) = [(''startup-script'', TrimSpace (bareScript ''gke'' pool [])), (''opencoda-pool'', pool)])"
| "launchEvent (Cloud (WaitOperation r)) \<longleftrightarrow> True"
| "launchEvent (Provider (Provision ref off r)) \<longleftrightarrow> True"
| "launchEvent e \<longleftrightarrow> False"

fun destroyEvent :: "event \<Rightarrow> bool" where
  "destroyEvent (Cloud (TerminateInstances c ids r)) \<longleftrightarrow> True"
| "destroyEvent (Cloud (DeleteInstance pr z n r)) \<longleftrightarrow> True"
| "destroyEvent (Cloud (WaitOperation r)) \<longleftrightarrow> True"
| "destroyEvent (Provider (Release ref h r)) \<longleftrightarrow> True"
| "destroyEvent e \<longleftrightarrow> False"

fun poolWrite :: "event \<Rightarrow> bool" where
  "poolWrite (Kube (StatusUpdatePool p r)) \<longleftrightarrow> True"
| "poolWrite e \<longleftrightarrow> False"

fun bufferWrite :: "event \<Rightarrow> bool" where
  "bufferWrite (Kube (StatusUpdatePolicy p r)) \<longleftrightarrow> True"
| "bufferWrite (Kube (UpdateNode n r)) \<longleftrightarrow> node_Unschedulable n"
| "bufferWrite (Kube (EvictPod p r)) \<longleftrightarrow> pod_Namespace p \<noteq> ''kube-system''"
| "bufferWrite e \<longleftrightarrow> False"

fun endpointWrite :: "event \<Rightarrow> bool" where
  "endpointWrite (Kube (StatusUpdateEndpoint ep r)) \<longleftrightarrow> True"
| "endpointWrite (Kube (CreatePod p r)) \<longleftrightarrow> (\<exists>n. om_Labels (pod_Meta p) LabelEndpoint = Some n)"
| "endpointWrite (Kube (DeletePod p r)) \<longleftrightarrow> pod_Annotation p AnnotationSpecHash \<noteq> []"
| "endpointWrite (Kube (PatchPod p q r)) \<longleftrightarrow> q = markRecorded p"
| "endpointWrite (Metric n ls v) \<longleftrightarrow> declaredAs n (length ls)"
| "endpointWrite e \<longleftrightarrow> False"

fun nodeWrite :: "event \<Rightarrow> bool" where
  "nodeWrite (Kube (UpdateNode n r)) \<longleftrightarrow> True"
| "nodeWrite (Kube (DeletePod p r)) \<longleftrightarrow> pod_Namespace p \<noteq> ''kube-system''"
| "nodeWrite (RunCommand c r) \<longleftrightarrow> (\<exists>level. c = [''dcgmi'', ''diag'', ''-r'', level])"
| "nodeWrite e \<longleftrightarrow> False"

fun duty :: "job \<Rightarrow> event \<Rightarrow> bool" where
  "duty (PoolJob n) e \<longleftrightarrow> readEvent e \<or> poolWrite e"
| "duty (BufferJob n) e \<longleftrightarrow> readEvent e \<or> poolWrite e \<or> bufferWrite e \<or> launchEvent e \<or> destroyEvent e"
| "duty (EndpointJob ns n) e \<longleftrightarrow> readEvent e \<or> endpointWrite e"
| "duty (NodeJob n) e \<longleftrightarrow> readEvent e \<or> poolWrite e \<or> nodeWrite e \<or> destroyEvent e"

declare duty.simps [simp del]

lemma duty_events [simp]:
  "readEvent e \<Longrightarrow> duty j e"
  "poolWrite e \<Longrightarrow> duty (PoolJob n) e"
  "poolWrite e \<Longrightarrow> duty (BufferJob n) e" "bufferWrite e \<Longrightarrow> duty (BufferJob n) e"
  "launchEvent e \<Longrightarrow> duty (BufferJob n) e" "destroyEvent e \<Longrightarrow> duty (BufferJob n) e"
  "endpointWrite e \<Longrightarrow> duty (EndpointJob ns n) e"
  "poolWrite e \<Longrightarrow> duty (NodeJob n) e" "nodeWrite e \<Longrightarrow> duty (NodeJob n) e" "destroyEvent e \<Longrightarrow> duty (NodeJob n) e"
  by (cases j) (simp_all add: duty.simps)

section \<open>Calls through the provider cache\<close>

lemma readOnly_read: "list_all readOnlyEvent es \<Longrightarrow> list_all readEvent es"
proof (induction es)
  case (Cons e es)
  then show ?case by (cases e rule: readOnlyEvent.cases) auto
qed simp

lemma read_aws_NewFactory: "emits_all (aws_NewFactory E pool creds boot) readEvent"
  unfolding aws_NewFactory_def aws_Factory_def loadAWSConfig_def Let_def
  by (intro emits_all_tagResult emits_all_bind) (auto intro!: emits)

lemma read_gcp_NewFactory: "emits_all (gcp_NewFactory E pool creds boot) readEvent"
  unfolding gcp_NewFactory_def gcp_Factory_def Let_def
  by (intro emits_all_tagResult emits_all_bind) (auto intro!: emits)

lemma read_FactoryForPool:
  "emits_all (FactoryRegistry_ForPool (capacityfactory_NewRegistry E) pool creds boot) readEvent"
  by (simp add: FactoryRegistry_ForPool_def capacityfactory_NewRegistry_def FactoryRegistry_Register_def
      static_NewFactory_def Let_def emits_return read_aws_NewFactory read_gcp_NewFactory)

lemma read_ForPool: "emits_all (ForPool E boot pool) readEvent"
  by (auto simp: ForPool_def loadCredentials_def Let_def intro!: emits emits_all_bind read_FactoryForPool)

lemma read_Quote_via: "emits_all (Quote_via E ref req) readEvent"
  unfolding Quote_via_def
  by (rule emits_callProvider) (auto intro!: emits_mono [OF prov.quote_offer] intro: readOnly_read)

lemma read_Capacity_via: "emits_all (Capacity_via E ref pool) readEvent"
  unfolding Capacity_via_def by (rule emits_callProvider) (auto intro!: emits_mono [OF prov.capacity_report])

text \<open>A script in the modes of the two clouds does not depend on how to reach the cluster.\<close>

lemma launch_aws: "launchEvent (Cloud (RunInstances c (aws_input p off ami) r))"
  by (auto simp: aws_input_def bareScript_def UserData_def Let_def)

lemma launch_gcp: "launchEvent (Cloud (InsertInstance (gcp_request p name) r))"
  by (auto simp: gcp_request_def bareScript_def UserData_def StartupScript_def Let_def)

text \<open>The audits of a process whose events satisfy \<open>ok\<close>: one that reads, launches, or destroys.\<close>

locale audit =
  fixes ok :: "event \<Rightarrow> bool"
  assumes reads: "readEvent e \<Longrightarrow> ok e"
begin

lemma of_reads: "emits_all m readEvent \<Longrightarrow> emits_all m ok"
  by (erule emits_mono) (auto simp: list_all_iff reads)

lemmas of_cache = of_reads [OF read_ForPool] of_reads [OF read_Quote_via] of_reads [OF read_Capacity_via]

end

locale launch_audit = audit +
  assumes launches: "launchEvent e \<Longrightarrow> ok e"
begin

lemma of_Provision: "emits_all (provider_Provision E p off) ok"
  by (auto simp: provider_Provision_def static_Provision_def aws_Provision_def gcp_Provision_def gcp_fail_def Let_def
      reads launches launch_aws launch_gcp simp del: launchEvent.simps(1, 2)
      intro!: emits_all_onProvider emits emits_all_bind of_reads [OF emits_mono [OF emits_resolveAMI readOnly_read]]
      split: provider.split list.split option.split)

lemma of_Provision_via: "emits_all (Provision_via E ref off) ok"
  unfolding Provision_via_def
  by (auto intro!: emits_all_bind emits_callProvider emits_mono [OF of_Provision] emits emits_mark launches)

end

locale release_audit = audit +
  assumes destroys: "destroyEvent e \<Longrightarrow> ok e"
begin

lemma of_Release: "emits_all (provider_Release E p h) ok"
  by (auto simp: provider_Release_def static_Release_def aws_Release_def gcp_Release_def Let_def reads destroys
      intro!: emits_all_onProvider emits split: provider.split)

lemma of_Release_via: "emits_all (Release_via E ref h) ok"
  unfolding Release_via_def
  by (auto intro!: emits_all_bind emits_callProvider emits_mono [OF of_Release] emits emits_mark destroys)

end

locale fleet_audit = launch_audit + release_audit

interpretation pj: audit "duty (PoolJob n)" for n
  by unfold_locales simp

interpretation bj: fleet_audit "duty (BufferJob n)" for n
  by unfold_locales simp_all

interpretation nj: release_audit "duty (NodeJob n)" for n
  by unfold_locales simp_all

section \<open>The four controllers keep to their duties\<close>

lemma duty_pool: "emits_all (pool_Reconcile ord E boot name) (duty (PoolJob n))"
  by (auto simp: pool_Reconcile_def reconcileNodeRecords_def Let_def intro!: emits emits_all_bind pj.of_cache)

lemma duty_provisionLoop: "emits_all (provisionLoop E ref poolName offers i k pool) (duty (BufferJob n))"
proof (induction k arbitrary: i pool)
  case (Suc k)
  show ?case
    by (auto simp: Let_def intro!: emits emits_all_bind bj.of_Provision_via Suc.IH)
qed (auto intro!: emits)

lemma duty_provisionPool: "emits_all (provisionPool E boot poolName cnt) (duty (BufferJob n))"
proof -
  have "emits_all (provisionNodes E boot pool poolName cnt) (duty (BufferJob n))" for pool
    unfolding provisionNodes_def
    by (auto intro!: emits emits_all_bind bj.of_cache duty_provisionLoop)
  then show ?thesis by (auto simp: provisionPool_def intro!: emits)
qed

lemma duty_provisionEntries: "emits_all (provisionEntries E boot entries) (duty (BufferJob n))"
  by (induction entries) (auto intro!: emits emits_all_bind duty_provisionPool)

lemma duty_drainAndRelease: "emits_all (drainAndRelease E boot pool i d) (duty (BufferJob n))"
proof -
  have "emits_all (evictPods E nodeName pods) (duty (BufferJob n))" for nodeName pods
    by (induction pods) (auto intro!: emits)
  then show ?thesis
    unfolding drainAndRelease_def evictNode_def Let_def
    by (auto intro!: emits emits_all_bind bj.of_cache bj.of_Release_via)
qed

lemma duty_releaseRecords: "emits_all (releaseRecords E boot stab d now is pool excess) (duty (BufferJob n))"
proof (induction "is" arbitrary: pool excess)
  case (Cons i "is")
  show ?case by (auto intro!: emits emits_all_bind duty_drainAndRelease Cons.IH)
qed (auto intro!: emits)

lemma duty_scaleDown: "emits_all (scaleDown E boot policy excess) (duty (BufferJob n))"
proof -
  have "emits_all (scaleDownPools E boot stab d now refs excess) (duty (BufferJob n))" for stab d now refs excess
    by (induction refs arbitrary: excess) (auto intro!: emits emits_all_bind duty_releaseRecords)
  then show ?thesis by (auto simp: scaleDown_def Let_def intro!: emits)
qed

lemma readPool_read: "list_all readPoolEvent es \<Longrightarrow> list_all readEvent es"
proof (induction es)
  case (Cons e es)
  then show ?case by (cases e rule: readPoolEvent.cases) auto
qed simp

lemma duty_buffer: "emits_all (buffer_Reconcile fill E boot name) (duty (BufferJob n))"
proof -
  have views: "emits_all (buildPoolViews E policy) (duty (BufferJob n))" for policy
    by (intro bj.of_reads emits_mono [OF emits_buildPoolViews] readPool_read)
  have warm: "emits_all (countWarmGPUs E policy) (duty (BufferJob n))" for policy
    by (intro bj.of_reads emits_mono [OF emits_countWarmGPUs] readPool_read) simp
  have "emits_all (bufferAct fill E boot policy desired current) (duty (BufferJob n))" for policy desired current
    by (auto simp: bufferAct_def intro!: emits emits_all_bind views duty_provisionEntries duty_scaleDown)
  with warm show ?thesis by (auto simp: buffer_Reconcile_def intro!: emits emits_all_bind)
qed

lemma duty_releaseNodeRecords: "emits_all (releaseNodeRecords E ref nodeName recs) (duty (NodeJob n))"
  by (induction recs) (auto intro!: emits emits_all_bind nj.of_Release_via)

lemma duty_handleXid: "emits_all (handleXidCritical E boot node) (duty (NodeJob n))"
proof -
  have "emits_all (deleteNodePods E nodeName pods) (duty (NodeJob n))" for nodeName pods
    by (induction pods) (auto intro!: emits)
  then have "emits_all (deletePods E nodeName) (duty (NodeJob n))" for nodeName
    by (auto simp: deletePods_def intro!: emits)
  moreover have "emits_all (releaseFromPool E boot poolName nodeName) (duty (NodeJob n))" for poolName nodeName
    by (auto simp: releaseFromPool_def intro!: emits emits_all_bind nj.of_cache duty_releaseNodeRecords)
  ultimately show ?thesis
    by (auto simp: handleXidCritical_def Let_def intro!: emits emits_all_bind)
qed

lemma duty_node: "emits_all (health_Reconcile E checker boot name) (duty (NodeJob n))"
proof -
  have "emits_all (dcgmi E level) (duty (NodeJob n))" for level
    by (auto simp: dcgmi_def intro!: emits)
  then have "emits_all (BootCheck E checker) (duty (NodeJob n))" "emits_all (DeepCheck E checker) (duty (NodeJob n))"
    by (auto simp: BootCheck_def DeepCheck_def intro!: emits split: Checker.split)
  then show ?thesis
    by (auto simp: health_Reconcile_def bootLabel_def intro!: emits emits_all_bind duty_handleXid)
qed

lemma duty_recordPods: "emits_all (recordPods E pods ep) (duty (EndpointJob ns n))"
proof (induction pods arbitrary: ep)
  case (Cons pod pods)
  show ?case
    by (auto simp: Let_def declared_observations intro!: emits Cons.IH)
qed (auto intro!: emits)

lemma duty_createReplicas: "emits_all (createReplicas cfg E ep specHash is) (duty (EndpointJob ns n))"
proof (induction "is")
  case (Cons i "is")
  show ?case
    by (auto simp: buildPod_def intro!: emits Cons.IH split: sum.split)
qed (auto intro!: emits)

lemma duty_endpoint: "emits_all (endpoint_Reconcile cfg E ens name) (duty (EndpointJob ns n))"
proof -
  have desired: "emits_all (desiredReplicas E ep) (duty (EndpointJob ns n))" for ep
    by (auto simp: desiredReplicas_def Let_def intro!: emits emits_all_bind)
  have counts: "emits_all (countReplicaPods E ep h) (duty (EndpointJob ns n))" for ep h
    by (auto simp: countReplicaPods_def Let_def intro!: emits)
  have cold: "emits_all (recordColdStarts E ep) (duty (EndpointJob ns n))" for ep
    by (auto simp: recordColdStarts_def intro!: emits duty_recordPods)
  have "emits_all (deleteOldPods E h pods) (duty (EndpointJob ns n))" for h pods
    by (induction pods) (auto intro!: emits)
  then have "emits_all (scaleReplicas cfg E ep h d ready starting oldReady) (duty (EndpointJob ns n))" for ep h d ready starting oldReady
    by (auto simp: scaleReplicas_def drainOldHashPods_def intro!: emits emits_all_bind duty_createReplicas)
  then show ?thesis
    unfolding endpoint_Reconcile_def reconcileReplicas_def Let_def
    by (auto intro!: emits emits_all_bind desired counts cold)
qed

section \<open>Properties\<close>

lemma emits_onEndpointState:
  assumes "emits m P"
  shows "emits (onEndpointState m) P"
  unfolding emits_def
proof
  fix s :: "('a, event) manager"
  show "wp (onEndpointState m) (\<lambda>a s'. \<exists>es. trace s' = trace s @ es \<and> P a es) s"
    using emits_wp [OF assms, of "\<lparr>world = world s, trace = trace s, idleSince = mg_idleSince s,
        coldSamples = mg_coldSamples s\<rparr>"]
    by (auto simp: wp_def onEndpointState_def split: prod.splits)
qed

lemma emits_discard: "emits_all m p \<Longrightarrow> emits_all (discard m) p"
  unfolding discard_def by (erule emits_all_bind) (auto intro!: emits)

lemma duty_runJob: "emits_all (runJob M j) (duty j)"
  by (cases j) (auto intro: emits_discard emits_onEndpointState duty_pool duty_buffer duty_endpoint duty_node)

text \<open>
  C6: Whatever the API server and the clouds answer, the manager acts on behalf of an object only as
  far as the object's controller may: a pool's reconciliation writes nothing but the status of pools;
  a policy's may also launch nodes, cordon, evict and release them; a node's may release but never
  launch; an endpoint's only touches pods and the endpoint.  No job evicts a pod of the system or
  deletes one for a failing node, and no instance is started with a script that carries the address
  of the API server, the join token or the certificate bundle of the manager's configuration.
\<close>
theorem manager_duties: "emits_all (runJob M j) (duty j)"
  by (rule duty_runJob)

lemma duty_wellLabelled: "duty j e \<Longrightarrow> wellLabelled e"
  by (cases e; cases j) (auto simp: duty.simps)

lemma runJobs_wellLabelled: "emits_all (runJobs M js) wellLabelled"
proof (induction js)
  case (Cons j js)
  have "emits_all (runJob M j) wellLabelled"
    using duty_runJob by (rule emits_mono) (auto simp: list_all_iff intro: duty_wellLabelled)
  with Cons show ?case by (auto intro!: emits_all_bind)
qed (auto intro!: emits)

lemma sync_wellLabelled: "emits_all (SyncEndpoint E ord ep) wellLabelled"
proof -
  have scrape: "emits_all (scrapeKVHitRate E ip) wellLabelled" for ip
    by (auto simp: scrapeKVHitRate_def intro!: emits)
  have pods: "emits_all (syncPods E pods acc) wellLabelled" for pods acc
  proof (induction pods arbitrary: acc)
    case (Cons pod pods)
    then show ?case by (cases acc) (auto intro!: emits emits_all_bind scrape)
  qed (auto intro!: emits)
  have demand: "emits_all (updateDemand E ewma ps) wellLabelled" for ewma ps
    by (induction ps) (auto intro!: emits)
  show ?thesis
    unfolding SyncEndpoint_def recordHitRate_def patchEndpointKVHit_def patchDesiredReplicas_def exportDemand_def
      onRouter_def Let_def
    by (auto intro!: emits emits_all_bind pods demand simp: declared_observations)
qed

lemma tick_wellLabelled: "emits_all (autoscalerTick E ord) wellLabelled"
proof -
  have "emits_all (syncEndpoints E ord eps) wellLabelled" for eps
    by (induction eps) (auto intro!: emits emits_all_bind sync_wellLabelled)
  then show ?thesis by (auto simp: autoscalerTick_def intro!: emits)
qed

text \<open>
  C23: The collectors that are registered have different names, so registering them does not panic;
  and every observation of the manager, in any run of its jobs, and of the gateway's autoscaler loop
  is of one of them and gives as many label values as it has labels, so no observation panics.
\<close>
theorem metrics_declared:
  "distinct (map fqName collectors) \<and> emits_all (runJobs M js) wellLabelled \<and> emits_all (autoscalerTick E ord) wellLabelled"
  using collectors_distinct runJobs_wellLabelled tick_wellLabelled by blast

text \<open>
  The process ends with 0 exactly if nothing fails; otherwise it stops at the first failure and logs
  that one only.
\<close>

definition passes :: "(setupStep \<Rightarrow> goerror option) \<Rightarrow> setupStep \<times> string option \<Rightarrow> bool" where
  "passes fails e \<longleftrightarrow> snd e = None \<or> fails (fst e) = None"

lemma runSetup_code: "snd (snd (runSetup fails steps)) = 0 \<longleftrightarrow> list_all (passes fails) steps"
  by (induction fails steps rule: runSetup.induct) (auto simp: passes_def split: option.splits prod.split)

lemma manager_main_code:
  "snd (snd (manager_main fails)) = 0 \<longleftrightarrow> (\<forall>st. st \<notin> {RegisterMetrics, StartPriceSync} \<longrightarrow> fails st = None)"
proof -
  have "list_all (passes fails) setupSteps \<longleftrightarrow> (\<forall>st. st \<notin> {RegisterMetrics, StartPriceSync} \<longrightarrow> fails st = None)"
    by (rule iffI, rule allI, case_tac st) (simp_all add: setupSteps_def passes_def)
  then show ?thesis by (simp add: manager_main_def runSetup_code)
qed

lemma runSetup_stops:
  assumes "runSetup fails steps = (taken, logs, code)" and "code \<noteq> 0"
  shows "\<exists>pre st msg err post. steps = pre @ (st, Some msg) # post \<and> list_all (passes fails) pre \<and>
     fails st = Some err \<and> taken = map fst pre @ [st] \<and> logs = [(msg, err)]"
  using assms
proof (induction steps arbitrary: taken)
  case (Cons e rest)
  obtain st m where e: "e = (st, m)" by fastforce
  show ?case
  proof (cases "passes fails e")
    case True
    with Cons.prems e obtain t where t: "runSetup fails rest = (t, logs, code)" "taken = st # t"
      by (auto simp: passes_def split: prod.splits option.splits)
    from Cons.IH [OF t(1) Cons.prems(2)] obtain pre st' msg' err post where
      "rest = pre @ (st', Some msg') # post" "list_all (passes fails) pre" "fails st' = Some err"
      "t = map fst pre @ [st']" "logs = [(msg', err)]" by blast
    with True t e show ?thesis by (intro exI [of _ "e # pre"]) auto
  next
    case False
    with Cons.prems e show ?thesis by (intro exI [of _ "[]"]) (auto simp: passes_def)
  qed
qed simp

end
