(* ===== verification/Buffer_Loop.thy ===== *)
theory Buffer_Loop
  imports Buffer_Controller
begin

text \<open>
  Many reconciliations of one buffer policy.  Each of them reads the warm count from the status of
  the pools and writes there what it has launched; what keeps a controller from launching again and
  again is that the next one sees it.  A trace is read here against the store behind the API server:
  a pool that is read is the one last written (\<open>served\<close>).  The distance to the target is the
  potential: a reconciliation uses up at least what it launches.
\<close>

section \<open>The store behind the API server\<close>

type_synonym poolStore = "string \<rightharpoonup> GPUPool"

fun written :: "poolStore \<Rightarrow> event \<Rightarrow> poolStore" where
  "written st (Kube (StatusUpdatePool p (Inr q))) = st(pool_Name p \<mapsto> p)"
| "written st e = st"

definition storeAfter :: "poolStore \<Rightarrow> event list \<Rightarrow> poolStore" where
  "storeAfter st es = foldl written st es"

fun readOK :: "poolStore \<Rightarrow> event \<Rightarrow> bool" where
  "readOK st (Kube (GetPool n (Inr p))) \<longleftrightarrow> st n = Some p"
| "readOK st (Kube (GetPool n (Inl err))) \<longleftrightarrow> st n = None"
| "readOK st e \<longleftrightarrow> True"

fun served :: "poolStore \<Rightarrow> event list \<Rightarrow> bool" where
  "served st [] \<longleftrightarrow> True"
| "served st (e # es) \<longleftrightarrow> readOK st e \<and> served (written st e) es"

lemma storeAfter_simps [simp]:
  "storeAfter st [] = st" "storeAfter st (e # es) = storeAfter (written st e) es"
  "storeAfter st (es @ fs) = storeAfter (storeAfter st es) fs"
  by (simp_all add: storeAfter_def)

lemma served_append [simp]: "served st (es @ fs) \<longleftrightarrow> served st es \<and> served (storeAfter st es) fs"
  by (induction es arbitrary: st) auto

text \<open>Every pool is stored under its own name.\<close>

definition named :: "poolStore \<Rightarrow> bool" where
  "named st \<longleftrightarrow> (\<forall>n p. st n = Some p \<longrightarrow> pool_Name p = n)"

lemma namedD: "named st \<Longrightarrow> st n = Some p \<Longrightarrow> pool_Name p = n"
  by (simp add: named_def)

lemma named_written: "named st \<Longrightarrow> named (written st e)"
  by (cases "(st, e)" rule: written.cases) (auto simp: named_def)

lemma named_after: "named st \<Longrightarrow> named (storeAfter st es)"
  by (induction es arbitrary: st) (auto simp: named_written)

definition warmOf :: "GPUPool \<Rightarrow> int" where
  "warmOf p = pc_Buffered (pool_Nodes p) + pc_Provisioning (pool_Nodes p)"

definition warmAt :: "poolStore \<Rightarrow> string \<Rightarrow> int" where
  "warmAt st n = (case st n of None \<Rightarrow> 0 | Some p \<Rightarrow> warmOf p)"

definition warm :: "poolStore \<Rightarrow> PoolRef list \<Rightarrow> int" where
  "warm st refs = (\<Sum>ref\<leftarrow>refs. warmAt st (ref_Name ref))"

text \<open>Nothing went wrong: every launch gave a node, and every write of a pool's status was accepted.\<close>

fun failedEvent :: "event \<Rightarrow> bool" where
  "failedEvent (Provider (Provision ref off (Returns (Inr h)))) = False"
| "failedEvent (Provider (Provision ref off r)) = True"
| "failedEvent (Kube (StatusUpdatePool p (Inl err))) = True"
| "failedEvent e = False"

definition smooth :: "event list \<Rightarrow> bool" where
  "smooth es \<longleftrightarrow> list_all (\<lambda>e. \<not> failedEvent e) es"

lemma smooth_simps [simp]:
  "smooth []" "smooth (e # es) \<longleftrightarrow> \<not> failedEvent e \<and> smooth es" "smooth (es @ fs) \<longleftrightarrow> smooth es \<and> smooth fs"
  by (simp_all add: smooth_def)

abbreviation launchCount :: "event list \<Rightarrow> int" where
  "launchCount es \<equiv> int (length (select provisionEv es))"

section \<open>Reading\<close>

text \<open>Events that neither read nor write a pool, launch or fail.\<close>

definition quietEvent :: "event \<Rightarrow> bool" where
  "quietEvent e \<longleftrightarrow> (\<forall>st. written st e = st \<and> readOK st e) \<and> provisionEv e = None \<and> \<not> failedEvent e"

lemma quiet_background: "backgroundEvent e \<Longrightarrow> quietEvent e"
  by (cases e rule: backgroundEvent.cases) (auto simp: quietEvent_def)

lemma quiet_simps:
  assumes "list_all quietEvent es"
  shows "storeAfter st es = st" "served st es" "select provisionEv es = []" "smooth es"
  using assms by (induction es arbitrary: st) (auto simp: quietEvent_def)

lemma background_quiet: "list_all backgroundEvent es \<Longrightarrow> list_all quietEvent es"
  by (auto simp: list_all_iff quiet_background)

lemma readPool_store: "list_all readPoolEvent es \<Longrightarrow> storeAfter st es = st"
proof (induction es)
  case (Cons e es)
  then show ?case by (cases e rule: readPoolEvent.cases) auto
qed simp

lemma warm_Cons [simp]: "warm st (ref # refs) = warmAt st (ref_Name ref) + warm st refs" "warm st [] = 0"
  by (simp_all add: warm_def)

lemma countPools_served: "emits (countPools E refs tot) (\<lambda>n es. \<forall>st. served st es \<longrightarrow> n = tot + warm st refs)"
proof (induction refs arbitrary: tot)
  case (Cons ref refs)
  show ?case
    by (auto intro!: emits emits_mono [OF Cons.IH] simp: warmAt_def warmOf_def)
qed (auto intro!: emits)

lemma countWarm_served:
  "emits (countWarmGPUs E policy) (\<lambda>n es. list_all readPoolEvent es \<and>
     (\<forall>st. served st es \<longrightarrow> n = warm st (bps_Pools (policy_Spec policy))))"
  using emits_conj [OF emits_countWarmGPUs countPools_served [of E "bps_Pools (policy_Spec policy)" 0, folded countWarmGPUs_def]]
  by (rule emits_mono) auto

text \<open>The views carry the names of the pools.\<close>

lemma views_named:
  assumes "named st"
  shows "emits (viewPools E refs views) (\<lambda>vs es. served st es \<longrightarrow>
     set (map pv_Name vs) \<subseteq> set (map pv_Name views) \<union> set (map ref_Name refs))"
proof (induction refs arbitrary: views)
  case (Cons ref refs)
  show ?case
    by (auto intro!: emits emits_mono [OF Cons.IH] simp: poolView_def namedD [OF assms]) blast+
qed (auto intro!: emits)

lemma buildViews_named:
  assumes "named st"
  shows "emits (buildPoolViews E policy) (\<lambda>vs es. list_all readPoolEvent es \<and> (served st es \<longrightarrow>
     pv_Name ` set vs \<subseteq> ref_Name ` set (bps_Pools (policy_Spec policy))))"
  using emits_conj [OF emits_buildPoolViews
      views_named [OF assms, of E "bps_Pools (policy_Spec policy)" "[]", folded buildPoolViews_def]]
  by (rule emits_mono) auto

section \<open>Provisioning\<close>

text \<open>
  What one call of \<open>provisionPool\<close> for pool \<open>n\<close> does to the store when nothing fails: nothing, or the
  warm nodes of that pool, which must exist, become more by the number of its launches.
\<close>

definition grows :: "string \<Rightarrow> event list \<Rightarrow> bool" where
  "grows n es \<longleftrightarrow> (\<forall>st. named st \<longrightarrow> served st es \<longrightarrow> smooth es \<longrightarrow>
     (\<forall>m. warmAt (storeAfter st es) m = warmAt st m + (if m = n then launchCount es else 0)))"

lemma warmOf_fold: "warmOf (fold (addProvisioned n) hs p) = warmOf p + int (length hs)"
  "pool_Name (fold (addProvisioned n) hs p) = pool_Name p"
  by (induction hs arbitrary: p) (auto simp: warmOf_def addProvisioned_def)

lemma update_simps [simp]:
  "written st (Kube (StatusUpdatePool p u)) = (if isl u then st else st(pool_Name p \<mapsto> p))"
  "failedEvent (Kube (StatusUpdatePool p u)) = isl u"
  by (cases u; simp)+

lemma provision_simps [simp]:
  "written st (Provider e) = st" "readOK st (Provider e)"
  "failedEvent (Provider (Provision ref off r)) \<longleftrightarrow> (\<nexists>h. r = Returns (Inr h))"
  by (simp, simp, cases "Provider (Provision ref off r)" rule: failedEvent.cases) auto

lemma smooth_handles: "smooth es \<Longrightarrow> length (select handleEv es) = length (select provisionEv es)"
proof (induction es)
  case (Cons e es)
  then show ?case by (cases e rule: handleEv.cases) auto
qed simp

lemma provisionLoop_smooth:
  "offers \<noteq> [] \<Longrightarrow> emits (provisionLoop E ref poolName offers i k pool) (\<lambda>(r, pool') es.
     (\<forall>st. storeAfter st es = st) \<and> (smooth es \<longrightarrow> r = Returns None))"
proof (induction k arbitrary: i pool)
  case (Suc k)
  show ?case
    unfolding provisionLoop.simps Let_def
    by (intro emits_if emits_return emits_bind [OF emits_Provision_via])
      (use Suc.prems in \<open>auto intro!: emits emits_mono [OF Suc.IH [OF Suc.prems]]
        simp: quiet_simps [OF background_quiet] split: outcome.split sum.split\<close>)
qed (auto intro!: emits)

lemma provisionLoop_grows:
  assumes "offers \<noteq> []"
  shows "emits (provisionLoop E ref poolName offers i k pool) (\<lambda>(r, pool') es.
     (\<forall>st. storeAfter st es = st) \<and> (smooth es \<longrightarrow> r = Returns None \<and> warmOf pool' = warmOf pool + launchCount es \<and>
        pool_Name pool' = pool_Name pool))"
  using emits_conj [OF provisionLoop_smooth [OF assms] emits_provisionLoop]
  by (rule emits_mono) (auto simp: warmOf_fold smooth_handles)

text \<open>The same from the moment the pool has been read.\<close>

definition growsFrom :: "GPUPool \<Rightarrow> string \<Rightarrow> event list \<Rightarrow> bool" where
  "growsFrom pool n es \<longleftrightarrow> (\<forall>st. named st \<longrightarrow> st n = Some pool \<longrightarrow> smooth es \<longrightarrow>
     (\<forall>m. warmAt (storeAfter st es) m = warmAt st m + (if m = n then launchCount es else 0)))"

lemma growsFrom_Nil: "growsFrom pool n []"
  by (simp add: growsFrom_def)

lemma grows_loop:
  assumes "offers \<noteq> []"
  shows "emits (do {
      (r, pool) \<leftarrow> provisionLoop E provider n offers 0 k pool;
      case r of
        Panics m \<Rightarrow> ret (Panics m)
      | Returns e \<Rightarrow>
          (case e of
             Some err \<Rightarrow> ret (Returns (Some err))
           | None \<Rightarrow> do {
               u \<leftarrow> kStatusUpdatePool E pool;
               ret (Returns (case u of Inl err \<Rightarrow> Some err | Inr _ \<Rightarrow> None))
             })
    }) (\<lambda>r es. growsFrom pool n es)"
  by (rule emits_bind_prod [OF provisionLoop_grows [OF assms]])
    (auto intro!: emits simp: growsFrom_def warmAt_def namedD split: outcome.split option.split if_splits)

lemma emits_quiet_bind:
  assumes "emits m (\<lambda>r es. list_all backgroundEvent es \<and> X r)"
    and "\<And>a. X a \<Longrightarrow> emits (f a) (\<lambda>r. growsFrom pool n)"
  shows "emits (State_Monad.bind m f) (\<lambda>r. growsFrom pool n)"
  using assms(1) by (rule emits_bind_fixed) (auto intro: emits_mono [OF assms(2)] simp: growsFrom_def quiet_simps [OF background_quiet])

lemma grows_provisionNodes: "emits (provisionNodes E boot pool n cnt) (\<lambda>r. growsFrom pool n)"
  unfolding provisionNodes_def
  by (intro emits_quiet_bind [OF emits_ForPool] emits_quiet_bind [OF emits_Quote_via] emits_case_sum grows_loop
      emits_return growsFrom_Nil) auto

lemma grows_provisionPool: "emits (provisionPool E boot n cnt) (\<lambda>r. grows n)"
  unfolding provisionPool_def
  by (intro emits emits_mono [OF grows_provisionNodes]) (auto simp: grows_def growsFrom_def)

lemma warm_point:
  assumes "\<And>m. warmAt st' m = warmAt st m + (if m = n then k else 0)" and "distinct (map ref_Name refs)"
  shows "warm st' refs = warm st refs + (if n \<in> ref_Name ` set refs then k else 0)"
  using assms(2) by (induction refs) (auto simp: assms(1))

lemma grows_entries:
  assumes "distinct (map ref_Name refs)" and "pe_PoolName ` set entries \<subseteq> ref_Name ` set refs"
  shows "emits (provisionEntries E boot entries) (\<lambda>r es. \<forall>st. named st \<longrightarrow> served st es \<longrightarrow> smooth es \<longrightarrow>
     warm (storeAfter st es) refs = warm st refs + launchCount es)"
  using assms(2)
proof (induction entries)
  case (Cons e entries)
  note IH = Cons.IH [OF order_trans [OF _ Cons.prems]]
  have e: "pe_PoolName e \<in> ref_Name ` set refs" using Cons.prems by auto
  have first: "warm (storeAfter st es) refs = warm st refs + launchCount es"
    if "grows (pe_PoolName e) es" "named st" "served st es" "smooth es" for st es
    using warm_point [OF _ assms(1), of "storeAfter st es" st "pe_PoolName e" "launchCount es"] that e
    by (auto simp: grows_def)
  show ?case
    unfolding provisionEntries.simps
    by (rule emits_bind [OF grows_provisionPool])
      (auto intro!: emits emits_mono [OF IH] simp: first named_after split: outcome.split)
qed (auto intro!: emits)

section \<open>Releasing\<close>

lemma quiet_events [simp]:
  "quietEvent (Kube (GetNode n a))" "quietEvent (Kube (UpdateNode nd b))" "quietEvent (Kube (ListPods c))"
  "quietEvent (Kube (EvictPod q d))" "quietEvent (Sleep t)" "quietEvent (Clock t)"
  "quietEvent (Provider (Release ref h e))" "quietEvent (Kube (GetPolicy n f))" "quietEvent (Kube (StatusUpdatePolicy y g))"
  by (simp_all add: quietEvent_def)

lemma quiet_evictNode: "emits_all (evictNode E nodeName) quietEvent"
proof -
  have pods: "emits_all (evictPods E nodeName pods) quietEvent" for pods
    by (induction pods) (auto intro!: emits)
  show ?thesis
    unfolding evictNode_def by (intro emits_ext_bind emits_case_sum emits_return emits_mono [OF pods]) auto
qed

lemma quiet_drain:
  "emits (drainAndRelease E boot pool i drainTimeout) (\<lambda>(err, pool') es. list_all quietEvent es \<and>
     (pool' = pool \<or> err = None \<and> pool' = releasedPool i pool))"
  unfolding drainAndRelease_def Let_def
  by (intro emits emits_bind [OF quiet_evictNode] emits_bind [OF emits_ForPool] emits_bind [OF emits_Release_via])
    (auto simp: background_quiet)

lemma warmOf_released [simp]: "warmOf (releasedPool i pool) = warmOf pool - 1"
  by (simp add: warmOf_def releasedPool_def)

text \<open>The warm nodes a pool loses are at most those the excess is lowered by.\<close>

lemma releaseRecords_warm:
  "emits (releaseRecords E boot stab drainTimeout now is pool excess) (\<lambda>(err, pool', excess') es.
     list_all quietEvent es \<and> pool_Name pool' = pool_Name pool \<and>
     warmOf pool - warmOf pool' \<le> max 0 excess - max 0 excess' \<and> max 0 excess' \<le> max 0 excess)"
proof (induction "is" arbitrary: pool excess)
  case (Cons i "is")
  show ?case
    unfolding releaseRecords.simps
    by (intro emits_if emits_return emits_bind_prod [OF quiet_drain] emits_mono [OF Cons.IH])
      (auto intro!: emits emits_mono [OF Cons.IH] split: option.split)
qed (auto intro!: emits)

lemma warm_upd:
  assumes "distinct (map ref_Name refs)"
  shows "warm (st(n \<mapsto> p)) refs = warm st refs + (if n \<in> ref_Name ` set refs then warmOf p - warmAt st n else 0)"
  using warm_point [OF _ assms, of "st(n \<mapsto> p)" st n "warmOf p - warmAt st n"] by (simp add: warmAt_def)

lemma scaleDownPools_warm:
  assumes "distinct (map ref_Name refs)"
  shows "emits (scaleDownPools E boot stab drainTimeout now qs excess) (\<lambda>r es. select provisionEv es = [] \<and>
     (\<forall>st. named st \<longrightarrow> served st es \<longrightarrow> warm st refs - max 0 excess \<le> warm (storeAfter st es) refs))"
proof (induction qs arbitrary: excess)
  case (Cons q qs)
  show ?case
    unfolding scaleDownPools.simps
  proof (intro emits_ext_bind emits_case_sum, goal_cases)
    case (1 r err)
    then show ?case by (auto intro!: emits_mono [OF Cons.IH])
  next
    case (2 r pool)
    show ?case
    proof (rule emits_bind_triple_fixed [OF releaseRecords_warm], goal_cases)
      case (1 err pool' excess' es)
      note quiet = quiet_simps [OF 1 [THEN conjunct1]]
      have upd: "warm st refs - max 0 excess + max 0 excess' \<le> warm (st(pool_Name pool' \<mapsto> pool')) refs"
        if "named st" "st (ref_Name q) = Some pool" for st
        using that 1 namedD [OF that] warm_upd [OF assms, of st "pool_Name pool'" pool'] by (auto simp: warmAt_def)
      have upd_named: "named (st(pool_Name pool' \<mapsto> pool'))" if "named st" for st
        using that by (simp add: named_def)
      have rest: "warm st refs - max 0 excess \<le> warm (storeAfter (st(pool_Name pool' \<mapsto> pool')) es') refs"
        if "named st" "st (ref_Name q) = Some pool" "served (st(pool_Name pool' \<mapsto> pool')) es'"
          "\<forall>st. named st \<longrightarrow> served st es' \<longrightarrow> warm st refs - max 0 excess' \<le> warm (storeAfter st es') refs" for st es'
        using upd [OF that(1, 2)] that(4) [rule_format, OF upd_named [OF that(1)] that(3)] by linarith
      have stop: "warm st refs - max 0 excess \<le> warm (st(pool_Name pool' \<mapsto> pool')) refs"
        if "named st" "st (ref_Name q) = Some pool" for st
        using upd [OF that] by linarith
      show ?case
        using 2 quiet rest stop
        by (auto intro!: emits emits_mono [OF Cons.IH] split: option.split sum.split)
    qed
  qed
qed (auto intro!: emits)

lemma scaleDown_warm:
  assumes "distinct (map ref_Name refs)"
  shows "emits (scaleDown E boot policy excess) (\<lambda>r es. select provisionEv es = [] \<and>
     (\<forall>st. named st \<longrightarrow> served st es \<longrightarrow> warm st refs - max 0 excess \<le> warm (storeAfter st es) refs))"
  unfolding scaleDown_def Let_def
  by (intro emits_ext_bind emits_mono [OF scaleDownPools_warm [OF assms]]) auto

section \<open>One reconciliation and many\<close>

text \<open>The distance to a target of \<open>target\<close> warm nodes.\<close>

definition distance :: "int \<Rightarrow> PoolRef list \<Rightarrow> poolStore \<Rightarrow> int" where
  "distance target refs st = max 0 (target - warm st refs)"

text \<open>The policy keeps its target and its pools as long as it is read.\<close>

fun policyEvent :: "int \<Rightarrow> PoolRef list \<Rightarrow> event \<Rightarrow> bool" where
  "policyEvent target refs (Kube (GetPolicy n (Inr p))) \<longleftrightarrow>
     desiredWarmGPUs p = target \<and> bps_Pools (policy_Spec p) = refs"
| "policyEvent target refs e \<longleftrightarrow> True"

definition policyStays :: "int \<Rightarrow> PoolRef list \<Rightarrow> event list \<Rightarrow> bool" where
  "policyStays target refs es \<longleftrightarrow> list_all (policyEvent target refs) es"

lemma policyStays_simps [simp]:
  "policyStays target refs []" "policyStays target refs (e # es) \<longleftrightarrow> policyEvent target refs e \<and> policyStays target refs es"
  "policyStays target refs (es @ fs) \<longleftrightarrow> policyStays target refs es \<and> policyStays target refs fs"
  by (simp_all add: policyStays_def)

lemma recount_quiet:
  "emits (do { n \<leftarrow> countWarmGPUs E policy; u \<leftarrow> kStatusUpdatePolicy E (g n); ret (h u) })
     (\<lambda>r es. (\<forall>st. storeAfter st es = st) \<and> select provisionEv es = [])"
  by (rule emits_bind [OF emits_countWarmGPUs]) (auto intro!: emits simp: readPool_select readPool_store)

primrec bufferRounds ::
  "(int \<Rightarrow> PoolView list \<Rightarrow> goerror + Plan) \<Rightarrow> 'w env \<Rightarrow> BootstrapConfig \<Rightarrow> string \<Rightarrow> nat \<Rightarrow> ('w, 'z, unit) mio" where
  "bufferRounds fill E boot name 0 = ret ()"
| "bufferRounds fill E boot name (Suc n) = do { r \<leftarrow> buffer_Reconcile fill E boot name; bufferRounds fill E boot name n }"

context scheduler
begin

lemma bufferAct_approaches:
  assumes "distinct (map ref_Name (bps_Pools (policy_Spec policy)))" and "named st"
    and "current = warm st (bps_Pools (policy_Spec policy))"
  shows "emits (bufferAct fill E boot policy desired current) (\<lambda>r es. served st es \<longrightarrow> smooth es \<longrightarrow>
     distance desired (bps_Pools (policy_Spec policy)) (storeAfter st es) + launchCount es \<le> max 0 (desired - current))"
proof -
  let ?refs = "bps_Pools (policy_Spec policy)"
  have provision: "emits (provisionEntries E boot (plan_Entries plan) \<bind>
         (\<lambda>r. ret (case r of Panics m \<Rightarrow> Panics m | Returns _ \<Rightarrow> Returns None)))
       (\<lambda>r es. served st es \<longrightarrow> smooth es \<longrightarrow>
          distance desired ?refs (storeAfter st es) + launchCount es \<le> max 0 (desired - current))"
    if "fill (desired - current) views = Inr plan" "pv_Name ` set views \<subseteq> ref_Name ` set ?refs" "current < desired"
    for views plan
  proof -
    have names: "pe_PoolName ` set (plan_Entries plan) \<subseteq> ref_Name ` set ?refs"
    proof clarify
      fix e assume "e \<in> set (plan_Entries plan)"
      from fill_room [OF that(1) this] that(2) show "pe_PoolName e \<in> ref_Name ` set ?refs" by (metis image_subset_iff)
    qed
    show ?thesis
      by (rule emits_bind [OF emits_conj [OF grows_entries [OF assms(1) names] emits_provisionEntries]])
        (use plan_count [OF that(1)] that(3) assms(2, 3) in \<open>auto intro!: emits simp: distance_def\<close>)
  qed
  have views: "emits (buildPoolViews E policy) (\<lambda>vs es. list_all readPoolEvent es \<and>
      (served st es \<longrightarrow> pv_Name ` set vs \<subseteq> ref_Name ` set ?refs))"
    by (rule buildViews_named [OF assms(2)])
  show ?thesis
    unfolding bufferAct_def
  proof (intro emits_if emits_return, goal_cases)
    case 1
    note need = 1
    show ?case
    proof (rule emits_bind_fixed [OF views], goal_cases)
      case (1 vs es)
      show ?case
      proof (cases "served st es")
        case True
        with 1 show ?thesis
          by (intro emits_case_sum emits_return emits_mono [OF provision [OF _ _ need]])
            (auto simp: readPool_store readPool_select distance_def assms(3))
      next
        case False
        then show ?thesis
          by (intro emits_case_sum emits_return emits_bind [OF emits_provisionEntries]) auto
      qed
    qed
  next
    case 2
    then show ?case
      by (intro emits_bind [OF scaleDown_warm [OF assms(1)]]) (use assms(2, 3) in \<open>auto intro!: emits simp: distance_def\<close>)
  qed (simp add: distance_def assms(3))
qed

lemma reconcile_approaches:
  assumes "distinct (map ref_Name refs)" and "named st"
  shows "emits (buffer_Reconcile fill E boot name) (\<lambda>r es. policyStays target refs es \<longrightarrow> served st es \<longrightarrow>
     smooth es \<longrightarrow> distance target refs (storeAfter st es) + launchCount es \<le> distance target refs st)"
  unfolding buffer_Reconcile_def
proof (intro emits_ext_bind emits_case_sum, goal_cases)
  case (1 a err)
  then show ?case by (auto intro!: emits)
next
  case (2 a policy)
  show ?case
  proof (rule emits_bind_fixed [OF countWarm_served], goal_cases)
    case (1 current es)
    show ?case
    proof (cases "policyEvent target refs (Kube (GetPolicy name a)) \<and> served st es")
      case True
      then have p: "bps_Pools (policy_Spec policy) = refs" "desiredWarmGPUs policy = target" "current = warm st refs"
        using 1 2 by auto
      have act: "emits (bufferAct fill E boot policy target current) (\<lambda>r es. served st es \<longrightarrow> smooth es \<longrightarrow>
          distance target refs (storeAfter st es) + launchCount es \<le> distance target refs st)"
        using bufferAct_approaches [of policy st current E boot target] p assms by (simp add: distance_def)
      show ?thesis
        unfolding p(2)
        by (rule emits_bind_fixed [OF act])
          (use 1 2 in \<open>auto intro!: emits emits_mono [OF recount_quiet] simp: readPool_store readPool_select\<close>)
    next
      case False
      then show ?thesis
        by (intro emits_bind [OF bufferAct_count])
          (use 2 in \<open>auto intro!: emits emits_mono [OF emits_recount]\<close>)
    qed
  qed
qed

lemma rounds_approach:
  assumes "distinct (map ref_Name refs)" and "named st"
  shows "emits (bufferRounds fill E boot name n) (\<lambda>r es. policyStays target refs es \<longrightarrow> served st es \<longrightarrow>
     smooth es \<longrightarrow> distance target refs (storeAfter st es) + launchCount es \<le> distance target refs st)"
  using assms(2)
proof (induction n arbitrary: st)
  case (Suc n)
  show ?case
    unfolding bufferRounds.simps
    by (rule emits_bind_fixed [OF reconcile_approaches [OF assms(1) Suc.prems]])
      (rule emits_mono [OF Suc.IH [OF named_after [OF Suc.prems]]], auto)
qed (auto intro!: emits)

end

text \<open>
  C2: The buffer controller does not run away: however often a policy is reconciled, while its target
  and its pools stay the same, all the reconciliations together launch no more nodes than were
  missing at the start, provided that a pool that is read is the one last written, every launch
  succeeds and every status is accepted.
\<close>
theorem buffer_settles:
  assumes "distinct (map ref_Name refs)" and "named st"
  shows "emits (bufferRounds (Fill insertionSort) E boot name n) (\<lambda>r es.
     policyStays target refs es \<longrightarrow> served st es \<longrightarrow> smooth es \<longrightarrow>
     int (length (select provisionEv es)) \<le> max 0 (target - warm st refs))"
  using greedy.rounds_approach [OF assms] by (rule emits_mono) (auto simp: distance_def)

text \<open>A cluster with one pool, which remembers what is written.\<close>

definition loopRefs :: "PoolRef list" where
  "loopRefs = [\<lparr>ref_Name = ''p''\<rparr>]"

definition loopPolicy :: BufferPolicy where
  "loopPolicy = zeroPolicy\<lparr>policy_Spec := (policy_Spec zeroPolicy)\<lparr>
     bps_Target := (bps_Target (policy_Spec zeroPolicy))\<lparr>bt_MinWarmGPUs := 1\<rparr>, bps_Pools := loopRefs\<rparr>\<rparr>"

lemma loopPolicy_simps [simp]: "bps_Pools (policy_Spec loopPolicy) = loopRefs" "desiredWarmGPUs loopPolicy = 1"
  by (simp_all add: loopPolicy_def zeroPolicy_def desiredWarmGPUs_def)

definition loopEnv :: "GPUPool env" where
  "loopEnv = idleEnv\<lparr>x_GetPolicy := (\<lambda>n w. (Inr loopPolicy, w)),
     x_GetPool := (\<lambda>n w. (Inr w, w)), x_StatusUpdatePool := (\<lambda>p w. (Inr p, p))\<rparr>"

lemma loopEnv_plan:
  "Fill insertionSort 1 [poolView bufPool now] = Inr \<lparr>plan_Entries = [\<lparr>pe_PoolName = ''p'', pe_NodeCount = 1\<rparr>]\<rparr>"
  by (simp add: Fill_def insertionSort_def poolView_def poolNodeTotal_def bufPool_def zeroPool_def zeroMeta_def Let_def)

lemma loopEnv_simps:
  "x_GetPool loopEnv n w = (Inr w, w)" "x_StatusUpdatePool loopEnv p w = (Inr p, p)" "x_Now loopEnv w = (0, w)"
  "x_ListNodes loopEnv k v w = (Inr [], w)" "x_StatusUpdatePolicy loopEnv y w = (Inr y, w)"
  "x_GetPolicy loopEnv n w = (Inr loopPolicy, w)"
  by (simp_all add: loopEnv_def idleEnv_def)

lemma bufPool_warm [simp]: "pc_Buffered (pool_Nodes bufPool) = 0" "pc_Provisioning (pool_Nodes bufPool) = 0"
  by (simp_all add: bufPool_def zeroPool_def)

definition goodRun :: "GPUPool \<Rightarrow> GPUPool \<Rightarrow> nat \<Rightarrow> event list \<Rightarrow> bool" where
  "goodRun p q k es \<longleftrightarrow> smooth es \<and> policyStays 1 loopRefs es \<and> served [''p'' \<mapsto> p] es \<and>
     storeAfter [''p'' \<mapsto> p] es = [''p'' \<mapsto> q] \<and> length (select provisionEv es) = k"

lemma goodRun_simps [simp]:
  "goodRun p q k [] \<longleftrightarrow> p = q \<and> k = 0"
  "goodRun p q k (Kube (GetPolicy n (Inr loopPolicy)) # es) = goodRun p q k es"
  "goodRun p q k (Kube (GetPool ''p'' (Inr p)) # es) = goodRun p q k es"
  "goodRun p q k (Kube (StatusUpdatePolicy y r) # es) = goodRun p q k es"
  "goodRun p q k (Clock t # es) = goodRun p q k es"
  by (auto simp: goodRun_def dest: map_upd_eqD1)

lemma goodRun_append: "goodRun p q k es \<Longrightarrow> goodRun q r j fs \<Longrightarrow> goodRun p r (k + j) (es @ fs)"
  by (simp add: goodRun_def)

text \<open>The two phases of the cluster: the pool is empty, then it has one warm node.\<close>

lemma loopEnv_provision:
  assumes "world s = bufPool" and "pcache s = Map.empty"
  shows "wp (provisionPool loopEnv demoBoot ''p'' 1) (\<lambda>r s'. \<exists>es. r = Returns None \<and> trace s' = trace s @ es \<and>
     goodRun bufPool (world s') 1 es \<and> warmOf (world s') = 1) s"
  using assms
  by (simp add: goodRun_def provision_eval loopEnv_simps warmOf_def addProvisioned_def bufPool_def zeroPool_def
      zeroMeta_def f_defs fl_1)

lemma loopEnv_first:
  assumes "world s = bufPool" and "pcache s = Map.empty"
  shows "wp (buffer_Reconcile (Fill insertionSort) loopEnv demoBoot ''b'') (\<lambda>r s'. \<exists>es. trace s' = trace s @ es \<and>
     goodRun bufPool (world s') 1 es \<and> warmOf (world s') = 1) s"
  using assms
  by (simp add: buffer_Reconcile_def bufferAct_def countWarmGPUs_def [of _ loopPolicy] buildPoolViews_def loopEnv_simps
      loopRefs_def loopEnv_plan wp)
   (rule wp_mono [OF loopEnv_provision], auto intro!: goodRun_append [of _ _ _ _ _ 0, simplified]
      simp: wp loopEnv_simps countWarmGPUs_def loopRefs_def)

lemma loopEnv_second:
  assumes "warmOf (world s) = 1"
  shows "wp (buffer_Reconcile (Fill insertionSort) loopEnv demoBoot ''b'') (\<lambda>r s'. \<exists>es. trace s' = trace s @ es \<and>
     goodRun (world s) (world s') 0 es) s"
  using assms by (simp add: buffer_Reconcile_def bufferAct_def countWarmGPUs_def loopEnv_simps loopRefs_def warmOf_def wp)

lemma loopEnv_rounds:
  "wp (bufferRounds (Fill insertionSort) loopEnv demoBoot ''b'' 2) (\<lambda>r s'. \<exists>q. goodRun bufPool q 1 (trace s'))
     (mgrState bufPool)"
proof -
  have second: "wp (bufferRounds (Fill insertionSort) loopEnv demoBoot ''b'' 1) (\<lambda>r s'. \<exists>q. goodRun bufPool q 1 (trace s')) s"
    if "goodRun bufPool (world s) 1 (trace s)" "warmOf (world s) = 1" for s
    using that goodRun_append [of bufPool "world s" 1 "trace s" _ 0]
    by (auto simp: wp intro!: wp_mono [OF loopEnv_second]) blast
  show ?thesis
    by (simp add: numeral_2_eq_2 wp, rule wp_mono [OF loopEnv_first])
      (use second in \<open>auto simp: mgrState_def\<close>)
qed

theorem buffer_settles_witness:
  "wp (bufferRounds (Fill insertionSort) loopEnv demoBoot ''b'' 2) (\<lambda>r s.
     length (select provisionEv (trace s)) = 1 \<and>
     int (length (select provisionEv (trace s))) \<le> max 0 (1 - warm [''p'' \<mapsto> bufPool] loopRefs)) (mgrState bufPool)"
  by (rule wp_mono [OF wp_conj [OF loopEnv_rounds emits_wp [OF buffer_settles [of loopRefs "[''p'' \<mapsto> bufPool]" _ _ _ _ 1]]]])
    (auto simp: mgrState_def goodRun_def loopRefs_def named_def bufPool_def zeroPool_def zeroMeta_def)

end
