(* ===== verification/Fleet.thy ===== *)
theory Fleet
  imports Manager Buffer_Loop "HOL-Library.Sublist"
begin

text \<open>
  The node records of a pool under all controllers at once.  The buffer, pool and health controllers
  read a pool, compute, and write its status back; they run at the same time, from caches that may be
  stale, beside users who edit pools.  What protects the records is that the API server accepts a write
  only if the writer has read the current version.  The abstract specification is the step relation
  \<open>fstep\<close> on a list of records; every write of every controller is a sequence of such steps from what
  it has read, and hence so is every history of the store.
\<close>

section \<open>The specification\<close>

text \<open>The states a record is given when its node is seen in the cluster.\<close>

definition seenStates :: "string set" where
  "seenStates = {''draining'', ''buffered'', ''active''}"

inductive fstep :: "NodeRecord list \<Rightarrow> NodeRecord list \<Rightarrow> bool" where
  launched: "nr_State r = ''provisioning'' \<Longrightarrow> fstep recs (recs @ [r])"
| found: "nr_State r = ''discovered'' \<Longrightarrow> fstep recs (recs @ [r])"
| moved: "s \<in> seenStates \<or> s = ''released'' \<Longrightarrow> fstep (pre @ r # post) (pre @ r\<lparr>nr_State := s\<rparr> # post)"

abbreviation fsteps :: "NodeRecord list \<Rightarrow> NodeRecord list \<Rightarrow> bool" where
  "fsteps \<equiv> fstep\<^sup>*\<^sup>*"

text \<open>
  Two records of one node, in this order: who they are about is the same, and the state is the same or
  one that is given to a node that was seen or released.
\<close>

definition later :: "NodeRecord \<Rightarrow> NodeRecord \<Rightarrow> bool" where
  "later r r' \<longleftrightarrow> nr_ProviderID r' = nr_ProviderID r \<and> nr_NodeName r' = nr_NodeName r \<and>
     nr_LaunchedAt r' = nr_LaunchedAt r \<and> nr_PoolName r' = nr_PoolName r \<and>
     (nr_State r' = nr_State r \<or> nr_State r' \<in> seenStates \<or> nr_State r' = ''released'')"

lemma later_refl: "later r r"
  by (simp add: later_def)

lemma later_trans: "later a b \<Longrightarrow> later b c \<Longrightarrow> later a c"
  by (auto simp: later_def)

definition onward :: "NodeRecord list \<Rightarrow> NodeRecord list \<Rightarrow> bool" where
  "onward recs recs' \<longleftrightarrow> (\<exists>olds news. recs' = olds @ news \<and> list_all2 later recs olds)"

lemma laters_refl: "list_all2 later recs recs"
  by (intro list.rel_refl later_refl)

lemma onward_refl: "onward recs recs"
  using laters_refl by (auto simp: onward_def)

lemma onward_step:
  assumes "fstep recs recs'"
  shows "onward recs recs'"
  using assms
proof cases
  case (moved s pre r post)
  then have "list_all2 later recs recs'"
    by (auto intro!: list_all2_appendI laters_refl) (auto simp: later_def)
  then show ?thesis by (auto simp: onward_def)
qed (use laters_refl in \<open>auto simp: onward_def\<close>)

lemma onward_trans:
  assumes "onward a b" and "onward b c"
  shows "onward a c"
proof -
  obtain b1 b2 where b: "b = b1 @ b2" "list_all2 later a b1" using assms(1) by (auto simp: onward_def)
  obtain c1 c2 where c: "c = c1 @ c2" "list_all2 later b c1" using assms(2) by (auto simp: onward_def)
  obtain d1 d2 where d: "c1 = d1 @ d2" "list_all2 later b1 d1"
    using c(2) unfolding b(1) by (auto simp: list_all2_append1)
  have "list_all2 later a d1" by (rule list_all2_trans [OF _ b(2) d(2)]) (rule later_trans)
  then show ?thesis using c(1) d(1) by (auto simp: onward_def)
qed

text \<open>The invariant of the specification, by rule induction: records are kept, in order, and only move on.\<close>

lemma fsteps_onward: "fsteps recs recs' \<Longrightarrow> onward recs recs'"
proof (induction rule: rtranclp_induct)
  case (step b c)
  then show ?case using onward_trans onward_step by blast
qed (rule onward_refl)

section \<open>Steps of whole lists\<close>

lemma fsteps_extend:
  assumes "list_all (\<lambda>r. nr_State r = ''provisioning'') new \<or> list_all (\<lambda>r. nr_State r = ''discovered'') new"
  shows "fsteps recs (recs @ new)"
  using assms
proof (induction new rule: rev_induct)
  case (snoc r new)
  then have "fstep (recs @ new) ((recs @ new) @ [r])" using fstep.launched fstep.found by fastforce
  moreover have "fsteps recs (recs @ new)" using snoc by auto
  ultimately show ?case by (auto intro: rtranclp.rtrancl_into_rtrancl)
qed simp

text \<open>A function that leaves a record or gives it a legal state, applied to every record.\<close>

definition moves :: "NodeRecord \<Rightarrow> NodeRecord \<Rightarrow> bool" where
  "moves r r' \<longleftrightarrow> r' = r \<or> (\<exists>s. (s \<in> seenStates \<or> s = ''released'') \<and> r' = r\<lparr>nr_State := s\<rparr>)"

lemma fsteps_moves: "list_all2 moves recs recs' \<Longrightarrow> fsteps (pre @ recs) (pre @ recs')"
proof (induction recs recs' arbitrary: pre rule: list_all2_induct)
  case (Cons r recs r' recs')
  have "fsteps (pre @ r # recs) (pre @ r' # recs)"
    using Cons.hyps(1) fstep.moved by (auto simp: moves_def)
  also have "fsteps (pre @ r' # recs) (pre @ r' # recs')"
    using Cons.IH [of "pre @ [r']"] by simp
  finally show ?case .
qed simp

lemma fsteps_map: "(\<And>r. moves r (f r)) \<Longrightarrow> fsteps recs (map f recs)"
  using fsteps_moves [of recs "map f recs" "[]"] by (simp add: list_all2_conv_all_nth)

section \<open>What the controllers make of a pool\<close>

lemma fsteps_refresh: "fsteps (pool_Records pool) (pool_Records (applyNodes ord items pool))"
proof -
  have "moves r (refreshed nodes r)" for nodes r
    by (auto simp: moves_def refreshed_def stateOf_def seenStates_def split: option.split)
  then have "fsteps (pool_Records pool @ new) (map (refreshed nodes) (pool_Records pool @ new))" for nodes new
    by (rule fsteps_map)
  moreover have "fsteps (pool_Records pool) (pool_Records pool @ map (discoveredRecord n) ns)" for n ns
    by (rule fsteps_extend) (simp add: discoveredRecord_def list_all_iff)
  ultimately show ?thesis
    unfolding applyNodes_eq Let_def by (simp del: map_append) (rule rtranclp_trans)
qed

lemma fsteps_provisioned: "fsteps (pool_Records pool) (pool_Records (fold (addProvisioned n) hs pool))"
  by (auto simp: pool_fold_addProvisioned provisionedRecord_def list_all_iff intro!: fsteps_extend)

lemma fsteps_released:
  assumes "i < length (pool_Records pool)"
  shows "fsteps (pool_Records pool) (pool_Records (releasedPool i pool))"
  using fstep.moved [of "''released''" "take i (pool_Records pool)" "pool_Records pool ! i" "drop (Suc i) (pool_Records pool)"]
    assms by (auto simp: releasedPool_def id_take_nth_drop [symmetric] upd_conv_take_nth_drop intro!: r_into_rtranclp)

section \<open>Read, modify, write\<close>

text \<open>
  What a job knows of the pools while it runs: the version it has last read or written.  A write is
  sound if it takes the records of the known version forward.
\<close>

fun learn :: "poolStore \<Rightarrow> event \<Rightarrow> poolStore" where
  "learn k (Kube (GetPool n (Inr q))) = k(pool_Name q \<mapsto> q)"
| "learn k (Kube (StatusUpdatePool p (Inr q))) = k(pool_Name p \<mapsto> p)"
| "learn k e = k"

fun sound :: "poolStore \<Rightarrow> event \<Rightarrow> bool" where
  "sound k (Kube (StatusUpdatePool p r)) \<longleftrightarrow>
     (\<exists>q. k (pool_Name p) = Some q \<and> fsteps (pool_Records q) (pool_Records p))"
| "sound k e \<longleftrightarrow> True"

fun disciplined :: "poolStore \<Rightarrow> event list \<Rightarrow> bool" where
  "disciplined k [] \<longleftrightarrow> True"
| "disciplined k (e # es) \<longleftrightarrow> sound k e \<and> disciplined (learn k e) es"

lemma disciplined_append [simp]:
  "disciplined k (es @ fs) \<longleftrightarrow> disciplined k es \<and> disciplined (foldl learn k es) fs"
  by (induction es arbitrary: k) auto

text \<open>Events that have nothing to do with pools.\<close>

definition apart :: "event \<Rightarrow> bool" where
  "apart e \<longleftrightarrow> (\<forall>k. learn k e = k \<and> sound k e)"

lemma apart_simps:
  assumes "list_all apart es"
  shows "foldl learn k es = k" "disciplined k es"
  using assms by (induction es) (auto simp: apart_def)

lemma apart_events [simp]:
  "apart (Clock t)" "apart (Sleep d)" "apart (Provider e)" "apart (Cloud c)" "apart (LookPath n a)" "apart (RunCommand cmd a)"
  "apart (Metric n ls v)" "apart (Kube (GetSecret ns n b))" "apart (Kube (GetNode n c2))" "apart (Kube (UpdateNode nd d2))"
  "apart (Kube (ListPods e2))" "apart (Kube (EvictPod q f))" "apart (Kube (DeletePod q f))" "apart (Kube (GetPolicy n g))"
  "apart (Kube (StatusUpdatePolicy y h))" "apart (Kube (ListNodes l v' i))" "apart (Kube (GetPool n (Inl err)))"
  by (simp_all add: apart_def)

lemma apart_background: "list_all backgroundEvent es \<Longrightarrow> list_all apart es"
proof (induction es)
  case (Cons e es)
  then show ?case by (cases e rule: backgroundEvent.cases) auto
qed simp

text \<open>A handler that is disciplined whatever it starts from, and one that starts with a pool in hand.\<close>

abbreviation careful :: "(('w, event, 'z) sys_scheme, 'a) state \<Rightarrow> bool" where
  "careful m \<equiv> emits m (\<lambda>_ es. \<forall>k. disciplined k es)"

abbreviation carefulWith :: "GPUPool \<Rightarrow> (('w, event, 'z) sys_scheme, 'a) state \<Rightarrow> bool" where
  "carefulWith pool m \<equiv> emits m (\<lambda>_ es. \<forall>k. k (pool_Name pool) = Some pool \<longrightarrow> disciplined k es)"

lemma careful_bind:
  assumes "careful m" and "\<And>a. careful (f a)"
  shows "careful (State_Monad.bind m f)"
  using assms(1) by (rule emits_bind) (use assms(2) in \<open>auto intro: emits_mono\<close>)

lemma careful_apart: "emits_all m apart \<Longrightarrow> careful m"
  by (erule emits_mono) (simp add: apart_simps)

text \<open>The first part has nothing to do with pools.\<close>

lemma carefulWith_bind:
  assumes "emits m (\<lambda>a es. list_all apart es \<and> X a)" and "\<And>a. X a \<Longrightarrow> carefulWith pool (f a)"
  shows "carefulWith pool (State_Monad.bind m f)"
  using assms(1) by (rule emits_bind_fixed) (auto intro: emits_mono [OF assms(2)] simp: apart_simps)

lemma careful_GetPool:
  assumes "\<And>err. careful (f err)" and "\<And>pool. carefulWith pool (g pool)"
  shows "careful (do { r \<leftarrow> kGetPool E n; case r of Inl err \<Rightarrow> f err | Inr pool \<Rightarrow> g pool })"
  by (intro emits_ext_bind emits_case_sum) (auto intro: emits_mono [OF assms(1)] emits_mono [OF assms(2)] simp: apart_def)

lemma carefulWith_update:
  assumes "pool_Name pool' = pool_Name pool" and "fsteps (pool_Records pool) (pool_Records pool')" and "\<And>u. careful (f u)"
  shows "carefulWith pool (do { u \<leftarrow> kStatusUpdatePool E pool'; f u })"
  by (intro emits_ext_bind emits_mono [OF assms(3)]) (use assms(1, 2) in auto)

lemma apart_ForPool: "emits (ForPool E boot pool) (\<lambda>_ es. list_all apart es \<and> True)"
  using emits_ForPool by (rule emits_mono) (auto simp: apart_background)

lemma apart_Capacity: "emits (Capacity_via E ref pool) (\<lambda>_ es. list_all apart es \<and> True)"
  using emits_Capacity_via by (rule emits_mono) (auto simp: apart_background)

lemma apart_Quote: "emits (Quote_via E ref req) (\<lambda>_ es. list_all apart es \<and> True)"
  using emits_Quote_via by (rule emits_mono) (auto simp: apart_background)

lemma apart_Provision: "emits_all (Provision_via E ref off) apart"
  using emits_Provision_via by (rule emits_mono) (auto simp: apart_background)

lemma apart_Release: "emits_all (Release_via E ref h) apart"
  using emits_Release_via by (rule emits_mono) (auto simp: apart_background)

subsection \<open>The pool controller\<close>

lemma careful_pool: "careful (pool_Reconcile ord E boot name)"
proof -
  have nodes: "emits (reconcileNodeRecords ord E pool) (\<lambda>pool' es. list_all apart es \<and>
      pool_Name pool' = pool_Name pool \<and> fsteps (pool_Records pool) (pool_Records pool'))" for pool
    using fsteps_refresh by (auto simp: reconcileNodeRecords_def applyNodes_eq Let_def intro!: emits split: sum.split)
  have report: "pool_Records (case c of Inl err \<Rightarrow> pool | Inr r \<Rightarrow> applyReport r pool) = pool_Records pool"
    "pool_Name (case c of Inl err \<Rightarrow> pool | Inr r \<Rightarrow> applyReport r pool) = pool_Name pool" for c pool
    by (simp_all add: applyReport_def split: sum.split)
  show ?thesis
    unfolding pool_Reconcile_def Let_def
    by (intro careful_GetPool carefulWith_bind [OF apart_ForPool] carefulWith_bind [OF apart_Capacity]
        carefulWith_bind [OF nodes] emits_case_sum carefulWith_update)
      (auto intro!: emits simp: report)
qed

subsection \<open>The buffer controller\<close>

lemma apart_provisionLoop:
  "emits (provisionLoop E ref n offers i k pool) (\<lambda>(r, pool') es. list_all apart es \<and>
     pool_Name pool' = pool_Name pool \<and> fsteps (pool_Records pool) (pool_Records pool'))"
proof (induction k arbitrary: i pool)
  case (Suc k)
  have step: "fsteps (pool_Records pool) (pool_Records (addProvisioned n h pool))" for h
    using fsteps_provisioned [of pool n "[h]"] by simp
  show ?case
    unfolding provisionLoop.simps Let_def
    by (intro emits_if emits_return emits_bind [OF apart_Provision])
      (auto intro!: emits emits_mono [OF Suc.IH] rtranclp_trans [OF step] simp: addProvisioned_def)
qed (auto intro!: emits)

lemma carefulWith_careful: "careful m \<Longrightarrow> carefulWith pool m"
  by (erule emits_mono) simp

lemma carefulWith_provisionNodes: "carefulWith pool (provisionNodes E boot pool n cnt)"
proof -
  have loop: "emits (provisionLoop E ref n offers i k pool) (\<lambda>x es. list_all apart es \<and>
      (case x of (r, pool') \<Rightarrow> pool_Name pool' = pool_Name pool \<and> fsteps (pool_Records pool) (pool_Records pool')))"
    for ref offers i k
    using apart_provisionLoop by (rule emits_mono) auto
  show ?thesis
    unfolding provisionNodes_def
    by (intro carefulWith_bind [OF apart_ForPool] carefulWith_bind [OF apart_Quote] carefulWith_bind [OF loop]
        emits_case_sum emits_case_prod emits_case_outcome emits_case_option carefulWith_update)
      (auto intro!: emits)
qed

lemma careful_provisionPool: "careful (provisionPool E boot n cnt)"
proof -
  have nodes: "emits (kListNodes E l v) (\<lambda>_ es. list_all apart es \<and> True)" for l v
    by (auto intro!: emits)
  show ?thesis
    unfolding provisionPool_def
    by (intro careful_GetPool emits_if carefulWith_bind [OF nodes] emits_case_sum carefulWith_provisionNodes)
      (auto intro!: emits)
qed

lemma careful_provisionEntries: "careful (provisionEntries E boot entries)"
proof (induction entries)
  case (Cons e entries)
  show ?case
    unfolding provisionEntries.simps
    by (intro careful_bind [OF careful_provisionPool] emits_case_outcome Cons.IH) (auto intro!: emits)
qed (auto intro!: emits)

lemma apart_drain:
  "emits (drainAndRelease E boot pool i d) (\<lambda>(err, pool') es. list_all apart es \<and>
     (pool' = pool \<or> pool' = releasedPool i pool))"
proof -
  have "emits_all (evictPods E nodeName pods) apart" for nodeName pods
    by (induction pods) (auto intro!: emits)
  then have evict: "emits_all (evictNode E nodeName) apart" for nodeName
    by (auto simp: evictNode_def intro!: emits)
  show ?thesis
    unfolding drainAndRelease_def Let_def
    by (intro emits emits_bind [OF evict] emits_bind [OF apart_ForPool] emits_bind [OF apart_Release]) auto
qed

lemma apart_releaseRecords:
  assumes "list_all (\<lambda>i. i < length (pool_Records pool)) is"
  shows "emits (releaseRecords E boot stab d now is pool excess) (\<lambda>x es. list_all apart es \<and>
     (case x of (err, pool', excess') \<Rightarrow> pool_Name pool' = pool_Name pool \<and> fsteps (pool_Records pool) (pool_Records pool')))"
  using assms
proof (induction "is" arbitrary: pool excess)
  case (Cons i "is")
  have i: "i < length (pool_Records pool)" and "is": "list_all (\<lambda>i. i < length (pool_Records pool)) is" using Cons.prems by auto
  have same: "length (pool_Records (releasedPool i pool)) = length (pool_Records pool)"
    "pool_Name (releasedPool i pool) = pool_Name pool" by (simp_all add: releasedPool_def)
  show ?case
    unfolding releaseRecords.simps
  proof (intro emits_if emits_return emits_mono [OF Cons.IH [OF "is"]] emits_bind_prod_fixed [OF apart_drain], goal_cases)
    case (3 err pool' es)
    then have "list_all (\<lambda>i. i < length (pool_Records pool')) is" "pool_Name pool' = pool_Name pool"
      "fsteps (pool_Records pool) (pool_Records pool')"
      using "is" same fsteps_released [OF i] by auto
    then show ?case
      by (intro emits_case_option emits_return emits_mono [OF Cons.IH])
        (use 3 in \<open>auto intro: rtranclp_trans\<close>)
  qed auto
qed (auto intro!: emits)

lemma careful_scaleDown: "careful (scaleDown E boot policy excess)"
proof -
  have "careful (scaleDownPools E boot stab d now refs excess)" for stab d now refs excess
  proof (induction refs arbitrary: excess)
    case (Cons ref refs)
    have recs: "emits (releaseRecords E boot stab d now [0..<length (pool_Records pool)] pool excess) (\<lambda>x es. list_all apart es \<and>
        (case x of (err, pool', excess') \<Rightarrow> pool_Name pool' = pool_Name pool \<and> fsteps (pool_Records pool) (pool_Records pool')))"
      for pool
      by (rule apart_releaseRecords) (simp add: list_all_iff)
    show ?case
      unfolding scaleDownPools.simps
      by (intro careful_GetPool Cons.IH carefulWith_bind [OF recs] emits_case_prod emits_case_option carefulWith_update emits_case_sum)
        (auto intro!: emits Cons.IH)
  qed (auto intro!: emits)
  then show ?thesis by (auto simp: scaleDown_def Let_def intro!: emits)
qed

lemma careful_reads: "list_all readEvent es \<Longrightarrow> disciplined k es"
proof (induction es arbitrary: k)
  case (Cons e es)
  then show ?case by (cases e rule: readEvent.cases) auto
qed simp

lemma careful_buffer: "careful (buffer_Reconcile fill E boot name)"
proof -
  have warm: "careful (countWarmGPUs E policy)" for policy
    using emits_countWarmGPUs by (rule emits_mono) (simp add: careful_reads readPool_read)
  have views: "careful (buildPoolViews E policy)" for policy
    using emits_buildPoolViews by (rule emits_mono) (simp add: careful_reads readPool_read)
  have act: "careful (bufferAct fill E boot policy desired current)" for policy desired current
    unfolding bufferAct_def
    by (intro emits_if careful_bind [OF views] emits_case_sum careful_bind [OF careful_provisionEntries]
        careful_bind [OF careful_scaleDown]) (auto intro!: emits)
  show ?thesis
    unfolding buffer_Reconcile_def
    by (auto intro!: emits careful_bind warm act)
qed

subsection \<open>The health controller\<close>

lemma apart_releaseNodeRecords:
  "emits (releaseNodeRecords E ref nodeName recs) (\<lambda>recs' es. list_all apart es \<and> fsteps recs recs')"
proof -
  have rel: "emits_all (releaseNodeRecords E ref nodeName recs) apart"
    by (induction recs) (auto intro!: emits emits_all_bind apart_Release)
  have steps: "fsteps recs (map (markReleased nodeName) recs)"
    by (rule fsteps_map) (auto simp: moves_def markReleased_def)
  show ?thesis
    using emits_conj [OF rel emits_releaseNodeRecords] by (rule emits_mono) (use steps in auto)
qed

lemma careful_releaseFromPool: "careful (releaseFromPool E boot poolName nodeName)"
proof -
  have now: "emits (kNow E) (\<lambda>_ es. list_all apart es \<and> True)" by (auto intro!: emits)
  show ?thesis
    unfolding releaseFromPool_def
    by (intro emits_if careful_GetPool carefulWith_bind [OF apart_ForPool] emits_case_sum
        carefulWith_bind [OF apart_releaseNodeRecords] carefulWith_bind [OF now] carefulWith_update) (auto intro!: emits)
qed

lemma careful_health: "careful (health_Reconcile E checker boot name)"
proof -
  have "emits_all (deleteNodePods E nodeName pods) apart" for nodeName pods
    by (induction pods) (auto intro!: emits)
  then have pods: "careful (deletePods E nodeName)" for nodeName
    by (auto simp: deletePods_def apart_simps intro!: emits careful_apart)
  have "emits_all (dcgmi E level) apart" for level
    by (auto simp: dcgmi_def intro!: emits)
  then have check: "careful (BootCheck E checker)" "careful (DeepCheck E checker)"
    by (auto simp: BootCheck_def DeepCheck_def intro!: emits careful_apart split: Checker.split)
  show ?thesis
    unfolding health_Reconcile_def handleXidCritical_def bootLabel_def Let_def
    by (auto intro!: emits careful_bind pods check careful_releaseFromPool)
qed

subsection \<open>A job\<close>

lemma careful_endpoint: "careful (endpoint_Reconcile cfg E ns name)"
proof -
  have d: "disciplined k es" if "list_all (duty (EndpointJob ns n)) es" for k es n
    using that
  proof (induction es arbitrary: k)
    case (Cons e es)
    have "sound k e"
      using Cons.prems by (cases "(k, e)" rule: sound.cases) (auto simp: duty.simps)
    with Cons show ?case by simp
  qed simp
  show ?thesis using duty_endpoint [where ns = ns] by (rule emits_mono) (use d in blast)
qed

lemma careful_discard: "careful m \<Longrightarrow> careful (discard m)"
  unfolding discard_def by (rule careful_bind) (auto intro!: emits)

lemma careful_runJob: "careful (runJob M j)"
  by (cases j) (auto intro!: careful_discard emits_onEndpointState careful_pool careful_buffer careful_endpoint careful_health)

section \<open>Histories\<close>

text \<open>
  A history interleaves the events of jobs, each with its number, with the edits of users.  A job may
  have been cut off anywhere.  Each job runs against an environment of its own, which may answer with
  whatever the others have made of the world; the memory of the providers is not interleaved.
\<close>

datatype entry = Does nat event | Edits GPUPool

fun projEv :: "nat \<Rightarrow> entry \<Rightarrow> event option" where
  "projEv j (Does i e) = (if i = j then Some e else None)"
| "projEv j (Edits p) = None"

definition jobTrace :: "'w managerConfig \<Rightarrow> job \<Rightarrow> event list \<Rightarrow> bool" where
  "jobTrace M jb es \<longleftrightarrow> (\<exists>E s s'. run_state (runJob (M\<lparr>mc_Env := E\<rparr>) jb) s = ((), s') \<and> trace s' = trace s @ es)"

definition runsOf :: "'w managerConfig \<Rightarrow> entry list \<Rightarrow> bool" where
  "runsOf M h \<longleftrightarrow> (\<forall>j. \<exists>jb es. jobTrace M jb es \<and> prefix (select (projEv j) h) es)"

fun applyEntry :: "poolStore \<Rightarrow> entry \<Rightarrow> poolStore" where
  "applyEntry st (Does j e) = written st e"
| "applyEntry st (Edits p) = st(pool_Name p \<mapsto> p)"

fun knows :: "(nat \<Rightarrow> poolStore) \<Rightarrow> entry \<Rightarrow> nat \<Rightarrow> poolStore" where
  "knows kn (Does j e) = kn(j := learn (kn j) e)"
| "knows kn (Edits p) = kn"

text \<open>
  The lock of the API server: a status write that is accepted was made on the version that is stored.
  An edit of a user leaves the status, and with it the records, as they are.
\<close>

fun guarded :: "poolStore \<Rightarrow> (nat \<Rightarrow> poolStore) \<Rightarrow> entry \<Rightarrow> bool" where
  "guarded st kn (Does j (Kube (StatusUpdatePool p (Inr q)))) \<longleftrightarrow> st (pool_Name p) = kn j (pool_Name p)"
| "guarded st kn (Edits p) \<longleftrightarrow> (\<exists>q. st (pool_Name p) = Some q \<and> pool_Records p = pool_Records q)"
| "guarded st kn x \<longleftrightarrow> True"

fun locked :: "poolStore \<Rightarrow> (nat \<Rightarrow> poolStore) \<Rightarrow> entry list \<Rightarrow> bool" where
  "locked st kn [] \<longleftrightarrow> True"
| "locked st kn (x # h) \<longleftrightarrow> guarded st kn x \<and> locked (applyEntry st x) (knows kn x) h"

definition forward :: "poolStore \<Rightarrow> poolStore \<Rightarrow> bool" where
  "forward st st' \<longleftrightarrow> (\<forall>n p. st n = Some p \<longrightarrow> (\<exists>p'. st' n = Some p' \<and> fsteps (pool_Records p) (pool_Records p')))"

lemma forward_refl: "forward st st"
  by (simp add: forward_def)

lemma forward_trans: "forward a b \<Longrightarrow> forward b c \<Longrightarrow> forward a c"
  unfolding forward_def by (meson rtranclp_trans)

lemma forward_upd: "(\<And>p. st n = Some p \<Longrightarrow> fsteps (pool_Records p) (pool_Records q)) \<Longrightarrow> forward st (st(n \<mapsto> q))"
  by (simp add: forward_def)

lemma forward_entry:
  assumes "guarded st kn x" and "\<And>j e. x = Does j e \<Longrightarrow> sound (kn j) e"
  shows "forward st (applyEntry st x)"
  using assms by (cases "(st, kn, x)" rule: guarded.cases) (auto intro!: forward_upd simp: forward_refl)

lemma locked_forward:
  assumes "locked st kn h" and "\<And>j. disciplined (kn j) (select (projEv j) h)"
  shows "forward st (foldl applyEntry st h)"
  using assms
proof (induction h arbitrary: st kn)
  case (Cons x h)
  have "sound (kn j) e" if "x = Does j e" for j e
    using Cons.prems(2) [of j] that by simp
  moreover have "disciplined (knows kn x j) (select (projEv j) h)" for j
    using Cons.prems(2) [of j] by (cases x) (auto split: if_splits)
  ultimately show ?case
    using Cons.prems(1) Cons.IH [of "applyEntry st x" "knows kn x"] forward_trans forward_entry [of st kn x] by auto
qed (simp add: forward_refl)

lemma runs_disciplined:
  assumes "runsOf M h"
  shows "disciplined k (select (projEv j) h)"
proof -
  obtain jb es rest where "jobTrace M jb es" and es: "es = select (projEv j) h @ rest"
    using assms unfolding runsOf_def prefix_def by blast
  then obtain E s s' where "run_state (runJob (M\<lparr>mc_Env := E\<rparr>) jb) s = ((), s')" "trace s' = trace s @ es"
    by (auto simp: jobTrace_def)
  then have "disciplined k es" using emitsD [OF careful_runJob] by (metis same_append_eq)
  then show ?thesis by (simp add: es)
qed

text \<open>
  C3: No controller loses or confuses the record of a node, whatever runs at the same time.  Take any
  history of jobs of the manager, interleaved event by event with each other and with edits of users,
  cut off anywhere, reading versions however stale; if the API server accepts a status only from a
  writer that has read the current version, then the stored records of every pool have evolved by
  steps of the specification: every record is still there, in its place, about the same node, and its
  state is as it was or one given to a node that was seen or released, and never provisioning again.
\<close>
theorem fleet_refines:
  assumes "runsOf M h" and "locked st (\<lambda>_. Map.empty) h" and "st n = Some p"
  shows "\<exists>p'. foldl applyEntry st h n = Some p' \<and> fsteps (pool_Records p) (pool_Records p') \<and>
     onward (pool_Records p) (pool_Records p')"
  using locked_forward [OF assms(2) runs_disciplined [OF assms(1)]] assms(3) fsteps_onward
  unfolding forward_def by blast

text \<open>The pool controller finds a node.\<close>

definition fleetNode :: Node where
  "fleetNode = zeroNode\<lparr>node_Meta := zeroMeta\<lparr>om_Name := ''n1''\<rparr>\<rparr>"

definition fleetEnv :: "GPUPool env" where
  "fleetEnv = loopEnv\<lparr>x_ListNodes := (\<lambda>_ _ w. (Inr [fleetNode], w))\<rparr>"

definition fleetConfig :: "GPUPool managerConfig" where
  "fleetConfig = managerSetup fleetEnv (\<lambda>_. []) [] managerDefaults insertionSort rev"

definition fleetTrace :: "event list" where
  "fleetTrace = trace (snd (run_state (runJob fleetConfig (PoolJob ''p'')) (startState bufPool)))"

lemma fleetTrace_eq:
  "\<exists>q. fleetTrace = [Kube (GetPool ''p'' (Inr bufPool)), Kube (ListNodes LabelPool ''p'' (Inr [fleetNode])),
     Kube (StatusUpdatePool q (Inr q))] \<and> pool_Name q = ''p'' \<and> map nr_State (pool_Records q) = [''active'']"
  by (simp add: fleetTrace_def fleetConfig_def managerSetup_def fleetEnv_def loopEnv_def startState_def discard_def
      pool_Reconcile_def reconcileNodeRecords_def Capacity_via_def provider_Capacity_def static_Capacity_def
      fleetNode_def zeroNode_def applyNodes_def applyReport_def nodeByName_def knownNames_def discoveredRecord_def
      provision_eval bufEnv_eval)

lemma fleetTrace_runs: "runsOf fleetConfig (map (Does 0) fleetTrace)"
proof -
  have "select (projEv j) (map (Does 0) es) = (if j = 0 then es else [])" for j es
    by (induction es) auto
  moreover have "jobTrace fleetConfig (PoolJob ''p'') fleetTrace"
    unfolding jobTrace_def fleetTrace_def
    by (rule exI [of _ fleetEnv], rule exI [of _ "startState bufPool"])
      (simp add: fleetConfig_def managerSetup_def startState_def prod_eq_iff)
  ultimately show ?thesis by (auto simp: runsOf_def)
qed

theorem fleet_refines_witness:
  "\<exists>p'. foldl applyEntry [''p'' \<mapsto> bufPool] (map (Does 0) fleetTrace) ''p'' = Some p' \<and>
     onward (pool_Records bufPool) (pool_Records p') \<and> map nr_State (pool_Records p') = [''active'']"
proof -
  obtain q where q: "fleetTrace = [Kube (GetPool ''p'' (Inr bufPool)), Kube (ListNodes LabelPool ''p'' (Inr [fleetNode])),
     Kube (StatusUpdatePool q (Inr q))]" "pool_Name q = ''p''" "map nr_State (pool_Records q) = [''active'']"
    using fleetTrace_eq by (elim exE conjE)
  have "pool_Name bufPool = ''p''" by (simp add: bufPool_def zeroPool_def zeroMeta_def)
  then have lock: "locked [''p'' \<mapsto> bufPool] (\<lambda>_. Map.empty) (map (Does 0) fleetTrace)"
    by (simp add: q(1, 2))
  have "foldl applyEntry [''p'' \<mapsto> bufPool] (map (Does 0) fleetTrace) ''p'' = Some q"
    by (simp add: q(1, 2))
  with fleet_refines [OF fleetTrace_runs lock, of "''p''" bufPool] q(3) show ?thesis by simp
qed

end
