(* ===== verification/Go_Heap.thy ===== *)
theory Go_Heap
  imports Float64 "HOL-Library.AList"
begin

text \<open>
  Go values that refer to memory: pointers, slices and maps.  A value is what a variable holds; what
  a reference points to is a cell of the heap, a list that grows at its end.  A slice stands for the
  whole array behind it.  A type says how a value is to be read, and \<open>view\<close> reads it: the tree of
  all that can be reached, and the addresses it lies at.

  A \<^emph>\<open>copier\<close> computes the new value of a field from the old one and may allocate.  \<open>deep\<close> is what
  a deep copy promises: the copy reads like the original, every address it uses is new, and nothing
  that was there has changed.  The rules in \<open>deep_intros\<close> establish it for the shapes of code the
  generator of deep copies emits.
\<close>

named_theorems deep_intros \<open>introduction rules of deep\<close>

datatype lit = LString string | LInt int | LBool bool | LFloat float64 | LTime int

datatype kind = KString | KInt | KBool | KFloat | KTime

fun kindOf :: "lit \<Rightarrow> kind" where
  "kindOf (LString s) = KString"
| "kindOf (LInt i) = KInt"
| "kindOf (LBool b) = KBool"
| "kindOf (LFloat r) = KFloat"
| "kindOf (LTime t) = KTime"

datatype gotype =
    TBase kind
  | TPtr gotype
  | TSlice gotype
  | TMap gotype
  | TStruct "(string \<times> gotype) list"

type_synonym addr = nat

datatype gval = Lit lit | NilRef | Ref addr | Struct "(string \<times> gval) list"

text \<open>What a pointer, a slice and a map refer to.\<close>

datatype cell = Box gval | Arr "gval list" | Dict "(string \<times> gval) list"

type_synonym heap = "cell list"

definition cellAt :: "heap \<Rightarrow> addr \<Rightarrow> cell option" where
  "cellAt h a = (if a < length h then Some (h ! a) else None)"

datatype tree =
    TLit lit
  | TNil
  | TBox tree
  | TArr "tree list"
  | TDict "(string \<times> tree) list"
  | TRec "(string \<times> tree) list"

section \<open>Reading a value\<close>

fun viewList :: "('v \<Rightarrow> ('t \<times> addr list) option) \<Rightarrow> 'v list \<Rightarrow> ('t list \<times> addr list) option" where
  "viewList f [] = Some ([], [])"
| "viewList f (v # vs) =
     (case f v of
        None \<Rightarrow> None
      | Some (t, as) \<Rightarrow>
          (case viewList f vs of None \<Rightarrow> None | Some (ts, bs) \<Rightarrow> Some (t # ts, as @ bs)))"

lemma viewList_cong [fundef_cong]:
  "vs = vs' \<Longrightarrow> (\<And>v. v \<in> set vs' \<Longrightarrow> f v = g v) \<Longrightarrow> viewList f vs = viewList g vs'"
proof (induction vs arbitrary: vs')
  case (Cons v vs)
  then have "viewList f vs = viewList g vs" "f v = g v" by auto
  with Cons.prems(1) show ?case by (auto split: option.split)
qed simp

definition viewEntry :: "('v \<Rightarrow> ('t \<times> addr list) option) \<Rightarrow> string \<times> 'v \<Rightarrow> ((string \<times> 't) \<times> addr list) option" where
  "viewEntry f e = (case f (snd e) of None \<Rightarrow> None | Some (t, as) \<Rightarrow> Some ((fst e, t), as))"

lemma viewEntry_cong [fundef_cong]: "e = e' \<Longrightarrow> f (snd e') = g (snd e') \<Longrightarrow> viewEntry f e = viewEntry g e'"
  by (simp add: viewEntry_def)

fun view :: "heap \<Rightarrow> gotype \<Rightarrow> gval \<Rightarrow> (tree \<times> addr list) option"
  and viewFields :: "heap \<Rightarrow> (string \<times> gotype) list \<Rightarrow> (string \<times> gval) list \<Rightarrow> ((string \<times> tree) list \<times> addr list) option"
where
  "view h (TBase k) v = (case v of Lit l \<Rightarrow> if kindOf l = k then Some (TLit l, []) else None | _ \<Rightarrow> None)"
| "view h (TPtr T) v =
     (case v of
        NilRef \<Rightarrow> Some (TNil, [])
      | Ref a \<Rightarrow>
          (case cellAt h a of
             Some (Box w) \<Rightarrow> (case view h T w of None \<Rightarrow> None | Some (t, as) \<Rightarrow> Some (TBox t, a # as))
           | _ \<Rightarrow> None)
      | _ \<Rightarrow> None)"
| "view h (TSlice T) v =
     (case v of
        NilRef \<Rightarrow> Some (TNil, [])
      | Ref a \<Rightarrow>
          (case cellAt h a of
             Some (Arr ws) \<Rightarrow> (case viewList (view h T) ws of None \<Rightarrow> None | Some (ts, as) \<Rightarrow> Some (TArr ts, a # as))
           | _ \<Rightarrow> None)
      | _ \<Rightarrow> None)"
| "view h (TMap T) v =
     (case v of
        NilRef \<Rightarrow> Some (TNil, [])
      | Ref a \<Rightarrow>
          (case cellAt h a of
             Some (Dict es) \<Rightarrow>
               (case viewList (viewEntry (view h T)) es of None \<Rightarrow> None | Some (ts, as) \<Rightarrow> Some (TDict ts, a # as))
           | _ \<Rightarrow> None)
      | _ \<Rightarrow> None)"
| "view h (TStruct Ts) v =
     (case v of
        Struct fs \<Rightarrow> (case viewFields h Ts fs of None \<Rightarrow> None | Some (ts, as) \<Rightarrow> Some (TRec ts, as))
      | _ \<Rightarrow> None)"
| "viewFields h [] fs = (if fs = [] then Some ([], []) else None)"
| "viewFields h ((n, T) # Ts) fs =
     (case fs of
        [] \<Rightarrow> None
      | (m, w) # fs \<Rightarrow>
          if m \<noteq> n then None
          else (case view h T w of
                  None \<Rightarrow> None
                | Some (t, as) \<Rightarrow>
                    (case viewFields h Ts fs of
                       None \<Rightarrow> None
                     | Some (ts, bs) \<Rightarrow> Some ((n, t) # ts, as @ bs))))"

text \<open>Types without references, which an assignment copies.\<close>

fun flat :: "gotype \<Rightarrow> bool" and flatFields :: "(string \<times> gotype) list \<Rightarrow> bool" where
  "flat (TBase k) = True"
| "flat (TPtr T) = False"
| "flat (TSlice T) = False"
| "flat (TMap T) = False"
| "flat (TStruct Ts) = flatFields Ts"
| "flatFields [] = True"
| "flatFields ((n, T) # Ts) = (flat T \<and> flatFields Ts)"

lemma flat_no_addr:
  "flat T \<Longrightarrow> view h T v = Some (t, as) \<Longrightarrow> as = []"
  "flatFields Ts \<Longrightarrow> viewFields h Ts fs = Some (ts, as) \<Longrightarrow> as = []"
  by (induction h T v and h Ts fs arbitrary: t as and ts as rule: view_viewFields.induct)
    (fastforce split: option.splits gval.splits if_splits list.splits)+

section \<open>Frames\<close>

text \<open>Reading depends on nothing but the cells at the addresses read.\<close>

definition agree :: "addr set \<Rightarrow> heap \<Rightarrow> heap \<Rightarrow> bool" where
  "agree A h h' \<longleftrightarrow> (\<forall>a \<in> A. cellAt h' a = cellAt h a)"

lemma agree_subset: "agree A h h' \<Longrightarrow> B \<subseteq> A \<Longrightarrow> agree B h h'"
  by (auto simp: agree_def)

lemma viewList_frame:
  assumes "viewList f vs = Some (ts, as)"
    and "\<And>v t bs. v \<in> set vs \<Longrightarrow> f v = Some (t, bs) \<Longrightarrow> set bs \<subseteq> set as \<Longrightarrow> g v = Some (t, bs)"
  shows "viewList g vs = Some (ts, as)"
  using assms
proof (induction vs arbitrary: ts as)
  case (Cons v vs)
  then obtain t bs ts' cs where v: "f v = Some (t, bs)" "viewList f vs = Some (ts', cs)" "ts = t # ts'" "as = bs @ cs"
    by (auto split: option.splits)
  have "viewList g vs = Some (ts', cs)"
    by (rule Cons.IH [OF v(2)]) (rule Cons.prems(2), use v(4) in auto)
  moreover have "g v = Some (t, bs)" using Cons.prems(2) v by auto
  ultimately show ?case using v by simp
qed simp

lemma view_frame:
  "view h T v = Some (t, as) \<Longrightarrow> agree (set as) h h' \<Longrightarrow> view h' T v = Some (t, as)"
  "viewFields h Ts fs = Some (ts, as) \<Longrightarrow> agree (set as) h h' \<Longrightarrow> viewFields h' Ts fs = Some (ts, as)"
proof (induction h T v and h Ts fs arbitrary: t as and ts as rule: view_viewFields.induct)
  case (3 h T v)
  from "3.prems" show ?case
  proof (cases v)
    case (Ref a)
    with "3.prems" obtain ws us bs where w: "cellAt h a = Some (Arr ws)" "viewList (view h T) ws = Some (us, bs)"
      "t = TArr us" "as = a # bs"
      by (auto split: option.splits cell.splits)
    have "viewList (view h' T) ws = Some (us, bs)"
      using w(2)
    proof (rule viewList_frame)
      fix x u cs assume "x \<in> set ws" "view h T x = Some (u, cs)" "set cs \<subseteq> set bs"
      then show "view h' T x = Some (u, cs)"
        using "3.IH" [OF Ref w(1) refl] agree_subset [OF "3.prems"(2), of "set cs"] w(4) by auto
    qed
    moreover have "cellAt h' a = cellAt h a" using "3.prems"(2) w by (simp add: agree_def)
    ultimately show ?thesis using Ref w by simp
  qed auto
next
  case (4 h T v)
  from "4.prems" show ?case
  proof (cases v)
    case (Ref a)
    with "4.prems" obtain es us bs where w: "cellAt h a = Some (Dict es)" "viewList (viewEntry (view h T)) es = Some (us, bs)"
      "t = TDict us" "as = a # bs"
      by (auto split: option.splits cell.splits)
    have "viewList (viewEntry (view h' T)) es = Some (us, bs)"
      using w(2)
    proof (rule viewList_frame)
      fix e u cs assume e: "e \<in> set es" "viewEntry (view h T) e = Some (u, cs)" "set cs \<subseteq> set bs"
      then obtain x where x: "view h T (snd e) = Some (x, cs)" "u = (fst e, x)"
        by (auto simp: viewEntry_def split: option.splits)
      have "agree (set cs) h h'" using agree_subset [OF "4.prems"(2), of "set cs"] e(3) w(4) by auto
      then have "view h' T (snd e) = Some (x, cs)" using "4.IH" [OF Ref w(1) refl e(1)] x(1) by auto
      then show "viewEntry (view h' T) e = Some (u, cs)" using x by (simp add: viewEntry_def)
    qed
    moreover have "cellAt h' a = cellAt h a" using "4.prems"(2) w by (simp add: agree_def)
    ultimately show ?thesis using Ref w by simp
  qed auto
next
  case (7 h n T Ts fs)
  then obtain w gs t bs us cs where f: "fs = (n, w) # gs" "view h T w = Some (t, bs)"
    "viewFields h Ts gs = Some (us, cs)" "ts = (n, t) # us" "as = bs @ cs"
    by (auto split: option.splits if_splits list.splits)
  have "view h' T w = Some (t, bs)" "viewFields h' Ts gs = Some (us, cs)"
    using "7.IH" f agree_subset [OF "7.prems"(2), of "set bs"] agree_subset [OF "7.prems"(2), of "set cs"] by auto
  with f show ?case by simp
qed (auto simp: agree_def split: option.splits gval.splits if_splits list.splits cell.splits)

lemma viewList_addrs:
  "viewList f vs = Some (ts, as) \<Longrightarrow> a \<in> set as \<Longrightarrow> \<exists>v t bs. v \<in> set vs \<and> f v = Some (t, bs) \<and> a \<in> set bs"
  by (induction vs arbitrary: ts as) (fastforce split: option.splits)+

lemma viewed_allocated:
  "view h T v = Some (t, as) \<Longrightarrow> a \<in> set as \<Longrightarrow> a < length h"
  "viewFields h Ts fs = Some (ts, as) \<Longrightarrow> a \<in> set as \<Longrightarrow> a < length h"
proof (induction h T v and h Ts fs arbitrary: t as and ts as rule: view_viewFields.induct)
  case (3 h T v)
  then show ?case
    by (fastforce simp: cellAt_def dest: viewList_addrs split: option.splits gval.splits cell.splits if_splits)
next
  case (4 h T v)
  then show ?case
    by (fastforce simp: cellAt_def viewEntry_def dest: viewList_addrs split: option.splits gval.splits cell.splits if_splits)
qed (fastforce simp: cellAt_def split: option.splits gval.splits if_splits list.splits cell.splits)+

lemma agree_append: "(\<And>a. a \<in> A \<Longrightarrow> a < length h) \<Longrightarrow> agree A h (h @ new)"
  by (fastforce simp: agree_def cellAt_def nth_append)

lemma view_append: "view h T v = Some (t, as) \<Longrightarrow> view (h @ new) T v = Some (t, as)"
  by (rule view_frame(1) [OF _ agree_append]) (auto dest: viewed_allocated(1))

section \<open>Copying\<close>

type_synonym copier = "gval \<Rightarrow> heap \<Rightarrow> gval \<times> heap"

text \<open>An assignment.\<close>

definition assign :: copier where
  "assign v h = (v, h)"

fun copyList :: "('v \<Rightarrow> heap \<Rightarrow> 'v \<times> heap) \<Rightarrow> 'v list \<Rightarrow> heap \<Rightarrow> 'v list \<times> heap" where
  "copyList c [] h = ([], h)"
| "copyList c (v # vs) h = (let (w, h) = c v h; (ws, h) = copyList c vs h in (w # ws, h))"

text \<open>A non-nil pointer is replaced by one to a new variable, into which the old one is copied.\<close>

definition copyPtr :: "copier \<Rightarrow> copier" where
  "copyPtr c v h =
     (case v of
        Ref a \<Rightarrow> (case cellAt h a of
                    Some (Box w) \<Rightarrow> (let (w, h) = c w h in (Ref (length h), h @ [Box w]))
                  | _ \<Rightarrow> (v, h))
      | _ \<Rightarrow> (v, h))"

definition unlessNil :: "copier \<Rightarrow> copier" where
  "unlessNil c v h = (if v = NilRef then (v, h) else c v h)"

text \<open>A non-nil slice is replaced by a new one of its length, and each element copied.\<close>

definition copySlice :: "copier \<Rightarrow> copier" where
  "copySlice c v h =
     (case v of
        Ref a \<Rightarrow> (case cellAt h a of
                    Some (Arr ws) \<Rightarrow> (let (ws, h) = copyList c ws h in (Ref (length h), h @ [Arr ws]))
                  | _ \<Rightarrow> (v, h))
      | _ \<Rightarrow> (v, h))"

text \<open>A non-nil map is replaced by a new one, and each value copied under its key.\<close>

definition copyMap :: "copier \<Rightarrow> copier" where
  "copyMap c v h =
     (case v of
        Ref a \<Rightarrow> (case cellAt h a of
                    Some (Dict es) \<Rightarrow>
                      (let (es, h) = copyList (\<lambda>(k, w) h. let (w, h) = c w h in ((k, w), h)) es h
                       in (Ref (length h), h @ [Dict es]))
                  | _ \<Rightarrow> (v, h))
      | _ \<Rightarrow> (v, h))"

text \<open>
  The body of a \<open>DeepCopyInto\<close>: \<open>*out = *in\<close>, then the fields that are copied one by one, read from
  \<open>in\<close> and written to \<open>out\<close>.
\<close>

fun copyFields :: "(string \<times> copier) list \<Rightarrow> (string \<times> gval) list \<Rightarrow> (string \<times> gval) list \<Rightarrow> heap \<Rightarrow>
    (string \<times> gval) list \<times> heap" where
  "copyFields [] inn out h = (out, h)"
| "copyFields ((n, c) # cs) inn out h =
     (case map_of inn n of
        None \<Rightarrow> copyFields cs inn out h
      | Some w \<Rightarrow> (let (w, h) = c w h in copyFields cs inn (AList.update n w out) h))"

definition copyStruct :: "(string \<times> copier) list \<Rightarrow> copier" where
  "copyStruct cs v h =
     (case v of Struct fs \<Rightarrow> (let (out, h) = copyFields cs fs fs h in (Struct out, h)) | _ \<Rightarrow> (v, h))"

section \<open>Deep copies\<close>

definition isFresh :: "heap \<Rightarrow> addr list \<Rightarrow> bool" where
  "isFresh h as \<longleftrightarrow> list_all (\<lambda>a. length h \<le> a) as"

text \<open>The result of a copier whose argument reads as \<open>t\<close>.\<close>

definition copied :: "heap \<Rightarrow> ('v \<Rightarrow> heap \<Rightarrow> ('t \<times> addr list) option) \<Rightarrow> 't \<Rightarrow> 'v \<times> heap \<Rightarrow> bool" where
  "copied h vw t r \<longleftrightarrow> (\<exists>new as. snd r = h @ new \<and> vw (fst r) (snd r) = Some (t, as) \<and> isFresh h as)"

definition deep :: "gotype \<Rightarrow> copier \<Rightarrow> bool" where
  "deep T c \<longleftrightarrow> (\<forall>h v t as. view h T v = Some (t, as) \<longrightarrow> copied h (\<lambda>v h. view h T v) t (c v h))"

lemma deepD:
  assumes "deep T c" and "view h T v = Some (t, as)"
  obtains v' new bs where "c v h = (v', h @ new)" "view (h @ new) T v' = Some (t, bs)" "isFresh h bs"
  using assms unfolding deep_def copied_def by (metis prod.collapse)

lemma isFresh_simps [simp]:
  "isFresh h []" "isFresh h (a # as) \<longleftrightarrow> length h \<le> a \<and> isFresh h as"
  "isFresh h (as @ bs) \<longleftrightarrow> isFresh h as \<and> isFresh h bs"
  by (simp_all add: isFresh_def)

lemma isFresh_append: "isFresh (h @ new) as \<Longrightarrow> isFresh h as"
  by (auto simp: isFresh_def list_all_iff)

lemma deep_assign [deep_intros]: "flat T \<Longrightarrow> deep T assign"
  by (auto simp: deep_def copied_def assign_def dest: flat_no_addr(1))

lemma cellAt_last [simp]: "cellAt (h @ [x]) (length h) = Some x"
  by (simp add: cellAt_def)

lemma deep_ptr [deep_intros]:
  assumes "deep T c"
  shows "deep (TPtr T) (copyPtr c)"
  unfolding deep_def
proof (intro allI impI)
  fix h v t as assume v: "view h (TPtr T) v = Some (t, as)"
  show "copied h (\<lambda>v h. view h (TPtr T) v) t (copyPtr c v h)"
  proof (cases v)
    case (Ref a)
    with v obtain w u bs where w: "cellAt h a = Some (Box w)" "view h T w = Some (u, bs)" "t = TBox u"
      by (auto split: option.splits cell.splits)
    from deepD [OF assms w(2)] obtain w' new cs where c: "c w h = (w', h @ new)"
      "view (h @ new) T w' = Some (u, cs)" "isFresh h cs" .
    have "view (h @ new @ [Box w']) T w' = Some (u, cs)" using view_append [OF c(2)] by simp
    moreover have "cellAt (h @ new @ [Box w']) (length h + length new) = Some (Box w')"
      using cellAt_last [of "h @ new"] by simp
    ultimately show ?thesis using Ref w c by (auto simp: copied_def copyPtr_def)
  qed (use v in \<open>auto simp: copied_def copyPtr_def\<close>)
qed

lemma deep_unlessNil [deep_intros]: "deep (TPtr T) c \<Longrightarrow> deep (TPtr T) (unlessNil c)"
  by (auto simp: deep_def unlessNil_def copied_def)

text \<open>Copying a list element by element, for any way \<open>f\<close> of reading elements that allocation does not disturb.\<close>

lemma viewList_append:
  assumes "\<And>v t as. f h v = Some (t, as) \<Longrightarrow> f (h @ new) v = Some (t, as)" and "viewList (f h) vs = Some (ts, as)"
  shows "viewList (f (h @ new)) vs = Some (ts, as)"
  using assms(2) by (rule viewList_frame) (rule assms(1))

lemma copied_list:
  assumes mono: "\<And>h new v t as. f h v = Some (t, as) \<Longrightarrow> f (h @ new) v = Some (t, as)"
    and elem: "\<And>h v t as. f h v = Some (t, as) \<Longrightarrow> copied h (\<lambda>v h. f h v) t (c v h)"
  shows "viewList (f h) vs = Some (ts, as) \<Longrightarrow> copied h (\<lambda>vs h. viewList (f h) vs) ts (copyList c vs h)"
proof (induction vs arbitrary: h ts as)
  case (Cons v vs)
  then obtain t bs us cs where v: "f h v = Some (t, bs)" "viewList (f h) vs = Some (us, cs)" "ts = t # us"
    by (auto split: option.splits)
  obtain w new ds where w: "c v h = (w, h @ new)" "f (h @ new) w = Some (t, ds)" "isFresh h ds"
    using elem [OF v(1)] unfolding copied_def by (metis prod.collapse)
  obtain ws new' es where ws: "copyList c vs (h @ new) = (ws, (h @ new) @ new')"
    "viewList (f ((h @ new) @ new')) ws = Some (us, es)" "isFresh (h @ new) es"
    using Cons.IH [OF viewList_append [where f = f, OF mono v(2)]] unfolding copied_def by (metis prod.collapse)
  show ?case
    using w ws v(3) mono [OF w(2), of new'] isFresh_append [OF ws(3)] by (auto simp: copied_def)
qed (simp add: copied_def)

lemma deep_slice [deep_intros]:
  assumes "deep T c"
  shows "deep (TSlice T) (copySlice c)"
  unfolding deep_def
proof (intro allI impI)
  fix h v t as assume v: "view h (TSlice T) v = Some (t, as)"
  show "copied h (\<lambda>v h. view h (TSlice T) v) t (copySlice c v h)"
  proof (cases v)
    case (Ref a)
    with v obtain ws us bs where w: "cellAt h a = Some (Arr ws)" "viewList (view h T) ws = Some (us, bs)" "t = TArr us"
      by (auto split: option.splits cell.splits)
    have "copied h (\<lambda>vs h. viewList (view h T) vs) us (copyList c ws h)"
      by (rule copied_list [where f = "\<lambda>h. view h T", OF _ _ w(2)]) (use assms in \<open>auto simp: deep_def intro: view_append\<close>)
    then obtain ws' new cs where c: "copyList c ws h = (ws', h @ new)"
      "viewList (view (h @ new) T) ws' = Some (us, cs)" "isFresh h cs"
      unfolding copied_def by (metis prod.collapse)
    have "viewList (view (h @ new @ [Arr ws']) T) ws' = Some (us, cs)"
      using viewList_append [where f = "\<lambda>h. view h T", OF view_append c(2)] by simp
    moreover have "cellAt (h @ new @ [Arr ws']) (length h + length new) = Some (Arr ws')"
      using cellAt_last [of "h @ new"] by simp
    ultimately show ?thesis using Ref w c by (auto simp: copied_def copySlice_def)
  qed (use v in \<open>auto simp: copied_def copySlice_def\<close>)
qed

lemma viewEntry_append: "viewEntry (view h T) e = Some (t, as) \<Longrightarrow> viewEntry (view (h @ new) T) e = Some (t, as)"
  by (auto simp: viewEntry_def view_append split: option.splits)

lemma deep_map [deep_intros]:
  assumes "deep T c"
  shows "deep (TMap T) (copyMap c)"
  unfolding deep_def
proof (intro allI impI)
  let ?c = "\<lambda>(k, w) h. let (w, h) = c w h in ((k, w), h)"
  fix h v t as assume v: "view h (TMap T) v = Some (t, as)"
  show "copied h (\<lambda>v h. view h (TMap T) v) t (copyMap c v h)"
  proof (cases v)
    case (Ref a)
    with v obtain es us bs where w: "cellAt h a = Some (Dict es)"
      "viewList (viewEntry (view h T)) es = Some (us, bs)" "t = TDict us"
      by (auto split: option.splits cell.splits)
    have entry: "copied h (\<lambda>e h. viewEntry (view h T) e) u (?c e h)"
      if e: "viewEntry (view h T) e = Some (u, cs)" for h e u cs
    proof -
      obtain x where x: "view h T (snd e) = Some (x, cs)" "u = (fst e, x)"
        using e by (auto simp: viewEntry_def split: option.splits)
      obtain w new ds where "c (snd e) h = (w, h @ new)" "view (h @ new) T w = Some (x, ds)" "isFresh h ds"
        using deepD [OF assms x(1)] .
      with x(2) show ?thesis by (simp add: copied_def viewEntry_def split_beta)
    qed
    have "copied h (\<lambda>vs h. viewList (viewEntry (view h T)) vs) us (copyList ?c es h)"
      by (rule copied_list [where f = "\<lambda>h. viewEntry (view h T)", OF _ _ w(2)]) (use entry viewEntry_append in \<open>auto\<close>)
    then obtain es' new cs where c: "copyList ?c es h = (es', h @ new)"
      "viewList (viewEntry (view (h @ new) T)) es' = Some (us, cs)" "isFresh h cs"
      unfolding copied_def by (metis prod.collapse)
    have "viewList (viewEntry (view (h @ new @ [Dict es']) T)) es' = Some (us, cs)"
      using viewList_append [where f = "\<lambda>h. viewEntry (view h T)", OF viewEntry_append c(2)] by simp
    moreover have "cellAt (h @ new @ [Dict es']) (length h + length new) = Some (Dict es')"
      using cellAt_last [of "h @ new"] by simp
    ultimately show ?thesis using Ref w c by (auto simp: copied_def copyMap_def)
  qed (use v in \<open>auto simp: copied_def copyMap_def\<close>)
qed

subsection \<open>Structures\<close>

lemma viewFields_names:
  "viewFields h Ts fs = Some (ts, as) \<Longrightarrow> map fst fs = map fst Ts \<and> map fst ts = map fst Ts"
  by (induction Ts arbitrary: fs ts as) (auto split: option.splits list.splits if_splits)

lemma viewFields_field:
  assumes "distinct (map fst Ts)" and "viewFields h Ts fs = Some (ts, as)" and "(n, T) \<in> set Ts"
  shows "\<exists>w bs. map_of fs n = Some w \<and> view h T w = Some (the (map_of ts n), bs)"
  using assms
proof (induction Ts arbitrary: fs ts as)
  case (Cons X Ts)
  obtain m U where X: "X = (m, U)" by (cases X)
  obtain w gs t bs us cs where f: "fs = (m, w) # gs" "view h U w = Some (t, bs)"
    "viewFields h Ts gs = Some (us, cs)" "ts = (m, t) # us"
    using Cons.prems(2) X by (auto split: option.splits if_splits list.splits)
  show ?case
  proof (cases "n = m")
    case True
    then have "T = U" using Cons.prems(1, 3) X by (auto intro: rev_image_eqI)
    with True f show ?thesis by simp
  next
    case False
    with Cons.prems X have "(n, T) \<in> set Ts" "distinct (map fst Ts)" by auto
    from Cons.IH [OF this(2) f(3) this(1)] False f show ?thesis by auto
  qed
qed simp

lemma viewFields_intro:
  assumes "distinct (map fst Ts)" and "map fst fs = map fst Ts" and "map fst ts = map fst Ts"
    and "\<And>n T. (n, T) \<in> set Ts \<Longrightarrow> \<exists>bs. view h T (the (map_of fs n)) = Some (the (map_of ts n), bs) \<and> isFresh h0 bs"
  shows "\<exists>as. viewFields h Ts fs = Some (ts, as) \<and> isFresh h0 as"
  using assms
proof (induction Ts arbitrary: fs ts)
  case (Cons X Ts)
  obtain m U where X: "X = (m, U)" by (cases X)
  obtain w gs t us where f: "fs = (m, w) # gs" "ts = (m, t) # us" "map fst gs = map fst Ts" "map fst us = map fst Ts"
    using Cons.prems(2, 3) X by (auto simp: map_eq_Cons_conv)
  obtain bs where bs: "view h U w = Some (t, bs)" "isFresh h0 bs" using Cons.prems(4) [of m U] X f by auto
  have "\<exists>as. viewFields h Ts gs = Some (us, as) \<and> isFresh h0 as"
  proof (rule Cons.IH [OF _ f(3, 4)])
    fix n T assume n: "(n, T) \<in> set Ts"
    with Cons.prems(1) X have "n \<noteq> m" by (auto intro: rev_image_eqI)
    with Cons.prems(4) [of n T] n f show "\<exists>bs. view h T (the (map_of gs n)) = Some (the (map_of us n), bs) \<and> isFresh h0 bs"
      by auto
  qed (use Cons.prems(1) in auto)
  with X f bs show ?case by auto
qed simp

text \<open>Each field has its copier, or none and a type without references.\<close>

definition covers :: "(string \<times> gotype) list \<Rightarrow> (string \<times> copier) list \<Rightarrow> bool" where
  "covers Ts cs \<longleftrightarrow> distinct (map fst Ts) \<and> distinct (map fst cs) \<and>
     (\<forall>(n, T) \<in> set Ts. case map_of cs n of Some c \<Rightarrow> deep T c | None \<Rightarrow> flat T)"

text \<open>The state of a copy in progress: the fields in \<open>N\<close> are done.\<close>

definition fieldsDone :: "heap \<Rightarrow> (string \<times> gotype) list \<Rightarrow> (string \<times> tree) list \<Rightarrow> string set \<Rightarrow>
    (string \<times> gval) list \<Rightarrow> heap \<Rightarrow> bool" where
  "fieldsDone h0 Ts ts N out h \<longleftrightarrow> (\<exists>new. h = h0 @ new) \<and> map fst out = map fst Ts \<and>
     (\<forall>n T. (n, T) \<in> set Ts \<longrightarrow> n \<in> N \<longrightarrow>
        (\<exists>bs. view h T (the (map_of out n)) = Some (the (map_of ts n), bs) \<and> isFresh h0 bs))"

lemma fieldsDone_step:
  assumes "fieldsDone h0 Ts ts N out h" and "deep T c" and "(n, T) \<in> set Ts" and "distinct (map fst Ts)"
    and "view h0 T w = Some (the (map_of ts n), as)" and "c w h = (w', h')"
  shows "fieldsDone h0 Ts ts (insert n N) (AList.update n w' out) h'"
proof -
  obtain new where h: "h = h0 @ new" and names: "map fst out = map fst Ts"
    using assms(1) by (auto simp: fieldsDone_def)
  from deepD [OF assms(2) view_append [OF assms(5), of new]] obtain new' bs where
    w: "h' = (h0 @ new) @ new'" "view h' T w' = Some (the (map_of ts n), bs)" "isFresh (h0 @ new) bs"
    using assms(6) h by auto
  have "n \<in> fst ` set Ts" using assms(3) by force
  then have "map fst (AList.update n w' out) = map fst Ts" by (simp add: update_keys names)
  moreover have "\<exists>bs. view h' U (the (map_of (AList.update n w' out) m)) = Some (the (map_of ts m), bs) \<and> isFresh h0 bs"
    if "(m, U) \<in> set Ts" "m \<in> insert n N" for m U
  proof (cases "m = n")
    case True
    then have "U = T" using that(1) assms(3, 4) by (simp add: eq_key_imp_eq_value)
    with True w isFresh_append show ?thesis by (auto simp: update_conv')
  next
    case False
    with that assms(1) obtain cs where cs: "view h U (the (map_of out m)) = Some (the (map_of ts m), cs)" "isFresh h0 cs"
      by (auto simp: fieldsDone_def)
    have "view h' U (the (map_of out m)) = Some (the (map_of ts m), cs)"
      unfolding w(1) h [symmetric] by (rule view_append [OF cs(1)])
    with False cs(2) show ?thesis by (simp add: update_conv')
  qed
  ultimately show ?thesis using w(1) by (auto simp: fieldsDone_def)
qed

lemma copyFields_done:
  assumes "distinct (map fst Ts)" and "viewFields h0 Ts inn = Some (ts, as)"
  shows "fieldsDone h0 Ts ts N out h \<Longrightarrow> (\<And>n T c. (n, T) \<in> set Ts \<Longrightarrow> (n, c) \<in> set cs \<Longrightarrow> deep T c) \<Longrightarrow>
     copyFields cs inn out h = (out', h') \<Longrightarrow> fieldsDone h0 Ts ts (N \<union> fst ` set cs) out' h'"
proof (induction cs arbitrary: N out h)
  case (Cons X cs)
  obtain n c where X: "X = (n, c)" by (cases X)
  show ?case
  proof (cases "n \<in> fst ` set Ts")
    case True
    then obtain T where T: "(n, T) \<in> set Ts" by auto
    from viewFields_field [OF assms T] obtain w bs where w: "map_of inn n = Some w"
      "view h0 T w = Some (the (map_of ts n), bs)" by auto
    obtain w' h1 where c: "c w h = (w', h1)" by (cases "c w h")
    have "deep T c" using Cons.prems(2) T X by auto
    from fieldsDone_step [OF Cons.prems(1) this T assms(1) w(2) c]
    have "fieldsDone h0 Ts ts (insert n N \<union> fst ` set cs) out' h'"
      by (rule Cons.IH) (use Cons.prems(2, 3) X w c in auto)
    then show ?thesis using X by simp
  next
    case False
    then have "map_of inn n = None" using viewFields_names [OF assms(2)] by (metis list.set_map map_of_eq_None_iff)
    then have "copyFields cs inn out h = (out', h')" using Cons.prems(3) X by simp
    then have "fieldsDone h0 Ts ts (N \<union> fst ` set cs) out' h'" using Cons.IH [OF Cons.prems(1)] Cons.prems(2) by auto
    then show ?thesis using X False by (auto simp: fieldsDone_def) (metis fst_conv image_eqI)
  qed
qed (simp add: fieldsDone_def)

lemma deep_struct [deep_intros]:
  assumes "covers Ts cs"
  shows "deep (TStruct Ts) (copyStruct cs)"
  unfolding deep_def
proof (intro allI impI)
  fix h v t as assume v: "view h (TStruct Ts) v = Some (t, as)"
  then obtain fs ts where f: "v = Struct fs" "viewFields h Ts fs = Some (ts, as)" "t = TRec ts"
    by (auto split: gval.splits option.splits)
  note dist = assms [unfolded covers_def, THEN conjunct1]
  have flat: "\<exists>bs. view h T (the (map_of fs n)) = Some (the (map_of ts n), bs) \<and> isFresh h bs"
    if "(n, T) \<in> set Ts" "n \<notin> fst ` set cs" for n T
  proof -
    have "flat T" using assms that by (auto simp: covers_def map_of_eq_None_iff [symmetric] split: option.splits)
    with viewFields_field [OF dist f(2) that(1)] show ?thesis by (auto dest: flat_no_addr(1))
  qed
  obtain out h' where out: "copyFields cs fs fs h = (out, h')" by (cases "copyFields cs fs fs h")
  have "fieldsDone h Ts ts (- fst ` set cs \<union> fst ` set cs) out h'"
  proof (rule copyFields_done [OF dist f(2) _ _ out])
    show "fieldsDone h Ts ts (- fst ` set cs) fs h"
      using flat viewFields_names [OF f(2)] by (simp add: fieldsDone_def)
    show "deep T c" if "(n, T) \<in> set Ts" "(n, c) \<in> set cs" for n T c
      using assms that by (fastforce simp: covers_def)
  qed
  then have "\<exists>as. viewFields h' Ts out = Some (ts, as) \<and> isFresh h as" and "\<exists>new. h' = h @ new"
    using viewFields_intro [OF dist, of out ts h' h] viewFields_names [OF f(2)] by (auto simp: fieldsDone_def)
  then show "copied h (\<lambda>v h. view h (TStruct Ts) v) t (copyStruct cs v h)"
    using f out by (auto simp: copied_def copyStruct_def)
qed

section \<open>Isolation\<close>

text \<open>
  Whatever is later written to the cells that were there before a deep copy, the copy still reads as
  it did; and whatever is written to the cells of the copy, the original does.
\<close>

lemma deep_isolated:
  assumes "deep T c" and "view h T v = Some (t, as)" and "c v h = (v', h')"
  shows "agree {length h..} h' g \<Longrightarrow> \<exists>bs. view g T v' = Some (t, bs)"
    and "agree {..<length h} h g \<Longrightarrow> view g T v = Some (t, as)"
proof -
  from deepD [OF assms(1, 2)] assms(3) obtain new bs where c: "h' = h @ new"
    "view h' T v' = Some (t, bs)" "isFresh h bs" by auto
  show "\<exists>bs. view g T v' = Some (t, bs)" if "agree {length h..} h' g"
    using view_frame(1) [OF c(2) agree_subset [OF that]] c(3) by (auto simp: isFresh_def list_all_iff)
  show "view g T v = Some (t, as)" if "agree {..<length h} h g"
    using view_frame(1) [OF assms(2) agree_subset [OF that]] viewed_allocated(1) [OF assms(2)] by auto
qed

end
