(* ===== verification/Deep_Copy.thy ===== *)
theory Deep_Copy
  imports Go_Heap
begin

text \<open>
  The structures of \<open>api/v1alpha1/opencoda_types.go\<close> as they lie in memory, and the copying methods of
  \<open>zz_generated.deepcopy.go\<close>.  The controllers and the gateway change objects in place and compare
  them with copies (\<open>client.MergeFrom(ep.DeepCopy())\<close>), which is right only if a copy shares no
  memory with its original; that it does not is proved here for every type, from the declaration of
  its fields and the statements of its \<open>DeepCopyInto\<close>.  It is also why the other theories can treat
  API objects as values.

  The types of \<open>k8s.io/apimachinery\<close> are a parameter: their layouts, their methods, and (\<open>extOK\<close>) that
  these methods copy deeply and that \<open>TypeMeta\<close>, two strings, holds no reference.
\<close>

named_theorems api_defs \<open>layouts and copying methods of the API types\<close>

record extlib =
  xl_type :: "string \<Rightarrow> gotype"
  xl_DeepCopyInto :: "string \<Rightarrow> copier"
  xl_DeepCopy :: "string \<Rightarrow> copier"

definition extOK :: "extlib \<Rightarrow> bool" where
  "extOK X \<longleftrightarrow> flat (xl_type X ''TypeMeta'') \<and>
     list_all (\<lambda>n. deep (xl_type X n) (xl_DeepCopyInto X n)) [''ObjectMeta'', ''ListMeta'', ''Condition'', ''Time''] \<and>
     deep (TPtr (xl_type X ''Time'')) (xl_DeepCopy X ''Time'')"

section \<open>Types\<close>

definition ty_SecretRef :: "extlib \<Rightarrow> gotype" where [api_defs]:
  "ty_SecretRef X = TStruct [
     (''SecretName'', TBase KString)]"

definition ty_ProviderSpec :: "extlib \<Rightarrow> gotype" where [api_defs]:
  "ty_ProviderSpec X = TStruct [
     (''Name'', TBase KString), (''CredentialsRef'', ty_SecretRef X), (''Params'', TMap (TBase KString))]"

definition ty_GPUProfile :: "extlib \<Rightarrow> gotype" where [api_defs]:
  "ty_GPUProfile X = TStruct [
     (''Type'', TBase KString), (''PerNode'', TBase KInt)]"

definition ty_PoolLimits :: "extlib \<Rightarrow> gotype" where [api_defs]:
  "ty_PoolLimits X = TStruct [
     (''MaxNodes'', TBase KInt), (''MaxHourlyUSD'', TBase KFloat)]"

definition ty_TaintSpec :: "extlib \<Rightarrow> gotype" where [api_defs]:
  "ty_TaintSpec X = TStruct [
     (''Key'', TBase KString), (''Effect'', TBase KString)]"

definition ty_GPUPoolSpec :: "extlib \<Rightarrow> gotype" where [api_defs]:
  "ty_GPUPoolSpec X = TStruct [
     (''Provider'', ty_ProviderSpec X), (''InstanceTypes'', TSlice (TBase KString)),
     (''GPU'', ty_GPUProfile X), (''Limits'', ty_PoolLimits X), (''Priority'', TBase KInt),
     (''Taints'', TSlice (ty_TaintSpec X))]"

definition ty_ObservedCapacity :: "extlib \<Rightarrow> gotype" where [api_defs]:
  "ty_ObservedCapacity X = TStruct [
     (''Available'', TBase KInt), (''LastICE'', xl_type X ''Time''),
     (''ObservedHourlyUSD'', TBase KFloat)]"

definition ty_PoolNodeCounts :: "extlib \<Rightarrow> gotype" where [api_defs]:
  "ty_PoolNodeCounts X = TStruct [
     (''Active'', TBase KInt), (''Buffered'', TBase KInt), (''Provisioning'', TBase KInt)]"

definition ty_NodeRecord :: "extlib \<Rightarrow> gotype" where [api_defs]:
  "ty_NodeRecord X = TStruct [
     (''ProviderID'', TBase KString), (''NodeName'', TBase KString), (''State'', TBase KString),
     (''LaunchedAt'', xl_type X ''Time''), (''PoolName'', TBase KString)]"

definition ty_GPUPoolStatus :: "extlib \<Rightarrow> gotype" where [api_defs]:
  "ty_GPUPoolStatus X = TStruct [
     (''ObservedCapacity'', ty_ObservedCapacity X), (''Nodes'', ty_PoolNodeCounts X),
     (''NodeRecords'', TSlice (ty_NodeRecord X)), (''Conditions'', TSlice (xl_type X ''Condition''))]"

definition ty_GPUPool :: "extlib \<Rightarrow> gotype" where [api_defs]:
  "ty_GPUPool X = TStruct [
     (''TypeMeta'', xl_type X ''TypeMeta''), (''ObjectMeta'', xl_type X ''ObjectMeta''),
     (''Spec'', ty_GPUPoolSpec X), (''Status'', ty_GPUPoolStatus X)]"

definition ty_GPUPoolList :: "extlib \<Rightarrow> gotype" where [api_defs]:
  "ty_GPUPoolList X = TStruct [
     (''TypeMeta'', xl_type X ''TypeMeta''), (''ListMeta'', xl_type X ''ListMeta''),
     (''Items'', TSlice (ty_GPUPool X))]"

definition ty_DynamicTarget :: "extlib \<Rightarrow> gotype" where [api_defs]:
  "ty_DynamicTarget X = TStruct [
     (''Window'', TBase KString), (''Formula'', TBase KString), (''K'', TBase KFloat)]"

definition ty_BufferTarget :: "extlib \<Rightarrow> gotype" where [api_defs]:
  "ty_BufferTarget X = TStruct [
     (''Mode'', TBase KString), (''MinWarmGPUs'', TBase KInt), (''MaxWarmGPUs'', TBase KInt),
     (''Dynamic'', TPtr (ty_DynamicTarget X))]"

definition ty_PoolRef :: "extlib \<Rightarrow> gotype" where [api_defs]:
  "ty_PoolRef X = TStruct [
     (''Name'', TBase KString)]"

definition ty_ScaleDownSpec :: "extlib \<Rightarrow> gotype" where [api_defs]:
  "ty_ScaleDownSpec X = TStruct [
     (''StabilizationWindow'', TBase KString), (''DrainTimeout'', TBase KString)]"

definition ty_BufferPolicySpec :: "extlib \<Rightarrow> gotype" where [api_defs]:
  "ty_BufferPolicySpec X = TStruct [
     (''Target'', ty_BufferTarget X), (''Pools'', TSlice (ty_PoolRef X)),
     (''ScaleDown'', ty_ScaleDownSpec X)]"

definition ty_BufferPolicyStatus :: "extlib \<Rightarrow> gotype" where [api_defs]:
  "ty_BufferPolicyStatus X = TStruct [
     (''CurrentWarmGPUs'', TBase KInt), (''DemandEWMA'', TBase KFloat),
     (''Conditions'', TSlice (xl_type X ''Condition''))]"

definition ty_BufferPolicy :: "extlib \<Rightarrow> gotype" where [api_defs]:
  "ty_BufferPolicy X = TStruct [
     (''TypeMeta'', xl_type X ''TypeMeta''), (''ObjectMeta'', xl_type X ''ObjectMeta''),
     (''Spec'', ty_BufferPolicySpec X), (''Status'', ty_BufferPolicyStatus X)]"

definition ty_BufferPolicyList :: "extlib \<Rightarrow> gotype" where [api_defs]:
  "ty_BufferPolicyList X = TStruct [
     (''TypeMeta'', xl_type X ''TypeMeta''), (''ListMeta'', xl_type X ''ListMeta''),
     (''Items'', TSlice (ty_BufferPolicy X))]"

definition ty_ModelSpec :: "extlib \<Rightarrow> gotype" where [api_defs]:
  "ty_ModelSpec X = TStruct [
     (''Source'', TBase KString), (''Quantization'', TBase KString)]"

definition ty_EngineSpec :: "extlib \<Rightarrow> gotype" where [api_defs]:
  "ty_EngineSpec X = TStruct [
     (''Type'', TBase KString), (''Version'', TBase KString), (''Args'', TSlice (TBase KString))]"

definition ty_ResourceSpec :: "extlib \<Rightarrow> gotype" where [api_defs]:
  "ty_ResourceSpec X = TStruct [
     (''GPU'', TBase KInt), (''GPUType'', TBase KString)]"

definition ty_RuntimeSpec :: "extlib \<Rightarrow> gotype" where [api_defs]:
  "ty_RuntimeSpec X = TStruct [
     (''Class'', TBase KString)]"

definition ty_ScalingTarget :: "extlib \<Rightarrow> gotype" where [api_defs]:
  "ty_ScalingTarget X = TStruct [
     (''Metric'', TBase KString), (''Value'', TBase KInt)]"

definition ty_ScalingSpec :: "extlib \<Rightarrow> gotype" where [api_defs]:
  "ty_ScalingSpec X = TStruct [
     (''MinReplicas'', TBase KInt), (''MaxReplicas'', TBase KInt), (''Target'', ty_ScalingTarget X),
     (''ScaleToZeroAfter'', TBase KString)]"

definition ty_SnapshotRef :: "extlib \<Rightarrow> gotype" where [api_defs]:
  "ty_SnapshotRef X = TStruct [
     (''ClassRef'', TBase KString)]"

definition ty_RemoteRef :: "extlib \<Rightarrow> gotype" where [api_defs]:
  "ty_RemoteRef X = TStruct [
     (''Bucket'', TBase KString), (''Prefix'', TBase KString), (''Endpoint'', TBase KString)]"

definition ty_LMCacheSpec :: "extlib \<Rightarrow> gotype" where [api_defs]:
  "ty_LMCacheSpec X = TStruct [
     (''Enabled'', TBase KBool), (''Shared'', TBase KBool), (''Tiers'', TSlice (TBase KString)),
     (''RemoteRef'', ty_RemoteRef X)]"

definition ty_KVSpec :: "extlib \<Rightarrow> gotype" where [api_defs]:
  "ty_KVSpec X = TStruct [
     (''LMCache'', TPtr (ty_LMCacheSpec X))]"

definition ty_CodaEndpointSpec :: "extlib \<Rightarrow> gotype" where [api_defs]:
  "ty_CodaEndpointSpec X = TStruct [
     (''Model'', ty_ModelSpec X), (''Engine'', ty_EngineSpec X), (''Resources'', ty_ResourceSpec X),
     (''Runtime'', ty_RuntimeSpec X), (''Scaling'', ty_ScalingSpec X),
     (''Snapshot'', TPtr (ty_SnapshotRef X)), (''KV'', ty_KVSpec X)]"

definition ty_ReplicaStatus :: "extlib \<Rightarrow> gotype" where [api_defs]:
  "ty_ReplicaStatus X = TStruct [
     (''Ready'', TBase KInt), (''Starting'', TBase KInt)]"

definition ty_ColdStartMetrics :: "extlib \<Rightarrow> gotype" where [api_defs]:
  "ty_ColdStartMetrics X = TStruct [
     (''P50Ms'', TBase KInt), (''P95Ms'', TBase KInt)]"

definition ty_CodaEndpointStatus :: "extlib \<Rightarrow> gotype" where [api_defs]:
  "ty_CodaEndpointStatus X = TStruct [
     (''Replicas'', ty_ReplicaStatus X), (''ColdStart'', ty_ColdStartMetrics X),
     (''KVHitRate'', TBase KFloat), (''Conditions'', TSlice (xl_type X ''Condition''))]"

definition ty_CodaEndpoint :: "extlib \<Rightarrow> gotype" where [api_defs]:
  "ty_CodaEndpoint X = TStruct [
     (''TypeMeta'', xl_type X ''TypeMeta''), (''ObjectMeta'', xl_type X ''ObjectMeta''),
     (''Spec'', ty_CodaEndpointSpec X), (''Status'', ty_CodaEndpointStatus X)]"

definition ty_CodaEndpointList :: "extlib \<Rightarrow> gotype" where [api_defs]:
  "ty_CodaEndpointList X = TStruct [
     (''TypeMeta'', xl_type X ''TypeMeta''), (''ListMeta'', xl_type X ''ListMeta''),
     (''Items'', TSlice (ty_CodaEndpoint X))]"

definition ty_SnapshotPreSpec :: "extlib \<Rightarrow> gotype" where [api_defs]:
  "ty_SnapshotPreSpec X = TStruct [
     (''OffloadWeightsToHost'', TBase KBool), (''DropKVCache'', TBase KBool)]"

definition ty_StorageRef :: "extlib \<Rightarrow> gotype" where [api_defs]:
  "ty_StorageRef X = TStruct [
     (''Ref'', TBase KString), (''Compression'', TBase KString)]"

definition ty_RetentionSpec :: "extlib \<Rightarrow> gotype" where [api_defs]:
  "ty_RetentionSpec X = TStruct [
     (''MaxPerKey'', TBase KInt), (''TTL'', TBase KString)]"

definition ty_SnapshotClassSpec :: "extlib \<Rightarrow> gotype" where [api_defs]:
  "ty_SnapshotClassSpec X = TStruct [
     (''Scope'', TBase KString), (''CheckpointAfter'', TBase KString), (''Pre'', ty_SnapshotPreSpec X),
     (''Storage'', ty_StorageRef X), (''Retention'', ty_RetentionSpec X)]"

definition ty_SnapshotClass :: "extlib \<Rightarrow> gotype" where [api_defs]:
  "ty_SnapshotClass X = TStruct [
     (''TypeMeta'', xl_type X ''TypeMeta''), (''ObjectMeta'', xl_type X ''ObjectMeta''),
     (''Spec'', ty_SnapshotClassSpec X)]"

definition ty_SnapshotClassList :: "extlib \<Rightarrow> gotype" where [api_defs]:
  "ty_SnapshotClassList X = TStruct [
     (''TypeMeta'', xl_type X ''TypeMeta''), (''ListMeta'', xl_type X ''ListMeta''),
     (''Items'', TSlice (ty_SnapshotClass X))]"

definition ty_CodaTokenSpec :: "extlib \<Rightarrow> gotype" where [api_defs]:
  "ty_CodaTokenSpec X = TStruct [
     (''TokenID'', TBase KString), (''SecretHash'', TBase KString),
     (''ExpiresAt'', TPtr (xl_type X ''Time''))]"

definition ty_CodaTokenStatus :: "extlib \<Rightarrow> gotype" where [api_defs]:
  "ty_CodaTokenStatus X = TStruct [
     (''Conditions'', TSlice (xl_type X ''Condition''))]"

definition ty_CodaToken :: "extlib \<Rightarrow> gotype" where [api_defs]:
  "ty_CodaToken X = TStruct [
     (''TypeMeta'', xl_type X ''TypeMeta''), (''ObjectMeta'', xl_type X ''ObjectMeta''),
     (''Spec'', ty_CodaTokenSpec X), (''Status'', ty_CodaTokenStatus X)]"

definition ty_CodaTokenList :: "extlib \<Rightarrow> gotype" where [api_defs]:
  "ty_CodaTokenList X = TStruct [
     (''TypeMeta'', xl_type X ''TypeMeta''), (''ListMeta'', xl_type X ''ListMeta''),
     (''Items'', TSlice (ty_CodaToken X))]"

definition ty_CodaFunctionSpec :: "extlib \<Rightarrow> gotype" where [api_defs]:
  "ty_CodaFunctionSpec X = TStruct [
     (''Image'', TBase KString), (''Resources'', ty_ResourceSpec X), (''Timeout'', TBase KString),
     (''Env'', TMap (TBase KString))]"

definition ty_CodaFunctionStatus :: "extlib \<Rightarrow> gotype" where [api_defs]:
  "ty_CodaFunctionStatus X = TStruct [
     (''Phase'', TBase KString), (''StartTime'', TPtr (xl_type X ''Time'')),
     (''FinishTime'', TPtr (xl_type X ''Time'')), (''Conditions'', TSlice (xl_type X ''Condition''))]"

definition ty_CodaFunction :: "extlib \<Rightarrow> gotype" where [api_defs]:
  "ty_CodaFunction X = TStruct [
     (''TypeMeta'', xl_type X ''TypeMeta''), (''ObjectMeta'', xl_type X ''ObjectMeta''),
     (''Spec'', ty_CodaFunctionSpec X), (''Status'', ty_CodaFunctionStatus X)]"

definition ty_CodaFunctionList :: "extlib \<Rightarrow> gotype" where [api_defs]:
  "ty_CodaFunctionList X = TStruct [
     (''TypeMeta'', xl_type X ''TypeMeta''), (''ListMeta'', xl_type X ''ListMeta''),
     (''Items'', TSlice (ty_CodaFunction X))]"

section \<open>DeepCopyInto\<close>

definition SecretRef_DeepCopyInto :: "extlib \<Rightarrow> copier" where [api_defs]:
  "SecretRef_DeepCopyInto X = copyStruct []"

definition ProviderSpec_DeepCopyInto :: "extlib \<Rightarrow> copier" where [api_defs]:
  "ProviderSpec_DeepCopyInto X = copyStruct [
     (''CredentialsRef'', assign), (''Params'', copyMap assign)]"

definition GPUProfile_DeepCopyInto :: "extlib \<Rightarrow> copier" where [api_defs]:
  "GPUProfile_DeepCopyInto X = copyStruct []"

definition PoolLimits_DeepCopyInto :: "extlib \<Rightarrow> copier" where [api_defs]:
  "PoolLimits_DeepCopyInto X = copyStruct []"

definition TaintSpec_DeepCopyInto :: "extlib \<Rightarrow> copier" where [api_defs]:
  "TaintSpec_DeepCopyInto X = copyStruct []"

definition GPUPoolSpec_DeepCopyInto :: "extlib \<Rightarrow> copier" where [api_defs]:
  "GPUPoolSpec_DeepCopyInto X = copyStruct [
     (''Provider'', ProviderSpec_DeepCopyInto X), (''InstanceTypes'', copySlice assign),
     (''GPU'', assign), (''Limits'', assign), (''Taints'', copySlice assign)]"

definition ObservedCapacity_DeepCopyInto :: "extlib \<Rightarrow> copier" where [api_defs]:
  "ObservedCapacity_DeepCopyInto X = copyStruct [
     (''LastICE'', xl_DeepCopyInto X ''Time'')]"

definition PoolNodeCounts_DeepCopyInto :: "extlib \<Rightarrow> copier" where [api_defs]:
  "PoolNodeCounts_DeepCopyInto X = copyStruct []"

definition NodeRecord_DeepCopyInto :: "extlib \<Rightarrow> copier" where [api_defs]:
  "NodeRecord_DeepCopyInto X = copyStruct [
     (''LaunchedAt'', xl_DeepCopyInto X ''Time'')]"

definition GPUPoolStatus_DeepCopyInto :: "extlib \<Rightarrow> copier" where [api_defs]:
  "GPUPoolStatus_DeepCopyInto X = copyStruct [
     (''ObservedCapacity'', ObservedCapacity_DeepCopyInto X), (''Nodes'', assign),
     (''NodeRecords'', copySlice (NodeRecord_DeepCopyInto X)),
     (''Conditions'', copySlice (xl_DeepCopyInto X ''Condition''))]"

definition GPUPool_DeepCopyInto :: "extlib \<Rightarrow> copier" where [api_defs]:
  "GPUPool_DeepCopyInto X = copyStruct [
     (''TypeMeta'', assign), (''ObjectMeta'', xl_DeepCopyInto X ''ObjectMeta''),
     (''Spec'', GPUPoolSpec_DeepCopyInto X), (''Status'', GPUPoolStatus_DeepCopyInto X)]"

definition GPUPoolList_DeepCopyInto :: "extlib \<Rightarrow> copier" where [api_defs]:
  "GPUPoolList_DeepCopyInto X = copyStruct [
     (''TypeMeta'', assign), (''ListMeta'', xl_DeepCopyInto X ''ListMeta''),
     (''Items'', copySlice (GPUPool_DeepCopyInto X))]"

definition DynamicTarget_DeepCopyInto :: "extlib \<Rightarrow> copier" where [api_defs]:
  "DynamicTarget_DeepCopyInto X = copyStruct []"

definition BufferTarget_DeepCopyInto :: "extlib \<Rightarrow> copier" where [api_defs]:
  "BufferTarget_DeepCopyInto X = copyStruct [
     (''Dynamic'', copyPtr assign)]"

definition PoolRef_DeepCopyInto :: "extlib \<Rightarrow> copier" where [api_defs]:
  "PoolRef_DeepCopyInto X = copyStruct []"

definition ScaleDownSpec_DeepCopyInto :: "extlib \<Rightarrow> copier" where [api_defs]:
  "ScaleDownSpec_DeepCopyInto X = copyStruct []"

definition BufferPolicySpec_DeepCopyInto :: "extlib \<Rightarrow> copier" where [api_defs]:
  "BufferPolicySpec_DeepCopyInto X = copyStruct [
     (''Target'', BufferTarget_DeepCopyInto X), (''Pools'', copySlice assign), (''ScaleDown'', assign)]"

definition BufferPolicyStatus_DeepCopyInto :: "extlib \<Rightarrow> copier" where [api_defs]:
  "BufferPolicyStatus_DeepCopyInto X = copyStruct [
     (''Conditions'', copySlice (xl_DeepCopyInto X ''Condition''))]"

definition BufferPolicy_DeepCopyInto :: "extlib \<Rightarrow> copier" where [api_defs]:
  "BufferPolicy_DeepCopyInto X = copyStruct [
     (''TypeMeta'', assign), (''ObjectMeta'', xl_DeepCopyInto X ''ObjectMeta''),
     (''Spec'', BufferPolicySpec_DeepCopyInto X), (''Status'', BufferPolicyStatus_DeepCopyInto X)]"

definition BufferPolicyList_DeepCopyInto :: "extlib \<Rightarrow> copier" where [api_defs]:
  "BufferPolicyList_DeepCopyInto X = copyStruct [
     (''TypeMeta'', assign), (''ListMeta'', xl_DeepCopyInto X ''ListMeta''),
     (''Items'', copySlice (BufferPolicy_DeepCopyInto X))]"

definition ModelSpec_DeepCopyInto :: "extlib \<Rightarrow> copier" where [api_defs]:
  "ModelSpec_DeepCopyInto X = copyStruct []"

definition EngineSpec_DeepCopyInto :: "extlib \<Rightarrow> copier" where [api_defs]:
  "EngineSpec_DeepCopyInto X = copyStruct [
     (''Args'', copySlice assign)]"

definition ResourceSpec_DeepCopyInto :: "extlib \<Rightarrow> copier" where [api_defs]:
  "ResourceSpec_DeepCopyInto X = copyStruct []"

definition RuntimeSpec_DeepCopyInto :: "extlib \<Rightarrow> copier" where [api_defs]:
  "RuntimeSpec_DeepCopyInto X = copyStruct []"

definition ScalingTarget_DeepCopyInto :: "extlib \<Rightarrow> copier" where [api_defs]:
  "ScalingTarget_DeepCopyInto X = copyStruct []"

definition ScalingSpec_DeepCopyInto :: "extlib \<Rightarrow> copier" where [api_defs]:
  "ScalingSpec_DeepCopyInto X = copyStruct [
     (''Target'', assign)]"

definition SnapshotRef_DeepCopyInto :: "extlib \<Rightarrow> copier" where [api_defs]:
  "SnapshotRef_DeepCopyInto X = copyStruct []"

definition RemoteRef_DeepCopyInto :: "extlib \<Rightarrow> copier" where [api_defs]:
  "RemoteRef_DeepCopyInto X = copyStruct []"

definition LMCacheSpec_DeepCopyInto :: "extlib \<Rightarrow> copier" where [api_defs]:
  "LMCacheSpec_DeepCopyInto X = copyStruct [
     (''Tiers'', copySlice assign), (''RemoteRef'', assign)]"

definition KVSpec_DeepCopyInto :: "extlib \<Rightarrow> copier" where [api_defs]:
  "KVSpec_DeepCopyInto X = copyStruct [
     (''LMCache'', copyPtr (LMCacheSpec_DeepCopyInto X))]"

definition CodaEndpointSpec_DeepCopyInto :: "extlib \<Rightarrow> copier" where [api_defs]:
  "CodaEndpointSpec_DeepCopyInto X = copyStruct [
     (''Model'', assign), (''Engine'', EngineSpec_DeepCopyInto X), (''Resources'', assign),
     (''Runtime'', assign), (''Scaling'', assign), (''Snapshot'', copyPtr assign),
     (''KV'', KVSpec_DeepCopyInto X)]"

definition ReplicaStatus_DeepCopyInto :: "extlib \<Rightarrow> copier" where [api_defs]:
  "ReplicaStatus_DeepCopyInto X = copyStruct []"

definition ColdStartMetrics_DeepCopyInto :: "extlib \<Rightarrow> copier" where [api_defs]:
  "ColdStartMetrics_DeepCopyInto X = copyStruct []"

definition CodaEndpointStatus_DeepCopyInto :: "extlib \<Rightarrow> copier" where [api_defs]:
  "CodaEndpointStatus_DeepCopyInto X = copyStruct [
     (''Replicas'', assign), (''ColdStart'', assign),
     (''Conditions'', copySlice (xl_DeepCopyInto X ''Condition''))]"

definition CodaEndpoint_DeepCopyInto :: "extlib \<Rightarrow> copier" where [api_defs]:
  "CodaEndpoint_DeepCopyInto X = copyStruct [
     (''TypeMeta'', assign), (''ObjectMeta'', xl_DeepCopyInto X ''ObjectMeta''),
     (''Spec'', CodaEndpointSpec_DeepCopyInto X), (''Status'', CodaEndpointStatus_DeepCopyInto X)]"

definition CodaEndpointList_DeepCopyInto :: "extlib \<Rightarrow> copier" where [api_defs]:
  "CodaEndpointList_DeepCopyInto X = copyStruct [
     (''TypeMeta'', assign), (''ListMeta'', xl_DeepCopyInto X ''ListMeta''),
     (''Items'', copySlice (CodaEndpoint_DeepCopyInto X))]"

definition SnapshotPreSpec_DeepCopyInto :: "extlib \<Rightarrow> copier" where [api_defs]:
  "SnapshotPreSpec_DeepCopyInto X = copyStruct []"

definition StorageRef_DeepCopyInto :: "extlib \<Rightarrow> copier" where [api_defs]:
  "StorageRef_DeepCopyInto X = copyStruct []"

definition RetentionSpec_DeepCopyInto :: "extlib \<Rightarrow> copier" where [api_defs]:
  "RetentionSpec_DeepCopyInto X = copyStruct []"

definition SnapshotClassSpec_DeepCopyInto :: "extlib \<Rightarrow> copier" where [api_defs]:
  "SnapshotClassSpec_DeepCopyInto X = copyStruct [
     (''Pre'', assign), (''Storage'', assign), (''Retention'', assign)]"

definition SnapshotClass_DeepCopyInto :: "extlib \<Rightarrow> copier" where [api_defs]:
  "SnapshotClass_DeepCopyInto X = copyStruct [
     (''TypeMeta'', assign), (''ObjectMeta'', xl_DeepCopyInto X ''ObjectMeta''), (''Spec'', assign)]"

definition SnapshotClassList_DeepCopyInto :: "extlib \<Rightarrow> copier" where [api_defs]:
  "SnapshotClassList_DeepCopyInto X = copyStruct [
     (''TypeMeta'', assign), (''ListMeta'', xl_DeepCopyInto X ''ListMeta''),
     (''Items'', copySlice (SnapshotClass_DeepCopyInto X))]"

definition CodaTokenSpec_DeepCopyInto :: "extlib \<Rightarrow> copier" where [api_defs]:
  "CodaTokenSpec_DeepCopyInto X = copyStruct [
     (''ExpiresAt'', unlessNil (xl_DeepCopy X ''Time''))]"

definition CodaTokenStatus_DeepCopyInto :: "extlib \<Rightarrow> copier" where [api_defs]:
  "CodaTokenStatus_DeepCopyInto X = copyStruct [
     (''Conditions'', copySlice (xl_DeepCopyInto X ''Condition''))]"

definition CodaToken_DeepCopyInto :: "extlib \<Rightarrow> copier" where [api_defs]:
  "CodaToken_DeepCopyInto X = copyStruct [
     (''TypeMeta'', assign), (''ObjectMeta'', xl_DeepCopyInto X ''ObjectMeta''),
     (''Spec'', CodaTokenSpec_DeepCopyInto X), (''Status'', CodaTokenStatus_DeepCopyInto X)]"

definition CodaTokenList_DeepCopyInto :: "extlib \<Rightarrow> copier" where [api_defs]:
  "CodaTokenList_DeepCopyInto X = copyStruct [
     (''TypeMeta'', assign), (''ListMeta'', xl_DeepCopyInto X ''ListMeta''),
     (''Items'', copySlice (CodaToken_DeepCopyInto X))]"

definition CodaFunctionSpec_DeepCopyInto :: "extlib \<Rightarrow> copier" where [api_defs]:
  "CodaFunctionSpec_DeepCopyInto X = copyStruct [
     (''Resources'', assign), (''Env'', copyMap assign)]"

definition CodaFunctionStatus_DeepCopyInto :: "extlib \<Rightarrow> copier" where [api_defs]:
  "CodaFunctionStatus_DeepCopyInto X = copyStruct [
     (''StartTime'', unlessNil (xl_DeepCopy X ''Time'')), (''FinishTime'', unlessNil (xl_DeepCopy X ''Time'')),
     (''Conditions'', copySlice (xl_DeepCopyInto X ''Condition''))]"

definition CodaFunction_DeepCopyInto :: "extlib \<Rightarrow> copier" where [api_defs]:
  "CodaFunction_DeepCopyInto X = copyStruct [
     (''TypeMeta'', assign), (''ObjectMeta'', xl_DeepCopyInto X ''ObjectMeta''),
     (''Spec'', CodaFunctionSpec_DeepCopyInto X), (''Status'', CodaFunctionStatus_DeepCopyInto X)]"

definition CodaFunctionList_DeepCopyInto :: "extlib \<Rightarrow> copier" where [api_defs]:
  "CodaFunctionList_DeepCopyInto X = copyStruct [
     (''TypeMeta'', assign), (''ListMeta'', xl_DeepCopyInto X ''ListMeta''),
     (''Items'', copySlice (CodaFunction_DeepCopyInto X))]"

section \<open>DeepCopy and DeepCopyObject\<close>

text \<open>\<open>DeepCopyObject\<close> returns the copy as an interface value, and a nil interface for a nil copy.\<close>

definition asObject :: "copier \<Rightarrow> copier" where
  "asObject c v h = (let (w, h) = c v h in (if w \<noteq> NilRef then w else NilRef, h))"

definition SecretRef_DeepCopy :: "extlib \<Rightarrow> copier" where [api_defs]:
  "SecretRef_DeepCopy X = copyPtr (SecretRef_DeepCopyInto X)"

definition ProviderSpec_DeepCopy :: "extlib \<Rightarrow> copier" where [api_defs]:
  "ProviderSpec_DeepCopy X = copyPtr (ProviderSpec_DeepCopyInto X)"

definition GPUProfile_DeepCopy :: "extlib \<Rightarrow> copier" where [api_defs]:
  "GPUProfile_DeepCopy X = copyPtr (GPUProfile_DeepCopyInto X)"

definition PoolLimits_DeepCopy :: "extlib \<Rightarrow> copier" where [api_defs]:
  "PoolLimits_DeepCopy X = copyPtr (PoolLimits_DeepCopyInto X)"

definition TaintSpec_DeepCopy :: "extlib \<Rightarrow> copier" where [api_defs]:
  "TaintSpec_DeepCopy X = copyPtr (TaintSpec_DeepCopyInto X)"

definition GPUPoolSpec_DeepCopy :: "extlib \<Rightarrow> copier" where [api_defs]:
  "GPUPoolSpec_DeepCopy X = copyPtr (GPUPoolSpec_DeepCopyInto X)"

definition ObservedCapacity_DeepCopy :: "extlib \<Rightarrow> copier" where [api_defs]:
  "ObservedCapacity_DeepCopy X = copyPtr (ObservedCapacity_DeepCopyInto X)"

definition PoolNodeCounts_DeepCopy :: "extlib \<Rightarrow> copier" where [api_defs]:
  "PoolNodeCounts_DeepCopy X = copyPtr (PoolNodeCounts_DeepCopyInto X)"

definition NodeRecord_DeepCopy :: "extlib \<Rightarrow> copier" where [api_defs]:
  "NodeRecord_DeepCopy X = copyPtr (NodeRecord_DeepCopyInto X)"

definition GPUPoolStatus_DeepCopy :: "extlib \<Rightarrow> copier" where [api_defs]:
  "GPUPoolStatus_DeepCopy X = copyPtr (GPUPoolStatus_DeepCopyInto X)"

definition GPUPool_DeepCopy :: "extlib \<Rightarrow> copier" where [api_defs]:
  "GPUPool_DeepCopy X = copyPtr (GPUPool_DeepCopyInto X)"

definition GPUPool_DeepCopyObject :: "extlib \<Rightarrow> copier" where [api_defs]:
  "GPUPool_DeepCopyObject X = asObject (GPUPool_DeepCopy X)"

definition GPUPoolList_DeepCopy :: "extlib \<Rightarrow> copier" where [api_defs]:
  "GPUPoolList_DeepCopy X = copyPtr (GPUPoolList_DeepCopyInto X)"

definition GPUPoolList_DeepCopyObject :: "extlib \<Rightarrow> copier" where [api_defs]:
  "GPUPoolList_DeepCopyObject X = asObject (GPUPoolList_DeepCopy X)"

definition DynamicTarget_DeepCopy :: "extlib \<Rightarrow> copier" where [api_defs]:
  "DynamicTarget_DeepCopy X = copyPtr (DynamicTarget_DeepCopyInto X)"

definition BufferTarget_DeepCopy :: "extlib \<Rightarrow> copier" where [api_defs]:
  "BufferTarget_DeepCopy X = copyPtr (BufferTarget_DeepCopyInto X)"

definition PoolRef_DeepCopy :: "extlib \<Rightarrow> copier" where [api_defs]:
  "PoolRef_DeepCopy X = copyPtr (PoolRef_DeepCopyInto X)"

definition ScaleDownSpec_DeepCopy :: "extlib \<Rightarrow> copier" where [api_defs]:
  "ScaleDownSpec_DeepCopy X = copyPtr (ScaleDownSpec_DeepCopyInto X)"

definition BufferPolicySpec_DeepCopy :: "extlib \<Rightarrow> copier" where [api_defs]:
  "BufferPolicySpec_DeepCopy X = copyPtr (BufferPolicySpec_DeepCopyInto X)"

definition BufferPolicyStatus_DeepCopy :: "extlib \<Rightarrow> copier" where [api_defs]:
  "BufferPolicyStatus_DeepCopy X = copyPtr (BufferPolicyStatus_DeepCopyInto X)"

definition BufferPolicy_DeepCopy :: "extlib \<Rightarrow> copier" where [api_defs]:
  "BufferPolicy_DeepCopy X = copyPtr (BufferPolicy_DeepCopyInto X)"

definition BufferPolicy_DeepCopyObject :: "extlib \<Rightarrow> copier" where [api_defs]:
  "BufferPolicy_DeepCopyObject X = asObject (BufferPolicy_DeepCopy X)"

definition BufferPolicyList_DeepCopy :: "extlib \<Rightarrow> copier" where [api_defs]:
  "BufferPolicyList_DeepCopy X = copyPtr (BufferPolicyList_DeepCopyInto X)"

definition BufferPolicyList_DeepCopyObject :: "extlib \<Rightarrow> copier" where [api_defs]:
  "BufferPolicyList_DeepCopyObject X = asObject (BufferPolicyList_DeepCopy X)"

definition ModelSpec_DeepCopy :: "extlib \<Rightarrow> copier" where [api_defs]:
  "ModelSpec_DeepCopy X = copyPtr (ModelSpec_DeepCopyInto X)"

definition EngineSpec_DeepCopy :: "extlib \<Rightarrow> copier" where [api_defs]:
  "EngineSpec_DeepCopy X = copyPtr (EngineSpec_DeepCopyInto X)"

definition ResourceSpec_DeepCopy :: "extlib \<Rightarrow> copier" where [api_defs]:
  "ResourceSpec_DeepCopy X = copyPtr (ResourceSpec_DeepCopyInto X)"

definition RuntimeSpec_DeepCopy :: "extlib \<Rightarrow> copier" where [api_defs]:
  "RuntimeSpec_DeepCopy X = copyPtr (RuntimeSpec_DeepCopyInto X)"

definition ScalingTarget_DeepCopy :: "extlib \<Rightarrow> copier" where [api_defs]:
  "ScalingTarget_DeepCopy X = copyPtr (ScalingTarget_DeepCopyInto X)"

definition ScalingSpec_DeepCopy :: "extlib \<Rightarrow> copier" where [api_defs]:
  "ScalingSpec_DeepCopy X = copyPtr (ScalingSpec_DeepCopyInto X)"

definition SnapshotRef_DeepCopy :: "extlib \<Rightarrow> copier" where [api_defs]:
  "SnapshotRef_DeepCopy X = copyPtr (SnapshotRef_DeepCopyInto X)"

definition RemoteRef_DeepCopy :: "extlib \<Rightarrow> copier" where [api_defs]:
  "RemoteRef_DeepCopy X = copyPtr (RemoteRef_DeepCopyInto X)"

definition LMCacheSpec_DeepCopy :: "extlib \<Rightarrow> copier" where [api_defs]:
  "LMCacheSpec_DeepCopy X = copyPtr (LMCacheSpec_DeepCopyInto X)"

definition KVSpec_DeepCopy :: "extlib \<Rightarrow> copier" where [api_defs]:
  "KVSpec_DeepCopy X = copyPtr (KVSpec_DeepCopyInto X)"

definition CodaEndpointSpec_DeepCopy :: "extlib \<Rightarrow> copier" where [api_defs]:
  "CodaEndpointSpec_DeepCopy X = copyPtr (CodaEndpointSpec_DeepCopyInto X)"

definition ReplicaStatus_DeepCopy :: "extlib \<Rightarrow> copier" where [api_defs]:
  "ReplicaStatus_DeepCopy X = copyPtr (ReplicaStatus_DeepCopyInto X)"

definition ColdStartMetrics_DeepCopy :: "extlib \<Rightarrow> copier" where [api_defs]:
  "ColdStartMetrics_DeepCopy X = copyPtr (ColdStartMetrics_DeepCopyInto X)"

definition CodaEndpointStatus_DeepCopy :: "extlib \<Rightarrow> copier" where [api_defs]:
  "CodaEndpointStatus_DeepCopy X = copyPtr (CodaEndpointStatus_DeepCopyInto X)"

definition CodaEndpoint_DeepCopy :: "extlib \<Rightarrow> copier" where [api_defs]:
  "CodaEndpoint_DeepCopy X = copyPtr (CodaEndpoint_DeepCopyInto X)"

definition CodaEndpoint_DeepCopyObject :: "extlib \<Rightarrow> copier" where [api_defs]:
  "CodaEndpoint_DeepCopyObject X = asObject (CodaEndpoint_DeepCopy X)"

definition CodaEndpointList_DeepCopy :: "extlib \<Rightarrow> copier" where [api_defs]:
  "CodaEndpointList_DeepCopy X = copyPtr (CodaEndpointList_DeepCopyInto X)"

definition CodaEndpointList_DeepCopyObject :: "extlib \<Rightarrow> copier" where [api_defs]:
  "CodaEndpointList_DeepCopyObject X = asObject (CodaEndpointList_DeepCopy X)"

definition SnapshotPreSpec_DeepCopy :: "extlib \<Rightarrow> copier" where [api_defs]:
  "SnapshotPreSpec_DeepCopy X = copyPtr (SnapshotPreSpec_DeepCopyInto X)"

definition StorageRef_DeepCopy :: "extlib \<Rightarrow> copier" where [api_defs]:
  "StorageRef_DeepCopy X = copyPtr (StorageRef_DeepCopyInto X)"

definition RetentionSpec_DeepCopy :: "extlib \<Rightarrow> copier" where [api_defs]:
  "RetentionSpec_DeepCopy X = copyPtr (RetentionSpec_DeepCopyInto X)"

definition SnapshotClassSpec_DeepCopy :: "extlib \<Rightarrow> copier" where [api_defs]:
  "SnapshotClassSpec_DeepCopy X = copyPtr (SnapshotClassSpec_DeepCopyInto X)"

definition SnapshotClass_DeepCopy :: "extlib \<Rightarrow> copier" where [api_defs]:
  "SnapshotClass_DeepCopy X = copyPtr (SnapshotClass_DeepCopyInto X)"

definition SnapshotClass_DeepCopyObject :: "extlib \<Rightarrow> copier" where [api_defs]:
  "SnapshotClass_DeepCopyObject X = asObject (SnapshotClass_DeepCopy X)"

definition SnapshotClassList_DeepCopy :: "extlib \<Rightarrow> copier" where [api_defs]:
  "SnapshotClassList_DeepCopy X = copyPtr (SnapshotClassList_DeepCopyInto X)"

definition SnapshotClassList_DeepCopyObject :: "extlib \<Rightarrow> copier" where [api_defs]:
  "SnapshotClassList_DeepCopyObject X = asObject (SnapshotClassList_DeepCopy X)"

definition CodaTokenSpec_DeepCopy :: "extlib \<Rightarrow> copier" where [api_defs]:
  "CodaTokenSpec_DeepCopy X = copyPtr (CodaTokenSpec_DeepCopyInto X)"

definition CodaTokenStatus_DeepCopy :: "extlib \<Rightarrow> copier" where [api_defs]:
  "CodaTokenStatus_DeepCopy X = copyPtr (CodaTokenStatus_DeepCopyInto X)"

definition CodaToken_DeepCopy :: "extlib \<Rightarrow> copier" where [api_defs]:
  "CodaToken_DeepCopy X = copyPtr (CodaToken_DeepCopyInto X)"

definition CodaToken_DeepCopyObject :: "extlib \<Rightarrow> copier" where [api_defs]:
  "CodaToken_DeepCopyObject X = asObject (CodaToken_DeepCopy X)"

definition CodaTokenList_DeepCopy :: "extlib \<Rightarrow> copier" where [api_defs]:
  "CodaTokenList_DeepCopy X = copyPtr (CodaTokenList_DeepCopyInto X)"

definition CodaTokenList_DeepCopyObject :: "extlib \<Rightarrow> copier" where [api_defs]:
  "CodaTokenList_DeepCopyObject X = asObject (CodaTokenList_DeepCopy X)"

definition CodaFunctionSpec_DeepCopy :: "extlib \<Rightarrow> copier" where [api_defs]:
  "CodaFunctionSpec_DeepCopy X = copyPtr (CodaFunctionSpec_DeepCopyInto X)"

definition CodaFunctionStatus_DeepCopy :: "extlib \<Rightarrow> copier" where [api_defs]:
  "CodaFunctionStatus_DeepCopy X = copyPtr (CodaFunctionStatus_DeepCopyInto X)"

definition CodaFunction_DeepCopy :: "extlib \<Rightarrow> copier" where [api_defs]:
  "CodaFunction_DeepCopy X = copyPtr (CodaFunction_DeepCopyInto X)"

definition CodaFunction_DeepCopyObject :: "extlib \<Rightarrow> copier" where [api_defs]:
  "CodaFunction_DeepCopyObject X = asObject (CodaFunction_DeepCopy X)"

definition CodaFunctionList_DeepCopy :: "extlib \<Rightarrow> copier" where [api_defs]:
  "CodaFunctionList_DeepCopy X = copyPtr (CodaFunctionList_DeepCopyInto X)"

definition CodaFunctionList_DeepCopyObject :: "extlib \<Rightarrow> copier" where [api_defs]:
  "CodaFunctionList_DeepCopyObject X = asObject (CodaFunctionList_DeepCopy X)"

text \<open>All copying methods, each with the type of its receiver.\<close>

definition deepCopyMethods :: "extlib \<Rightarrow> (gotype \<times> copier) list" where
  "deepCopyMethods X = [
     (ty_SecretRef X, SecretRef_DeepCopy X), (ty_ProviderSpec X, ProviderSpec_DeepCopy X),
     (ty_GPUProfile X, GPUProfile_DeepCopy X), (ty_PoolLimits X, PoolLimits_DeepCopy X),
     (ty_TaintSpec X, TaintSpec_DeepCopy X), (ty_GPUPoolSpec X, GPUPoolSpec_DeepCopy X),
     (ty_ObservedCapacity X, ObservedCapacity_DeepCopy X),
     (ty_PoolNodeCounts X, PoolNodeCounts_DeepCopy X), (ty_NodeRecord X, NodeRecord_DeepCopy X),
     (ty_GPUPoolStatus X, GPUPoolStatus_DeepCopy X), (ty_GPUPool X, GPUPool_DeepCopy X),
     (ty_GPUPoolList X, GPUPoolList_DeepCopy X), (ty_DynamicTarget X, DynamicTarget_DeepCopy X),
     (ty_BufferTarget X, BufferTarget_DeepCopy X), (ty_PoolRef X, PoolRef_DeepCopy X),
     (ty_ScaleDownSpec X, ScaleDownSpec_DeepCopy X),
     (ty_BufferPolicySpec X, BufferPolicySpec_DeepCopy X),
     (ty_BufferPolicyStatus X, BufferPolicyStatus_DeepCopy X),
     (ty_BufferPolicy X, BufferPolicy_DeepCopy X),
     (ty_BufferPolicyList X, BufferPolicyList_DeepCopy X), (ty_ModelSpec X, ModelSpec_DeepCopy X),
     (ty_EngineSpec X, EngineSpec_DeepCopy X), (ty_ResourceSpec X, ResourceSpec_DeepCopy X),
     (ty_RuntimeSpec X, RuntimeSpec_DeepCopy X), (ty_ScalingTarget X, ScalingTarget_DeepCopy X),
     (ty_ScalingSpec X, ScalingSpec_DeepCopy X), (ty_SnapshotRef X, SnapshotRef_DeepCopy X),
     (ty_RemoteRef X, RemoteRef_DeepCopy X), (ty_LMCacheSpec X, LMCacheSpec_DeepCopy X),
     (ty_KVSpec X, KVSpec_DeepCopy X), (ty_CodaEndpointSpec X, CodaEndpointSpec_DeepCopy X),
     (ty_ReplicaStatus X, ReplicaStatus_DeepCopy X),
     (ty_ColdStartMetrics X, ColdStartMetrics_DeepCopy X),
     (ty_CodaEndpointStatus X, CodaEndpointStatus_DeepCopy X),
     (ty_CodaEndpoint X, CodaEndpoint_DeepCopy X),
     (ty_CodaEndpointList X, CodaEndpointList_DeepCopy X),
     (ty_SnapshotPreSpec X, SnapshotPreSpec_DeepCopy X), (ty_StorageRef X, StorageRef_DeepCopy X),
     (ty_RetentionSpec X, RetentionSpec_DeepCopy X),
     (ty_SnapshotClassSpec X, SnapshotClassSpec_DeepCopy X),
     (ty_SnapshotClass X, SnapshotClass_DeepCopy X),
     (ty_SnapshotClassList X, SnapshotClassList_DeepCopy X),
     (ty_CodaTokenSpec X, CodaTokenSpec_DeepCopy X),
     (ty_CodaTokenStatus X, CodaTokenStatus_DeepCopy X), (ty_CodaToken X, CodaToken_DeepCopy X),
     (ty_CodaTokenList X, CodaTokenList_DeepCopy X),
     (ty_CodaFunctionSpec X, CodaFunctionSpec_DeepCopy X),
     (ty_CodaFunctionStatus X, CodaFunctionStatus_DeepCopy X),
     (ty_CodaFunction X, CodaFunction_DeepCopy X), (ty_CodaFunctionList X, CodaFunctionList_DeepCopy X)]"

text \<open>The kinds that \<open>init\<close> registers with the scheme, with the method the scheme needs.\<close>

definition schemeTypes :: "extlib \<Rightarrow> (string \<times> gotype \<times> copier) list" where
  "schemeTypes X = [
     (''GPUPool'', ty_GPUPool X, GPUPool_DeepCopyObject X),
     (''GPUPoolList'', ty_GPUPoolList X, GPUPoolList_DeepCopyObject X),
     (''BufferPolicy'', ty_BufferPolicy X, BufferPolicy_DeepCopyObject X),
     (''BufferPolicyList'', ty_BufferPolicyList X, BufferPolicyList_DeepCopyObject X),
     (''CodaEndpoint'', ty_CodaEndpoint X, CodaEndpoint_DeepCopyObject X),
     (''CodaEndpointList'', ty_CodaEndpointList X, CodaEndpointList_DeepCopyObject X),
     (''SnapshotClass'', ty_SnapshotClass X, SnapshotClass_DeepCopyObject X),
     (''SnapshotClassList'', ty_SnapshotClassList X, SnapshotClassList_DeepCopyObject X),
     (''CodaToken'', ty_CodaToken X, CodaToken_DeepCopyObject X),
     (''CodaTokenList'', ty_CodaTokenList X, CodaTokenList_DeepCopyObject X),
     (''CodaFunction'', ty_CodaFunction X, CodaFunction_DeepCopyObject X),
     (''CodaFunctionList'', ty_CodaFunctionList X, CodaFunctionList_DeepCopyObject X)]"

section \<open>Every method copies deeply\<close>

lemma asObject_eq [simp]: "asObject c = c"
  by (intro ext) (simp add: asObject_def split: prod.split)

lemma methods_deep:
  assumes "extOK X"
  shows "list_all (\<lambda>(T, c). deep (TPtr T) c) (deepCopyMethods X)"
  using assms by (simp add: deepCopyMethods_def extOK_def api_defs deep_intros covers_def)

lemma schemeTypes_methods: "snd ` set (schemeTypes X) \<subseteq> set (deepCopyMethods X)"
  by (simp add: schemeTypes_def deepCopyMethods_def
      GPUPool_DeepCopyObject_def GPUPoolList_DeepCopyObject_def BufferPolicy_DeepCopyObject_def
      BufferPolicyList_DeepCopyObject_def CodaEndpoint_DeepCopyObject_def CodaEndpointList_DeepCopyObject_def
      SnapshotClass_DeepCopyObject_def SnapshotClassList_DeepCopyObject_def CodaToken_DeepCopyObject_def
      CodaTokenList_DeepCopyObject_def CodaFunction_DeepCopyObject_def CodaFunctionList_DeepCopyObject_def)

lemma api_deep:
  assumes "extOK X" and "(T, c) \<in> set (deepCopyMethods X) \<or> (n, T, c) \<in> set (schemeTypes X)"
  shows "deep (TPtr T) c"
  using assms(2) methods_deep [OF assms(1)] schemeTypes_methods [of X] by (force simp: list_all_iff)

text \<open>
  C8: The copy that \<open>DeepCopy\<close> of any API type, or \<open>DeepCopyObject\<close> of any kind registered with the
  scheme, makes of an object reads exactly like it, nil references included, lies at addresses of its
  own and leaves the rest of memory as it was.  So whatever is written afterwards to memory that was
  there before, the object itself included, the copy keeps its contents; and whatever is written to
  the copy, the object does.
\<close>
theorem deepcopy_isolated:
  assumes "extOK X" and "(T, c) \<in> set (deepCopyMethods X) \<or> (n, T, c) \<in> set (schemeTypes X)"
    and "view h (TPtr T) p = Some (t, as)" and "c p h = (p', h')"
  shows "(\<exists>new bs. h' = h @ new \<and> view h' (TPtr T) p' = Some (t, bs) \<and> set bs \<inter> set as = {}) \<and>
    (\<forall>g. agree {length h..} h' g \<longrightarrow> (\<exists>bs. view g (TPtr T) p' = Some (t, bs))) \<and>
    (\<forall>g. agree {..<length h} h g \<longrightarrow> view g (TPtr T) p = Some (t, as))"
proof -
  note d = api_deep [OF assms(1, 2)]
  from deepD [OF d assms(3)] assms(4) obtain new bs where c: "h' = h @ new"
    "view h' (TPtr T) p' = Some (t, bs)" "isFresh h bs" by auto
  have "set bs \<inter> set as = {}"
    using c(3) viewed_allocated(1) [OF assms(3)] by (fastforce simp: isFresh_def list_all_iff)
  with c deep_isolated [OF d assms(3, 4)] show ?thesis by blast
qed

text \<open>
  The library's types cut down to what an example needs, and a pool's provider with parameters.  A
  region is changed in the original after the copy was made, as the gateway changes an annotation
  after it has copied the endpoint for the patch.
\<close>

definition demoLib :: extlib where
  "demoLib = \<lparr>xl_type = (\<lambda>n. if n = ''Time'' then TBase KTime else TStruct [(''Name'', TBase KString)]),
     xl_DeepCopyInto = (\<lambda>n. assign), xl_DeepCopy = (\<lambda>n. copyPtr assign)\<rparr>"

lemma demoLib_ok: "extOK demoLib"
  by (simp add: extOK_def demoLib_def deep_intros)

definition demoHeap :: heap where
  "demoHeap = [Dict [(''region'', Lit (LString ''us''))],
     Box (Struct [(''Name'', Lit (LString ''aws'')),
       (''CredentialsRef'', Struct [(''SecretName'', Lit (LString ''s''))]), (''Params'', Ref 0)])]"

definition demoTree :: "string \<Rightarrow> tree" where
  "demoTree region = TBox (TRec [(''Name'', TLit (LString ''aws'')),
     (''CredentialsRef'', TRec [(''SecretName'', TLit (LString ''s''))]),
     (''Params'', TDict [(''region'', TLit (LString region))])])"

lemma demo_view: "view demoHeap (TPtr (ty_ProviderSpec demoLib)) (Ref 1) = Some (demoTree ''us'', [1, 0])"
  by code_simp

theorem deepcopy_isolated_witness:
  "\<exists>p' h' bs. ProviderSpec_DeepCopy demoLib (Ref 1) demoHeap = (p', h') \<and>
     view (h'[0 := Dict [(''region'', Lit (LString ''eu''))]]) (TPtr (ty_ProviderSpec demoLib)) (Ref 1) =
       Some (demoTree ''eu'', [1, 0]) \<and>
     view (h'[0 := Dict [(''region'', Lit (LString ''eu''))]]) (TPtr (ty_ProviderSpec demoLib)) p' = Some (demoTree ''us'', bs)"
proof -
  obtain p' h' where c: "ProviderSpec_DeepCopy demoLib (Ref 1) demoHeap = (p', h')"
    by (cases "ProviderSpec_DeepCopy demoLib (Ref 1) demoHeap")
  have "(ty_ProviderSpec demoLib, ProviderSpec_DeepCopy demoLib) \<in> set (deepCopyMethods demoLib)"
    by (simp add: deepCopyMethods_def)
  note iso = deepcopy_isolated [OF demoLib_ok disjI1 [OF this] demo_view c]
  let ?g = "h'[0 := Dict [(''region'', Lit (LString ''eu''))]]"
  have "agree {length demoHeap..} h' ?g" by (auto simp: agree_def cellAt_def demoHeap_def)
  with iso have "\<exists>bs. view ?g (TPtr (ty_ProviderSpec demoLib)) p' = Some (demoTree ''us'', bs)" by blast
  moreover have "view ?g (TPtr (ty_ProviderSpec demoLib)) (Ref 1) = Some (demoTree ''eu'', [1, 0])"
  proof -
    obtain new where "h' = demoHeap @ new" using iso by blast
    then show ?thesis
      by (simp add: demoHeap_def cellAt_def ty_ProviderSpec_def ty_SecretRef_def viewEntry_def demoTree_def)
  qed
  ultimately show ?thesis using c by blast
qed

end
