(* ===== verification/Watches.thy ===== *)
theory Watches
  imports Manager Deep_Copy
begin

text \<open>
  What wakes the controllers.  \<open>SetupWithManager\<close> of each reconciler names the kinds it watches, the
  kinds are those the scheme of the process knows, and the controller runtime turns a change of a
  watched object into requests for the reconciler.  The runtime is the argument \<open>enq\<close>, of which
  \<open>enqueueOK\<close> states the documented behaviour; the kinds of the Kubernetes client are the argument
  \<open>core\<close>.
\<close>

section \<open>Kinds and the scheme\<close>

record gvk =
  gvk_Group :: string
  gvk_Version :: string
  gvk_Kind :: string

definition GroupVersion :: "string \<times> string" where
  "GroupVersion = (''opencoda.dev'', ''v1alpha1'')"

definition ownKind :: "string \<Rightarrow> gvk" where
  "ownKind k = \<lparr>gvk_Group = fst GroupVersion, gvk_Version = snd GroupVersion, gvk_Kind = k\<rparr>"

definition coreKind :: "string \<Rightarrow> gvk" where
  "coreKind k = \<lparr>gvk_Group = [], gvk_Version = ''v1'', gvk_Kind = k\<rparr>"

type_synonym scheme = "gvk \<rightharpoonup> gotype \<times> copier"

definition AddToScheme :: "extlib \<Rightarrow> scheme \<Rightarrow> scheme" where
  "AddToScheme X s = s ++ map_of (map (\<lambda>(k, T, c). (ownKind k, T, c)) (schemeTypes X))"

text \<open>\<open>init\<close> of the programs: the kinds of the client, then those of the project.\<close>

definition processScheme :: "(scheme \<Rightarrow> scheme) \<Rightarrow> extlib \<Rightarrow> scheme" where
  "processScheme core X = AddToScheme X (core Map.empty)"

section \<open>What the controllers watch\<close>

datatype watch = For gvk | Owns gvk

record controller =
  ct_watches :: "watch list"
  ct_job :: "string \<times> string \<Rightarrow> job"

definition pool_SetupWithManager :: controller where
  "pool_SetupWithManager = \<lparr>ct_watches = [For (ownKind ''GPUPool'')], ct_job = (\<lambda>(ns, n). PoolJob n)\<rparr>"

definition buffer_SetupWithManager :: controller where
  "buffer_SetupWithManager = \<lparr>ct_watches = [For (ownKind ''BufferPolicy'')], ct_job = (\<lambda>(ns, n). BufferJob n)\<rparr>"

definition endpoint_SetupWithManager :: controller where
  "endpoint_SetupWithManager = \<lparr>ct_watches = [For (ownKind ''CodaEndpoint''), Owns (coreKind ''Pod'')],
     ct_job = (\<lambda>(ns, n). EndpointJob ns n)\<rparr>"

definition health_SetupWithManager :: controller where
  "health_SetupWithManager = \<lparr>ct_watches = [For (coreKind ''Node'')], ct_job = (\<lambda>(ns, n). NodeJob n)\<rparr>"

definition controllers :: "controller list" where
  "controllers = [pool_SetupWithManager, buffer_SetupWithManager, endpoint_SetupWithManager, health_SetupWithManager]"

text \<open>The kind whose objects a controller reconciles, which is also the kind of the owners of what it owns.\<close>

fun primaryKind :: "watch list \<Rightarrow> gvk option" where
  "primaryKind [] = None"
| "primaryKind (For k # ws) = Some k"
| "primaryKind (Owns k # ws) = primaryKind ws"

section \<open>From a change to the jobs\<close>

datatype object =
    PoolObj GPUPool
  | PolicyObj BufferPolicy
  | EndpointObj CodaEndpoint
  | NodeObj Node
  | PodObj Pod

fun objKind :: "object \<Rightarrow> gvk" where
  "objKind (PoolObj p) = ownKind ''GPUPool''"
| "objKind (PolicyObj p) = ownKind ''BufferPolicy''"
| "objKind (EndpointObj ep) = ownKind ''CodaEndpoint''"
| "objKind (NodeObj n) = coreKind ''Node''"
| "objKind (PodObj p) = coreKind ''Pod''"

fun objMeta :: "object \<Rightarrow> ObjectMeta" where
  "objMeta (PoolObj p) = pool_Meta p"
| "objMeta (PolicyObj p) = policy_Meta p"
| "objMeta (EndpointObj ep) = ep_Meta ep"
| "objMeta (NodeObj n) = node_Meta n"
| "objMeta (PodObj p) = pod_Meta p"

type_synonym enqueue = "gvk option \<Rightarrow> watch \<Rightarrow> object \<Rightarrow> (string \<times> string) list"

definition jobsOf :: "enqueue \<Rightarrow> controller \<Rightarrow> object \<Rightarrow> job list" where
  "jobsOf enq c obj = map (ct_job c) (concat (map (\<lambda>w. enq (primaryKind (ct_watches c)) w obj) (ct_watches c)))"

definition jobsFor :: "enqueue \<Rightarrow> object \<Rightarrow> job list" where
  "jobsFor enq obj = concat (map (\<lambda>c. jobsOf enq c obj) controllers)"

text \<open>
  A watch of the reconciled kind gives a request for the changed object; a watch of an owned kind
  gives requests only for controllers that the owner references of the changed object name.
\<close>

definition enqueueOK :: "enqueue \<Rightarrow> bool" where
  "enqueueOK enq \<longleftrightarrow> (\<forall>pk k obj.
     enq pk (For k) obj = (if objKind obj = k then [(om_Namespace (objMeta obj), om_Name (objMeta obj))] else []) \<and>
     (\<forall>(ns, n) \<in> set (enq pk (Owns k) obj). objKind obj = k \<and>
        (\<exists>r \<in> set (om_OwnerReferences (objMeta obj)). or_Controller r \<and> or_Name r = n \<and>
           Some (or_Kind r) = map_option gvk_Kind pk)))"

definition refersTo :: "gvk option \<Rightarrow> OwnerReference \<Rightarrow> bool" where
  "refersTo pk r \<longleftrightarrow> or_Controller r \<and> Some (or_Kind r) = map_option gvk_Kind pk"

fun stdEnqueue :: enqueue where
  "stdEnqueue pk (For k) obj = (if objKind obj = k then [(om_Namespace (objMeta obj), om_Name (objMeta obj))] else [])"
| "stdEnqueue pk (Owns k) obj = (if objKind obj = k then map (\<lambda>r. (om_Namespace (objMeta obj), or_Name r))
     (filter (refersTo pk) (om_OwnerReferences (objMeta obj))) else [])"

lemma stdEnqueue_OK: "enqueueOK stdEnqueue"
  by (auto simp: enqueueOK_def refersTo_def)

section \<open>Every watched kind is known\<close>

lemma kinds_eq [simp]:
  "ownKind a = ownKind b \<longleftrightarrow> a = b" "coreKind a = coreKind b \<longleftrightarrow> a = b"
  "ownKind a \<noteq> coreKind b" "coreKind b \<noteq> ownKind a"
  by (simp_all add: ownKind_def coreKind_def GroupVersion_def)

fun watchedKind :: "watch \<Rightarrow> gvk" where
  "watchedKind (For k) = k"
| "watchedKind (Owns k) = k"

lemma AddToScheme_own:
  "AddToScheme X s (ownKind k) = (case map_of (schemeTypes X) k of None \<Rightarrow> s (ownKind k) | Some v \<Rightarrow> Some v)"
proof -
  have "map_of (map (\<lambda>(k, T, c). (ownKind k, T, c)) kts) (ownKind k) = map_of kts k" for kts :: "(string \<times> gotype \<times> copier) list"
    by (induction kts) auto
  then show ?thesis by (simp add: AddToScheme_def map_add_def)
qed

lemma AddToScheme_core: "AddToScheme X s (coreKind k) = s (coreKind k)"
proof -
  have "map_of (map (\<lambda>(k, T, c). (ownKind k, T, c)) kts) (coreKind k) = None" for kts :: "(string \<times> gotype \<times> copier) list"
    by (induction kts) auto
  then show ?thesis by (simp add: AddToScheme_def map_add_def)
qed

lemma watched_kinds_registered:
  assumes "core Map.empty (coreKind ''Node'') \<noteq> None" and "core Map.empty (coreKind ''Pod'') \<noteq> None"
    and "c \<in> set controllers" and "w \<in> set (ct_watches c)"
  shows "processScheme core X (watchedKind w) \<noteq> None"
proof -
  have "watchedKind w \<in> {ownKind ''GPUPool'', ownKind ''BufferPolicy'', ownKind ''CodaEndpoint'', coreKind ''Pod'', coreKind ''Node''}"
    using assms(3,4)
    by (auto simp: controllers_def pool_SetupWithManager_def buffer_SetupWithManager_def endpoint_SetupWithManager_def
        health_SetupWithManager_def)
  then show ?thesis
    using assms(1,2) by (auto simp: processScheme_def AddToScheme_own AddToScheme_core schemeTypes_def)
qed

section \<open>Who is woken\<close>

lemma enqueue_For:
  "enqueueOK enq \<Longrightarrow> enq pk (For k) obj =
     (if objKind obj = k then [(om_Namespace (objMeta obj), om_Name (objMeta obj))] else [])"
  by (simp add: enqueueOK_def)

lemma enqueue_Owns:
  assumes "enqueueOK enq" and "objKind obj \<noteq> k \<or> om_OwnerReferences (objMeta obj) = []"
  shows "enq pk (Owns k) obj = []"
proof (rule ccontr)
  assume "enq pk (Owns k) obj \<noteq> []"
  then obtain ns n where "(ns, n) \<in> set (enq pk (Owns k) obj)" by (cases "enq pk (Owns k) obj") auto
  then have "objKind obj = k" "om_OwnerReferences (objMeta obj) \<noteq> []"
    using assms(1) unfolding enqueueOK_def by fastforce+
  with assms(2) show False by simp
qed

lemmas setups = controllers_def pool_SetupWithManager_def buffer_SetupWithManager_def endpoint_SetupWithManager_def
  health_SetupWithManager_def

lemma jobs_pool: "enqueueOK enq \<Longrightarrow> jobsFor enq (PoolObj p) = [PoolJob (pool_Name p)]"
  by (simp add: jobsFor_def jobsOf_def setups enqueue_For enqueue_Owns)

lemma jobs_policy: "enqueueOK enq \<Longrightarrow> jobsFor enq (PolicyObj b) = [BufferJob (om_Name (policy_Meta b))]"
  by (simp add: jobsFor_def jobsOf_def setups enqueue_For enqueue_Owns)

lemma jobs_endpoint: "enqueueOK enq \<Longrightarrow> jobsFor enq (EndpointObj ep) = [EndpointJob (ep_Namespace ep) (ep_Name ep)]"
  by (simp add: jobsFor_def jobsOf_def setups enqueue_For enqueue_Owns)

lemma jobs_node: "enqueueOK enq \<Longrightarrow> jobsFor enq (NodeObj n) = [NodeJob (node_Name n)]"
  by (simp add: jobsFor_def jobsOf_def setups enqueue_For enqueue_Owns)

lemma jobs_unowned: "enqueueOK enq \<Longrightarrow> om_OwnerReferences (pod_Meta pod) = [] \<Longrightarrow> jobsFor enq (PodObj pod) = []"
  by (simp add: jobsFor_def jobsOf_def setups enqueue_For enqueue_Owns)

lemma duty_creates: "duty j e \<Longrightarrow> createEv e = Some pod \<Longrightarrow> \<exists>ns n. j = EndpointJob ns n"
  by (cases "e" rule: createEv.cases; cases j) (auto simp: duty.simps)

lemma duty_no_create:
  assumes "\<nexists>ns n. j = EndpointJob ns n"
  shows "list_all (duty j) es \<Longrightarrow> select createEv es = []"
proof (induction es)
  case (Cons e es)
  then show ?case using assms duty_creates [of j e] by (cases "createEv e") auto
qed simp

lemma runJob_unowned:
  "emits (runJob M j) (\<lambda>_ es. list_all (\<lambda>p. om_OwnerReferences (pod_Meta p) = []) (select createEv es))"
proof (cases "\<exists>ns n. j = EndpointJob ns n")
  case True
  then obtain ns n where "j = EndpointJob ns n" by blast
  then show ?thesis
    by (auto simp: discard_def intro!: emits
        emits_bind_fixed [OF emits_onEndpointState [OF emits_endpoint_unowned]])
next
  case False
  show ?thesis using duty_runJob by (rule emits_mono) (use duty_no_create [OF False] in simp)
qed

text \<open>
  C15: A change of a pool, a policy, an endpoint or a node wakes exactly the one reconciler of its
  kind, with the name of the changed object.  But no pod that any job of the manager creates wakes
  anybody when it changes: the endpoint controller watches the pods it owns, and the pods it creates
  have no owner reference, so their failure, readiness and removal go unnoticed until the endpoint is
  reconciled for another reason.
\<close>
theorem watches_wake:
  assumes "enqueueOK enq"
  shows "jobsFor enq (PoolObj p) = [PoolJob (pool_Name p)] \<and>
    jobsFor enq (PolicyObj b) = [BufferJob (om_Name (policy_Meta b))] \<and>
    jobsFor enq (EndpointObj ep) = [EndpointJob (ep_Namespace ep) (ep_Name ep)] \<and>
    jobsFor enq (NodeObj n) = [NodeJob (node_Name n)] \<and>
    emits (runJob M j) (\<lambda>_ es. list_all (\<lambda>pod. jobsFor enq (PodObj pod) = []) (select createEv es))"
  using assms
  by (intro conjI jobs_pool jobs_policy jobs_endpoint jobs_node emits_mono [OF runJob_unowned])
    (auto simp: list_all_iff jobs_unowned)

text \<open>The runtime that names every controller among the owners, and a pod that has one.\<close>

definition ownedPod :: Pod where
  "ownedPod = zeroPod\<lparr>pod_Meta := zeroMeta\<lparr>om_Name := ''p'', om_Namespace := ''n'', om_OwnerReferences :=
     [\<lparr>or_APIVersion = ''opencoda.dev/v1alpha1'', or_Kind = ''CodaEndpoint'', or_Name = ''e'', or_Controller = True\<rparr>]\<rparr>\<rparr>"

definition wakeEnv :: "unit env" where
  "wakeEnv = idleEnv\<lparr>x_GetEndpoint := (\<lambda>_ _ w. (Inr demoEndpoint, w)), x_ListEndpointPods := (\<lambda>_ _ w. (Inr [], w))\<rparr>"

definition wakeConfig :: "unit managerConfig" where
  "wakeConfig = managerSetup wakeEnv (\<lambda>_. []) [] managerDefaults insertionSort rev"

lemma wake_replicas: "[0..2] = [0, 1, 2 :: int]"
  by (simp add: upto_rec1)

lemma wake_creates:
  "wp (runJob wakeConfig (EndpointJob ''n'' ''e'')) (\<lambda>_ s. length (select createEv (trace s)) = 3) (startState ())"
  unfolding wp_def
  by (simp add: wakeConfig_def managerSetup_def discard_def onEndpointState_def startState_def endpoint_Reconcile_def
    desiredReplicas_def wakeEnv_def idleEnv_def demoEndpoint_def zeroEndpoint_def ValidateEngineType_def EngineName_def
    Atoi_def parseDigits_def isDigit_def digitVal_def Let_def key_defs ToLower_def toLowerChar_def
    reconcileReplicas_def countReplicaPods_def recordColdStarts_def scaleReplicas_def setRolloutCondition_def
    wake_replicas buildPod_def podSpecFor_def Engines_get selectKV_eq kv_RenderPodPatch_def RenderPodSpec_def
    lmcacheEnabled_def applyGPUScheduling_def zeroPatch_def)

theorem watches_wake_witness:
  "jobsFor stdEnqueue (PodObj ownedPod) = [EndpointJob ''n'' ''e''] \<and>
   jobsFor stdEnqueue (EndpointObj demoEndpoint) = [EndpointJob ''n'' ''e''] \<and>
   wp (runJob wakeConfig (EndpointJob ''n'' ''e'')) (\<lambda>_ s. length (select createEv (trace s)) = 3 \<and>
     list_all (\<lambda>pod. jobsFor stdEnqueue (PodObj pod) = []) (select createEv (trace s))) (startState ())"
proof (intro conjI)
  show "jobsFor stdEnqueue (PodObj ownedPod) = [EndpointJob ''n'' ''e'']"
    by (simp add: jobsFor_def jobsOf_def setups ownedPod_def zeroPod_def refersTo_def)
       (simp add: ownKind_def)
  have "ep_Namespace demoEndpoint = ''n''" "ep_Name demoEndpoint = ''e''"
    by (simp_all add: demoEndpoint_def zeroEndpoint_def)
  moreover have "jobsFor stdEnqueue (EndpointObj demoEndpoint) = [EndpointJob (ep_Namespace demoEndpoint) (ep_Name demoEndpoint)]"
    using watches_wake [OF stdEnqueue_OK] by blast
  ultimately show "jobsFor stdEnqueue (EndpointObj demoEndpoint) = [EndpointJob ''n'' ''e'']" by simp
  have "emits (runJob wakeConfig (EndpointJob ''n'' ''e''))
     (\<lambda>_ es. list_all (\<lambda>pod. jobsFor stdEnqueue (PodObj pod) = []) (select createEv es))"
    using watches_wake [OF stdEnqueue_OK] by blast
  from wp_conj [OF wake_creates emits_wp [OF this]]
  show "wp (runJob wakeConfig (EndpointJob ''n'' ''e'')) (\<lambda>_ s. length (select createEv (trace s)) = 3 \<and>
     list_all (\<lambda>pod. jobsFor stdEnqueue (PodObj pod) = []) (select createEv (trace s))) (startState ())"
    by (auto simp: startState_def elim!: wp_mono)
qed

end
