(* ===== verification/Gateway_Steps.thy ===== *)
theory Gateway_Steps
  imports Gateway_Sync
begin

text \<open>
  The gateway under concurrency.  Requests are served by goroutines and the sync loop runs beside
  them; what they share is the router, whose operations each hold its mutex.  A step of the
  transition system is one such critical section, so the interleavings are those of the program.
  Every request is in one phase, named after what it has done so far; so is the sync loop, which
  registers an endpoint, reads its two counters one after the other and then decides.  The order of the
  map of endpoints may be another one at every arrival.  A replica may answer at any time or never.
\<close>

datatype phase =
    Chosen string
  | Queued string
  | Proxying string string
  | Leaving string

datatype syncPhase =
    Idle
  | Registered CodaEndpoint
  | HasInFlight CodaEndpoint int

record gsys =
  g_router :: Router
  g_requests :: "phase multiset"
  g_sync :: syncPhase

text \<open>A pick carries the endpoint and whether it had a replica.\<close>

datatype label =
    Arrive "string list \<Rightarrow> string list"
  | Pick string bool
  | Work
  | Register CodaEndpoint
  | ReadInFlight CodaEndpoint
  | Decide CodaEndpoint int

text \<open>
  \<open>handleChatCompletions\<close> chooses the endpoint, queues, picks a replica and (deferred) leaves the
  queue; the replica's answer is a step of its own.  \<open>SyncEndpoint\<close> registers, reads the two counters
  and decides.
\<close>

inductive gstep :: "label \<Rightarrow> gsys \<Rightarrow> gsys \<Rightarrow> bool" where
  choose: "PickEndpointByModel ord (g_router s) model = Some ep \<Longrightarrow>
     gstep (Arrive ord) s (s\<lparr>g_requests := add_mset (Chosen (est_Name ep)) (g_requests s)\<rparr>)"
| enqueue: "g_requests s = add_mset (Chosen n) R \<Longrightarrow>
     gstep Work s (s\<lparr>g_router := IncQueue (g_router s) n, g_requests := add_mset (Queued n) R\<rparr>)"
| none_ready: "g_requests s = add_mset (Queued n) R \<Longrightarrow> PickReplica (g_router s) n = ([], r) \<Longrightarrow>
     gstep (Pick n (urlsOf (g_router s) n \<noteq> [])) s (s\<lparr>g_router := r, g_requests := add_mset (Leaving n) R\<rparr>)"
| picked: "g_requests s = add_mset (Queued n) R \<Longrightarrow> PickReplica (g_router s) n = (url, r) \<Longrightarrow> url \<noteq> [] \<Longrightarrow>
     gstep (Pick n (urlsOf (g_router s) n \<noteq> [])) s (s\<lparr>g_router := r, g_requests := add_mset (Proxying n url) R\<rparr>)"
| answer: "g_requests s = add_mset (Proxying n url) R \<Longrightarrow>
     gstep Work s (s\<lparr>g_requests := add_mset (Leaving n) R\<rparr>)"
| leave: "g_requests s = add_mset (Leaving n) R \<Longrightarrow>
     gstep Work s (s\<lparr>g_router := DecQueue (g_router s) n, g_requests := R\<rparr>)"
| register: "g_sync s = Idle \<Longrightarrow>
     gstep (Register ep) s (s\<lparr>g_router := RegisterEndpoint (g_router s) (ep_Name ep) (ms_Source (eps_Model (ep_Spec ep))) urls,
       g_sync := Registered ep\<rparr>)"
| read: "g_sync s = Registered ep \<Longrightarrow>
     gstep (ReadInFlight ep) s (s\<lparr>g_sync := HasInFlight ep (InFlight (g_router s) (ep_Name ep))\<rparr>)"
| decide: "g_sync s = HasInFlight ep inFlight \<Longrightarrow>
     d = clampReplicas ep (inFlight + QueueDepth (g_router s) (ep_Name ep)) \<Longrightarrow>
     gstep (Decide ep d) s (s\<lparr>g_sync := Idle\<rparr>)"

inductive_cases decideE: "gstep (Decide ep d) s s'"

definition gstart :: gsys where
  "gstart = \<lparr>g_router = [], g_requests = {#}, g_sync = Idle\<rparr>"

inductive greach :: "gsys \<Rightarrow> bool" where
  start: "greach gstart"
| step: "greach s \<Longrightarrow> gstep l s s' \<Longrightarrow> greach s'"

section \<open>The queue counters\<close>

text \<open>The endpoint whose queue a request is in, if any.\<close>

fun holds :: "phase \<Rightarrow> string \<Rightarrow> bool" where
  "holds (Chosen n) k = False"
| "holds (Queued n) k = (n = k)"
| "holds (Proxying n url) k = (n = k)"
| "holds (Leaving n) k = (n = k)"

definition holders :: "gsys \<Rightarrow> string \<Rightarrow> nat" where
  "holders s k = size {#p \<in># g_requests s. holds p k#}"

definition ginv :: "gsys \<Rightarrow> bool" where
  "ginv s \<longleftrightarrow> routerInv (g_router s) \<and> (\<forall>k. QueueDepth (g_router s) k \<le> int (holders s k))"

lemma ginvD:
  assumes "ginv s"
  shows "routerInv (g_router s)" "QueueDepth (g_router s) k \<le> int (holders s k)" "0 \<le> QueueDepth (g_router s) k"
  using assms QueueDepth_nonneg by (auto simp: ginv_def)

lemma ginv_step:
  assumes "gstep l s s'" and "ginv s"
  shows "ginv s'"
  using assms
proof (cases rule: gstep.cases)
  case (enqueue n R)
  have "QueueDepth (IncQueue (g_router s) n) k \<le> int (holders s' k)" for k
    using ginvD(2) [OF assms(2), of k] enqueue by (auto simp: holders_def QueueDepth_Inc)
  then show ?thesis using enqueue ginvD(1) [OF assms(2)] by (simp add: ginv_def)
next
  case (none_ready n R r)
  have "holders s' k = holders s k" for k using none_ready by (simp add: holders_def)
  then show ?thesis
    using none_ready ginvD [OF assms(2)] routerInv_Pick [of "g_router s" n] QueueDepth_Pick [of "g_router s" n]
    by (simp add: ginv_def)
next
  case (picked n R url r)
  have "holders s' k = holders s k" for k using picked by (simp add: holders_def)
  then show ?thesis
    using picked ginvD [OF assms(2)] routerInv_Pick [of "g_router s" n] QueueDepth_Pick [of "g_router s" n]
    by (simp add: ginv_def)
next
  case (answer n url R)
  have "holders s' k = holders s k" for k using answer by (simp add: holders_def)
  then show ?thesis using answer ginvD [OF assms(2)] by (simp add: ginv_def)
next
  case (leave n R)
  have "QueueDepth (DecQueue (g_router s) n) k \<le> int (holders s' k)" for k
    using ginvD(2, 3) [OF assms(2), of k] leave QueueDepth_unregistered [of "g_router s" k]
    by (auto simp: holders_def QueueDepth_Dec split: if_splits)
  then show ?thesis using leave ginvD(1) [OF assms(2)] by (simp add: ginv_def)
next
  case (register ep urls)
  have "QueueDepth (g_router s') k \<le> int (holders s' k)" for k
    using register ginvD(2) [OF assms(2), of k] by (cases "k = ep_Name ep") (auto simp: holders_def)
  then show ?thesis using register ginvD(1) [OF assms(2)] by (simp add: ginv_def)
qed (use ginvD [OF assms(2)] in \<open>auto simp: ginv_def holders_def\<close>)

lemma greach_ginv: "greach s \<Longrightarrow> ginv s"
proof (induction rule: greach.induct)
  case start
  show ?case by (simp add: gstart_def ginv_def QueueDepth_def)
next
  case (step s l s')
  then show ?case by (blast intro: ginv_step)
qed

text \<open>
  C11: Whatever the interleaving of requests with each other and with the sync loop, the queue
  depth of an endpoint is never negative and never more than the number of requests that are in
  its queue, and every decision of the autoscaler is within the bounds of its endpoint.
\<close>
theorem queue_depth_sound:
  assumes "greach s"
  shows "0 \<le> QueueDepth (g_router s) k \<and> QueueDepth (g_router s) k \<le> int (holders s k) \<and>
    (\<forall>ep d s'. gstep (Decide ep d) s s' \<and> sc_MinReplicas (ep_Scaling ep) \<le> sc_MaxReplicas (ep_Scaling ep) \<longrightarrow>
       sc_MinReplicas (ep_Scaling ep) \<le> d \<and> d \<le> sc_MaxReplicas (ep_Scaling ep))"
  using ginvD(2, 3) [OF greach_ginv [OF assms], of k]
  by (auto elim!: decideE simp: clampReplicas_def Let_def)

section \<open>The counter of requests in flight\<close>

lemma InFlight_Dec [simp]: "InFlight (DecQueue r n) m = InFlight r m"
  by (auto simp: InFlight_def DecQueue_def split: option.split)

lemma InFlight_Pick:
  "InFlight (snd (PickReplica r n)) m = InFlight r m + (if m = n \<and> urlsOf r n \<noteq> [] then 1 else 0)"
  by (auto simp: InFlight_def PickReplica_def urlsOf_def split: option.split)

lemma InFlight_Register: "InFlight (RegisterEndpoint r n m urls) k = (if k = n then 0 else InFlight r k)"
  by (simp add: InFlight_def RegisterEndpoint_def)

text \<open>The steps that led to a state, the last one first, and the replicas picked since an endpoint was registered.\<close>

inductive ghistory :: "label list \<Rightarrow> gsys \<Rightarrow> bool" where
  start: "ghistory [] gstart"
| step: "ghistory h s \<Longrightarrow> gstep l s s' \<Longrightarrow> ghistory (l # h) s'"

fun picksSince :: "string \<Rightarrow> label list \<Rightarrow> nat" where
  "picksSince n [] = 0"
| "picksSince n (Pick k found # h) = (if k = n \<and> found then 1 else 0) + picksSince n h"
| "picksSince n (Register ep # h) = (if ep_Name ep = n then 0 else picksSince n h)"
| "picksSince n (_ # h) = picksSince n h"

lemma picks_step:
  assumes "gstep l s s'" and "InFlight (g_router s) n = int (picksSince n h)"
  shows "InFlight (g_router s') n = int (picksSince n (l # h))"
  using assms
proof (cases rule: gstep.cases)
  case (none_ready k R r)
  with assms(2) InFlight_Pick [of "g_router s" k n] show ?thesis by auto
next
  case (picked k R url r)
  with assms(2) InFlight_Pick [of "g_router s" k n] show ?thesis by auto
qed (use assms(2) in \<open>auto simp: InFlight_Register\<close>)

lemma history_InFlight: "ghistory h s \<Longrightarrow> InFlight (g_router s) n = int (picksSince n h)"
proof (induction rule: ghistory.induct)
  case start
  show ?case by (simp add: gstart_def InFlight_def)
next
  case (step h s l s')
  then show ?case by (blast intro: picks_step)
qed

definition proxying :: "gsys \<Rightarrow> string \<Rightarrow> nat" where
  "proxying s n = size {#p \<in># g_requests s. \<exists>url. p = Proxying n url#}"

text \<open>Every request that is being proxied was picked for, but the registration may have been renewed since.\<close>

fun picksEver :: "string \<Rightarrow> label list \<Rightarrow> nat" where
  "picksEver n [] = 0"
| "picksEver n (Pick k found # h) = (if k = n \<and> found then 1 else 0) + picksEver n h"
| "picksEver n (_ # h) = picksEver n h"

lemma PickReplica_found: "PickReplica r n = (url, r') \<Longrightarrow> url \<noteq> [] \<Longrightarrow> urlsOf r n \<noteq> []"
  by (auto simp: PickReplica_def urlsOf_def split: option.splits if_splits)

lemma proxying_step:
  assumes "gstep l s s'" and "proxying s n \<le> picksEver n h"
  shows "proxying s' n \<le> picksEver n (l # h)"
  using assms by (cases rule: gstep.cases) (auto simp: proxying_def dest: PickReplica_found split: if_splits)

lemma history_proxying: "ghistory h s \<Longrightarrow> proxying s n \<le> picksEver n h"
proof (induction rule: ghistory.induct)
  case start
  show ?case by (simp add: gstart_def proxying_def)
next
  case (step h s l s')
  then show ?case by (blast intro: proxying_step)
qed

text \<open>
  C21: The counter of requests in flight does not count requests in flight.  In every interleaving it is
  exactly the number of replicas picked for the endpoint since its last registration: an answer never
  takes a request off again, and a registration forgets the requests that are still under way.  The
  autoscaler decides on that number, read before the queue depth.  The requests that really are in
  flight are at most all those ever picked for.
\<close>
theorem in_flight_counts_picks:
  assumes "ghistory h s"
  shows "InFlight (g_router s) n = int (picksSince n h) \<and> proxying s n \<le> picksEver n h \<and>
    (\<forall>ep s'. gstep (ReadInFlight ep) s s' \<longrightarrow> g_sync s' = HasInFlight ep (int (picksSince (ep_Name ep) h)))"
  using history_InFlight [OF assms] history_proxying [OF assms] by (auto elim: gstep.cases)

section \<open>The handlers are runs of the system\<close>

definition requestStep :: "(string list \<Rightarrow> string list) \<Rightarrow> gsys \<Rightarrow> gsys \<Rightarrow> bool" where
  "requestStep ord s s' \<longleftrightarrow> gstep (Arrive ord) s s' \<or> (\<exists>n found. gstep (Pick n found) s s') \<or> gstep Work s s'"

lemma requestStep_pick: "gstep (Pick n found) s s' \<Longrightarrow> requestStep ord s s'"
  by (auto simp: requestStep_def)

lemma request_run:
  assumes "PickEndpointByModel ord r model = Some ep"
  shows "(requestStep ord)\<^sup>*\<^sup>* \<lparr>g_router = r, g_requests = R, g_sync = y\<rparr>
    \<lparr>g_router = DecQueue (snd (PickReplica (IncQueue r (est_Name ep)) (est_Name ep))) (est_Name ep),
     g_requests = R, g_sync = y\<rparr>"
proof -
  let ?n = "est_Name ep"
  let ?S = "\<lambda>r R. \<lparr>g_router = r, g_requests = R, g_sync = y\<rparr>"
  obtain url r' where p: "PickReplica (IncQueue r ?n) ?n = (url, r')" by fastforce
  have 1: "requestStep ord (?S r R) (?S r (add_mset (Chosen ?n) R))"
    using gstep.choose [of ord "?S r R" model ep] assms by (simp add: requestStep_def)
  have 2: "requestStep ord (?S r (add_mset (Chosen ?n) R)) (?S (IncQueue r ?n) (add_mset (Queued ?n) R))"
    using gstep.enqueue [of "?S r (add_mset (Chosen ?n) R)" ?n R] by (simp add: requestStep_def)
  have 3: "(requestStep ord)\<^sup>*\<^sup>* (?S (IncQueue r ?n) (add_mset (Queued ?n) R)) (?S r' (add_mset (Leaving ?n) R))"
  proof (cases "url = []")
    case True
    then show ?thesis
      using requestStep_pick [OF gstep.none_ready [of "?S (IncQueue r ?n) (add_mset (Queued ?n) R)" ?n R r']] p
      by (simp add: r_into_rtranclp)
  next
    case False
    have "requestStep ord (?S (IncQueue r ?n) (add_mset (Queued ?n) R)) (?S r' (add_mset (Proxying ?n url) R))"
      using requestStep_pick [OF gstep.picked [of "?S (IncQueue r ?n) (add_mset (Queued ?n) R)" ?n R url r']] p False
      by simp
    moreover have "requestStep ord (?S r' (add_mset (Proxying ?n url) R)) (?S r' (add_mset (Leaving ?n) R))"
      using gstep.answer [of "?S r' (add_mset (Proxying ?n url) R)" ?n url R] by (simp add: requestStep_def)
    ultimately show ?thesis by simp
  qed
  have 4: "requestStep ord (?S r' (add_mset (Leaving ?n) R)) (?S (DecQueue r' ?n) R)"
    using gstep.leave [of "?S r' (add_mset (Leaving ?n) R)" ?n R] by (simp add: requestStep_def)
  from 1 2 3 4 p show ?thesis
    by (simp add: converse_rtranclp_into_rtranclp rtranclp.rtrancl_into_rtrancl)
qed

definition syncStep :: "CodaEndpoint \<Rightarrow> gsys \<Rightarrow> gsys \<Rightarrow> bool" where
  "syncStep ep s s' \<longleftrightarrow> gstep (Register ep) s s' \<or> gstep (ReadInFlight ep) s s' \<or> (\<exists>d. gstep (Decide ep d) s s')"

lemma sync_run:
  "(syncStep ep)\<^sup>*\<^sup>* \<lparr>g_router = r, g_requests = R, g_sync = Idle\<rparr>
     \<lparr>g_router = RegisterEndpoint r (ep_Name ep) (ms_Source (eps_Model (ep_Spec ep))) urls, g_requests = R, g_sync = Idle\<rparr>"
  (is "(syncStep _)\<^sup>*\<^sup>* ?a ?c")
proof -
  let ?b = "?c\<lparr>g_sync := Registered ep\<rparr>"
  let ?b' = "?c\<lparr>g_sync := HasInFlight ep (InFlight (g_router ?c) (ep_Name ep))\<rparr>"
  have "syncStep ep ?a ?b" using gstep.register [of ?a ep urls] by (simp add: syncStep_def)
  moreover have "syncStep ep ?b ?b'" using gstep.read [of ?b ep] by (simp add: syncStep_def)
  moreover have "syncStep ep ?b' ?c"
    using gstep.decide [of ?b' ep _ _, OF _ refl] by (auto simp: syncStep_def)
  ultimately show ?thesis by (meson converse_rtranclp_into_rtranclp r_into_rtranclp)
qed

lemma synced_routes:
  "synced ord ep s s' a es \<Longrightarrow> routes s' = routes s \<or>
     (\<exists>urls. routes s' = RegisterEndpoint (routes s) (ep_Name ep) (ms_Source (eps_Model (ep_Spec ep))) urls)"
  by (cases a) (auto simp: synced_def)

text \<open>
  C12: The handlers refine the transition system: a chat request that runs undisturbed is a run of
  request steps which starts and ends with the same requests in progress and ends in the router the
  handler leaves, and a sync of an endpoint is a run of sync steps in the same sense.
\<close>
theorem gateway_refines_steps:
  fixes s :: "('w, event, 'z) gw_scheme"
  shows "wp (handleChatCompletions E ord req) (\<lambda>_ s'. (requestStep ord)\<^sup>*\<^sup>*
       \<lparr>g_router = routes s, g_requests = R, g_sync = y\<rparr> \<lparr>g_router = routes s', g_requests = R, g_sync = y\<rparr>) s \<and>
    wp (SyncEndpoint E ord ep) (\<lambda>_ s'. (syncStep ep)\<^sup>*\<^sup>*
       \<lparr>g_router = routes s, g_requests = R, g_sync = Idle\<rparr> \<lparr>g_router = routes s', g_requests = R, g_sync = Idle\<rparr>) s"
proof
  show "wp (handleChatCompletions E ord req) (\<lambda>_ s'. (requestStep ord)\<^sup>*\<^sup>*
       \<lparr>g_router = routes s, g_requests = R, g_sync = y\<rparr> \<lparr>g_router = routes s', g_requests = R, g_sync = y\<rparr>) s"
    using request_run [of ord "routes s" "unmarshalModel (rq_Body req)"]
    by (auto simp: handleChatCompletions_def onRouter_def Let_def wp split_beta
        intro!: wp_mono [OF wp_proxyChat] split: option.split)
  show "wp (SyncEndpoint E ord ep) (\<lambda>_ s'. (syncStep ep)\<^sup>*\<^sup>*
       \<lparr>g_router = routes s, g_requests = R, g_sync = Idle\<rparr> \<lparr>g_router = routes s', g_requests = R, g_sync = Idle\<rparr>) s"
    by (rule wp_mono [OF wp_SyncEndpoint]) (auto simp: sync_run dest!: synced_routes)
qed

section \<open>Witnesses\<close>

definition oneEndpoint :: gsys where
  "oneEndpoint = gstart\<lparr>g_router := RegisterEndpoint [] ''e'' [] [''http://10.0.0.1:8000'']\<rparr>"

text \<open>A gateway with one replica registered and one request queued.\<close>

definition oneQueued :: gsys where
  "oneQueued = oneEndpoint\<lparr>g_router := IncQueue (g_router oneEndpoint) ''e'', g_requests := {#Queued ''e''#}\<rparr>"

text \<open>The history of one request that was picked for, answered, and has left.\<close>

definition oneAnswered :: gsys where
  "oneAnswered = oneEndpoint\<lparr>g_router := DecQueue (snd (PickReplica (g_router oneQueued) ''e'')) ''e''\<rparr>"

abbreviation syncHistory :: "label list" where
  "syncHistory \<equiv> [Decide scaledEndpoint (clampReplicas scaledEndpoint 0), ReadInFlight scaledEndpoint, Register scaledEndpoint]"

lemma oneEndpoint_history: "ghistory syncHistory oneEndpoint"
proof -
  let ?s = "oneEndpoint\<lparr>g_sync := Registered scaledEndpoint\<rparr>"
  let ?s' = "oneEndpoint\<lparr>g_sync := HasInFlight scaledEndpoint 0\<rparr>"
  have n: "ep_Name scaledEndpoint = ''e''" by (simp add: scaledEndpoint_def zeroEndpoint_def)
  have "gstep (Register scaledEndpoint) gstart ?s"
    using gstep.register [of gstart scaledEndpoint "[''http://10.0.0.1:8000'']"]
    by (simp add: gstart_def oneEndpoint_def scaledEndpoint_def zeroEndpoint_def)
  moreover have "gstep (ReadInFlight scaledEndpoint) ?s ?s'"
    using gstep.read [of ?s scaledEndpoint] by (simp add: n oneEndpoint_def)
  moreover have "gstep (Decide scaledEndpoint (clampReplicas scaledEndpoint 0)) ?s' oneEndpoint"
    using gstep.decide [of ?s' scaledEndpoint 0, OF _ refl] by (simp add: n oneEndpoint_def gstart_def)
  ultimately show ?thesis by (intro ghistory.step) (auto intro: ghistory.start)
qed

lemma oneQueued_history: "ghistory (Work # Arrive rev # syncHistory) oneQueued"
proof -
  let ?s = "oneEndpoint\<lparr>g_requests := {#Chosen ''e''#}\<rparr>"
  have "\<exists>ep. PickEndpointByModel rev (g_router oneEndpoint) ''e'' = Some ep \<and> est_Name ep = ''e''"
    by (simp add: PickEndpointByModel_def endpointsIn_def oneEndpoint_def RegisterEndpoint_def)
  then have "gstep (Arrive rev) oneEndpoint ?s"
    using gstep.choose [of rev oneEndpoint "''e''"] by (auto simp: oneEndpoint_def gstart_def)
  moreover have "gstep Work ?s oneQueued"
    using gstep.enqueue [of ?s "''e''" "{#}"] by (simp add: oneQueued_def)
  ultimately show ?thesis using oneEndpoint_history by (blast intro: ghistory.step)
qed

lemma oneAnswered_history: "ghistory (Work # Work # Pick ''e'' True # Work # Arrive rev # syncHistory) oneAnswered"
proof -
  let ?r = "snd (PickReplica (g_router oneQueued) ''e'')" and ?url = "''http://10.0.0.1:8000''"
  have p: "PickReplica (g_router oneQueued) ''e'' = (?url, ?r)" "urlsOf (g_router oneQueued) ''e'' \<noteq> []"
    by (simp_all add: oneQueued_def oneEndpoint_def PickReplica_def RegisterEndpoint_def IncQueue_def urlsOf_def)
  have "gstep (Pick ''e'' True) oneQueued (oneQueued\<lparr>g_router := ?r, g_requests := {#Proxying ''e'' ?url#}\<rparr>)"
    using gstep.picked [of oneQueued "''e''" "{#}" ?url ?r] p by (simp add: oneQueued_def)
  moreover have "gstep Work (oneQueued\<lparr>g_router := ?r, g_requests := {#Proxying ''e'' ?url#}\<rparr>)
      (oneQueued\<lparr>g_router := ?r, g_requests := {#Leaving ''e''#}\<rparr>)"
    using gstep.answer [of "oneQueued\<lparr>g_router := ?r, g_requests := {#Proxying ''e'' ?url#}\<rparr>" "''e''" ?url "{#}"] by simp
  moreover have "gstep Work (oneQueued\<lparr>g_router := ?r, g_requests := {#Leaving ''e''#}\<rparr>) oneAnswered"
    using gstep.leave [of "oneQueued\<lparr>g_router := ?r, g_requests := {#Leaving ''e''#}\<rparr>" "''e''" "{#}"]
    by (simp add: oneAnswered_def oneQueued_def oneEndpoint_def gstart_def)
  ultimately show ?thesis using oneQueued_history by (blast intro: ghistory.step)
qed

lemma history_reach: "ghistory h s \<Longrightarrow> greach s"
  by (induction rule: ghistory.induct) (auto intro: greach.intros)

theorem queue_depth_sound_witness:
  "0 \<le> QueueDepth (g_router oneQueued) ''e'' \<and> QueueDepth (g_router oneQueued) ''e'' \<le> int (holders oneQueued ''e'') \<and>
   holders oneQueued ''e'' = 1"
  using queue_depth_sound [OF history_reach [OF oneQueued_history], of "''e''"] by (simp add: holders_def oneQueued_def)

text \<open>Nobody is being served any more, and the counter is one.\<close>

theorem in_flight_counts_picks_witness:
  "g_requests oneAnswered = {#} \<and> proxying oneAnswered ''e'' = 0 \<and> InFlight (g_router oneAnswered) ''e'' = 1"
  using in_flight_counts_picks [OF oneAnswered_history, of "''e''"]
  by (simp add: oneAnswered_def oneEndpoint_def gstart_def proxying_def scaledEndpoint_def zeroEndpoint_def)

end
