(* ===== verification/Node_Agent.thy ===== *)
theory Node_Agent
  imports Kube "HOL-Library.Sublist"
begin

text \<open>
  \<open>internal/nodeagent/cachefill\<close> and the image list of \<open>cmd/coda-node-agent\<close>: the daemon that pulls
  images on a buffered node and prefetches Nydus blobs.  The tools it runs, the file system and the
  container runtime are external calls.
\<close>

section \<open>Image references\<close>

definition isNydusOCIImage :: "string \<Rightarrow> bool" where
  "isNydusOCIImage img = Contains img ''-nydus''"

text \<open>Repository, tag or digest, and whether there is one.\<close>

definition splitImageRef :: "string \<Rightarrow> string \<times> string \<times> bool" where
  "splitImageRef img =
     (let i = LastIndex img (CHR ''@'')
      in if 0 \<le> i then (take (nat i) img, drop (nat (i + 1)) img, True)
         else
           let colon = LastIndex img (CHR '':'');
               slash = LastIndex img (CHR ''/'')
           in if colon \<le> slash then ([], [], False)
              else (take (nat colon) img, drop (nat (colon + 1)) img, True))"

section \<open>Pulling\<close>

definition hostCommand :: "string list \<Rightarrow> string list" where
  "hostCommand args = [''nsenter'', ''-t'', ''1'', ''-m'', ''-u'', ''-i'', ''-n''] @ args"

text \<open>The tests on the output of \<open>crictl images\<close>.\<close>

definition listsImage :: "string \<Rightarrow> string \<Rightarrow> bool" where
  "listsImage out img =
     (case splitImageRef img of (repo, tag, ok) \<Rightarrow>
        if list_ex (\<lambda>line. let fields = Fields line
                            in 2 \<le> length fields \<and> ok \<and> fields ! 0 = repo \<and> fields ! 1 = tag) (Split out newline)
        then True
        else if Contains out img then True
        else let idx = LastIndex img (CHR ''/'')
             in if 0 \<le> idx then Contains out (drop (nat (idx + 1)) img) else False)"

definition imagePresent :: "'w env \<Rightarrow> string \<Rightarrow> ('w, 'z, bool) io" where
  "imagePresent E img = do {
     e1 \<leftarrow> kLookPath E ''nsenter'';
     argv \<leftarrow> (if e1 = None then ret (Some (hostCommand [''crictl'', ''images'']))
              else do {
                e2 \<leftarrow> kLookPath E ''crictl'';
                ret (if e2 = None then Some [''crictl'', ''images''] else None)
              });
     case argv of
       None \<Rightarrow> ret False
     | Some cmd \<Rightarrow> do {
         r \<leftarrow> kCommandOutput E cmd;
         ret (case r of Inl err \<Rightarrow> False | Inr out \<Rightarrow> listsImage out img)
       }
   }"

text \<open>Run a command if its program is on the path; whether it succeeded.\<close>

definition tryTool :: "'w env \<Rightarrow> string \<Rightarrow> string list \<Rightarrow> ('w, 'z, bool) io" where
  "tryTool E tool cmd = do {
     e \<leftarrow> kLookPath E tool;
     if e = None then do { r \<leftarrow> kRunCommand E cmd; ret (r = None) } else ret False
   }"

definition pullFullBlob :: "'w env \<Rightarrow> string \<Rightarrow> ('w, 'z, goerror option) io" where
  "pullFullBlob E img =
     (if isNydusOCIImage img then ret None
      else do {
        present \<leftarrow> imagePresent E img;
        if present then ret None
        else do {
          ok1 \<leftarrow> tryTool E ''nsenter'' (hostCommand [''crictl'', ''pull'', img]);
          if ok1 then ret None
          else do {
            ok2 \<leftarrow> tryTool E ''crictl'' [''crictl'', ''pull'', img];
            if ok2 then ret None
            else do {
              e \<leftarrow> kLookPath E ''ctr'';
              if e \<noteq> None
              then ret (Some (EMsg (''image '' @ img @ '' not present and no pull tool succeeded'')))
              else kRunCommand E [''ctr'', ''-n'', ''k8s.io'', ''images'', ''pull'', img]
            }
          }
        }
      })"

section \<open>Prefetching\<close>

definition isLocalPrefetchSource :: "'w env \<Rightarrow> string \<Rightarrow> ('w, 'z, bool) io" where
  "isLocalPrefetchSource E img =
     (if HasPrefix img ''/'' then ret True
      else do { e \<leftarrow> kStat E img; ret (e = None) })"

definition cacheDir :: string where
  "cacheDir = ''/var/cache/opencoda/nydus''"

text \<open>\<open>filepath.Join\<close> of the directory and a name without slashes that is not a dot or two.\<close>

definition cacheFile :: "string \<Rightarrow> string \<Rightarrow> string" where
  "cacheFile img suf = cacheDir @ ''/'' @ ReplaceAll img (CHR ''/'') (CHR ''_'') @ suf"

definition warmNydusPrefetch :: "'w env \<Rightarrow> string \<Rightarrow> ('w, 'z, goerror option) io" where
  "warmNydusPrefetch E img =
     (if isNydusOCIImage img then ret None
      else do {
        e \<leftarrow> kLookPath E ''nydus-image'';
        if e \<noteq> None then ret None
        else do {
          isLocal \<leftarrow> isLocalPrefetchSource E img;
          if \<not> isLocal then ret None
          else do {
            _ \<leftarrow> kMkdirAll E cacheDir;
            kRunCommand E [''nydus-image'', ''create'', ''--bootstrap'', cacheFile img ''.bootstrap'',
              ''--blob'', cacheFile img ''.blob'', img]
          }
        }
      })"

section \<open>The daemon\<close>

fun fillImages :: "'w env \<Rightarrow> string list \<Rightarrow> ('w, 'z, unit) io" where
  "fillImages E [] = ret ()"
| "fillImages E (img # imgs) = do {
     e \<leftarrow> pullFullBlob E img;
     (if e \<noteq> None then ret () else do { _ \<leftarrow> warmNydusPrefetch E img; ret () });
     fillImages E imgs
   }"

definition defaultImages :: "string list" where
  "defaultImages = [''ghcr.io/immanuel-peter/opencoda-fakevllm:latest'']"

text \<open>\<open>Run\<close> up to where it waits for the context to end.\<close>

definition cachefill_Run :: "'w env \<Rightarrow> string list \<Rightarrow> ('w, 'z, unit) io" where
  "cachefill_Run E imgs = fillImages E (if imgs = [] then defaultImages else imgs)"

definition imageList :: "string \<Rightarrow> string list" where
  "imageList flag = (if flag = [] then [] else Split flag (CHR '',''))"

section \<open>Properties of image references\<close>

lemma take_drop_mid: "i < length s \<Longrightarrow> take i s @ s ! i # drop (Suc i) s = s"
  by (simp add: id_take_nth_drop [symmetric])

lemma LastIndex_nth: "0 \<le> LastIndex s c \<Longrightarrow> s ! nat (LastIndex s c) = c"
proof (induction s)
  case (Cons x s)
  then show ?case
    using LastIndex_ge [of s c] by (auto simp: Let_def nat_add_distrib split: if_splits)
qed simp

lemma LastIndex_split:
  assumes "0 \<le> LastIndex s c"
  shows "take (nat (LastIndex s c)) s @ c # drop (nat (LastIndex s c + 1)) s = s"
proof -
  have "nat (LastIndex s c) < length s" using LastIndex_less [of s c] assms by simp
  then show ?thesis
    using take_drop_mid [of "nat (LastIndex s c)" s] LastIndex_nth [OF assms] assms by (simp add: nat_add_distrib)
qed

lemma LastIndex_after:
  assumes "0 \<le> LastIndex s c"
  shows "c \<notin> set (drop (nat (LastIndex s c + 1)) s)"
  using assms
proof (induction s)
  case (Cons x s)
  then show ?case
    using LastIndex_ge [of s c] LastIndex_none [of s c] by (auto simp: Let_def nat_add_distrib split: if_splits)
qed simp

lemma LastIndex_negative:
  assumes "LastIndex s c < 0"
  shows "c \<notin> set s"
proof -
  have "LastIndex s c = -1" using assms LastIndex_ge [of s c] by linarith
  then show ?thesis using LastIndex_none by blast
qed

lemma LastIndex_append:
  "LastIndex (s @ t) c = (if c \<in> set t then int (length s) + LastIndex t c else LastIndex s c)"
proof (induction s)
  case Nil
  show ?case using LastIndex_none [of t c] by simp
next
  case (Cons x s)
  have "c \<in> set t \<Longrightarrow> 0 \<le> LastIndex t c" using LastIndex_ge [of t c] LastIndex_none [of t c] by linarith
  then show ?case using Cons by (auto simp: Let_def)
qed

text \<open>
  An image reference is split at its last \<open>@\<close> if it has one, and else at its last colon if no slash
  comes after it, so that a registry's port is not taken for a tag: putting the parts together
  again gives the reference; and no tag is found only where there is no \<open>@\<close> and every colon has a
  slash after it.
\<close>
theorem splitImageRef_correct:
  "case splitImageRef img of (repo, tag, ok) \<Rightarrow>
     if ok then (img = repo @ ''@'' @ tag \<and> CHR ''@'' \<notin> set tag) \<or>
                (img = repo @ '':'' @ tag \<and> CHR '':'' \<notin> set tag \<and> CHR ''/'' \<notin> set tag \<and> CHR ''@'' \<notin> set img)
     else CHR ''@'' \<notin> set img \<and> \<not> (\<exists>r t. img = r @ '':'' @ t \<and> CHR ''/'' \<notin> set t)"
proof -
  let ?i = "LastIndex img (CHR ''@'')" and ?c = "LastIndex img (CHR '':'')" and ?s = "LastIndex img (CHR ''/'')"
  consider "0 \<le> ?i" | "?i < 0" "?c \<le> ?s" | "?i < 0" "?s < ?c" by linarith
  then show ?thesis
  proof cases
    case 1
    then show ?thesis
      using LastIndex_split [OF 1] LastIndex_after [OF 1] by (auto simp: splitImageRef_def Let_def)
  next
    case 2
    have "CHR ''@'' \<notin> set img" using LastIndex_negative [OF 2(1)] .
    moreover have "False" if "img = r @ '':'' @ t" "CHR ''/'' \<notin> set t" for r t
    proof -
      have "int (length r) \<le> ?c" using that(1) LastIndex_append [of r "'':'' @ t"] LastIndex_ge [of t "CHR '':''"]
        by (auto simp: Let_def)
      moreover have "?s < int (length r)"
        using that LastIndex_append [of r "'':'' @ t" "CHR ''/''"] LastIndex_less [of r "CHR ''/''"] by auto
      ultimately show False using 2 by simp
    qed
    ultimately show ?thesis using 2 by (auto simp: splitImageRef_def Let_def)
  next
    case 3
    then have c: "0 \<le> ?c" using LastIndex_ge [of img "CHR ''/''"] by linarith
    have noat: "CHR ''@'' \<notin> set img" using LastIndex_negative [OF 3(1)] .
    let ?r = "take (nat ?c) img" and ?t = "drop (nat (?c + 1)) img"
    have img: "img = ?r @ '':'' @ ?t" using LastIndex_split [OF c] by simp
    have "CHR ''/'' \<notin> set ?t"
    proof
      assume "CHR ''/'' \<in> set ?t"
      then have "0 \<le> LastIndex ?t (CHR ''/'')" using LastIndex_negative [of ?t "CHR ''/''"] by force
      then have "int (length ?r) < LastIndex (?r @ '':'' @ ?t) (CHR ''/'')"
        using LastIndex_append [of "?r @ '':''" ?t "CHR ''/''"] \<open>CHR ''/'' \<in> set ?t\<close> by simp
      then show False using img 3 c LastIndex_less [of img "CHR '':''"] by simp
    qed
    then show ?thesis
      using 3 img noat LastIndex_after [OF c] by (auto simp: splitImageRef_def Let_def)
  qed
qed

section \<open>Properties of the daemon\<close>

fun runEv :: "event \<Rightarrow> (string list \<times> goerror option) option" where
  "runEv (RunCommand cmd r) = Some (cmd, r)"
| "runEv e = None"

fun outputEv :: "event \<Rightarrow> (goerror + string) option" where
  "outputEv (CommandOutput cmd r) = Some r"
| "outputEv e = None"

definition pullCommands :: "string \<Rightarrow> string list list" where
  "pullCommands img = [hostCommand [''crictl'', ''pull'', img], [''crictl'', ''pull'', img],
     [''ctr'', ''-n'', ''k8s.io'', ''images'', ''pull'', img]]"

text \<open>The commands of a run all failed, but for the last one of a run that succeeded.\<close>

definition triedUntil :: "bool \<Rightarrow> (string list \<times> goerror option) list \<Rightarrow> bool" where
  "triedUntil ok runs \<longleftrightarrow>
     (if ok then runs \<noteq> [] \<and> snd (last runs) = None \<and> list_all (\<lambda>(_, r). r \<noteq> None) (butlast runs)
      else list_all (\<lambda>(_, r). r \<noteq> None) runs)"

lemma emits_imagePresent:
  "emits (imagePresent E img) (\<lambda>p es. select runEv es = [] \<and>
     (p \<longleftrightarrow> (\<exists>out. select outputEv es = [Inr out] \<and> listsImage out img)))"
  unfolding imagePresent_def
  by (rule emits_ext_bind, rule emits_bind_fixed
      [where P = "\<lambda>_ es. select runEv es = [] \<and> select outputEv es = []"])
    (auto intro!: emits split: sum.splits)

lemma emits_tryTool:
  "emits (tryTool E tool cmd) (\<lambda>ok es. select outputEv es = [] \<and>
     (if ok then select runEv es = [(cmd, None)] else select runEv es = [] \<or> (\<exists>err. select runEv es = [(cmd, Some err)])))"
  unfolding tryTool_def by (auto intro!: emits)

text \<open>
  A pull is skipped, without an error, exactly for Nydus images and for images the runtime lists.
  Otherwise the pull commands are tried in the order host crictl, crictl, ctr, each at most once, until
  one succeeds, and the result is an error exactly if none did.
\<close>
theorem pull_tries_tools:
  "emits (pullFullBlob E img) (\<lambda>r es.
     if isNydusOCIImage img then r = None \<and> es = []
     else if \<exists>out. select outputEv es = [Inr out] \<and> listsImage out img then r = None \<and> select runEv es = []
     else subseq (map fst (select runEv es)) (pullCommands img) \<and> triedUntil (r = None) (select runEv es))"
proof (cases "isNydusOCIImage img")
  case True
  then show ?thesis by (simp add: pullFullBlob_def emits_return)
next
  case False
  show ?thesis
    unfolding pullFullBlob_def if_not_P [OF False]
    by (intro emits_bind_fixed [OF emits_imagePresent] emits_bind_fixed [OF emits_tryTool] emits)
      (auto simp: triedUntil_def pullCommands_def hostCommand_def)
qed

text \<open>
  A prefetch runs at most one command, and what it writes is a file directly in the cache directory,
  whatever the image is called.
\<close>

lemma emits_isLocal: "emits (isLocalPrefetchSource E img) (\<lambda>_ es. select runEv es = [])"
  unfolding isLocalPrefetchSource_def by (auto intro!: emits)

lemma prefetch_confined:
  "emits (warmNydusPrefetch E img) (\<lambda>r es. length (select runEv es) \<le> 1 \<and>
     list_all (\<lambda>(cmd, _). \<exists>b. CHR ''/'' \<notin> set b \<and> cmd = [''nydus-image'', ''create'',
       ''--bootstrap'', cacheDir @ ''/'' @ b @ ''.bootstrap'', ''--blob'', cacheDir @ ''/'' @ b @ ''.blob'', img]) (select runEv es))"
proof -
  have "CHR ''/'' \<notin> set (ReplaceAll img (CHR ''/'') (CHR ''_''))" by (auto simp: ReplaceAll_def)
  then have cmd: "\<exists>b. CHR ''/'' \<notin> set b \<and> cacheFile img ''.bootstrap'' = cacheDir @ ''/'' @ b @ ''.bootstrap'' \<and>
      cacheFile img ''.blob'' = cacheDir @ ''/'' @ b @ ''.blob''"
    by (auto simp: cacheFile_def)
  show ?thesis
    unfolding warmNydusPrefetch_def
    by (intro emits_if emits_return emits_ext_bind emits_ext emits_bind_fixed [OF emits_isLocal]) (use cmd in auto)
qed

text \<open>
  The listing test takes an image for present as soon as the part after its last slash occurs
  anywhere in the listing, in another image's name for one.
\<close>

lemma Contains_append: "HasPrefix t sub \<Longrightarrow> Contains (pre @ t) sub"
proof (induction pre)
  case Nil
  then show ?case by (cases t) (auto simp: HasPrefix_def)
next
  case (Cons c pre)
  then show ?case by simp
qed

lemma listsImage_suffix:
  assumes "CHR ''/'' \<notin> set name"
  shows "listsImage (pre @ name @ post) (dir @ ''/'' @ name)"
proof -
  have "LastIndex (dir @ ''/'' @ name) (CHR ''/'') = int (length dir)" using LastIndex_last [OF assms] by simp
  then have "drop (nat (LastIndex (dir @ ''/'' @ name) (CHR ''/'') + 1)) (dir @ ''/'' @ name) = name"
    by (simp add: nat_add_distrib)
  then show ?thesis
    using Contains_append [of "name @ post" name pre] LastIndex_last [OF assms, of dir]
    by (auto simp: listsImage_def Let_def split: prod.split)
qed

end
