(* ===== verification/Webhook.thy ===== *)
theory Webhook
  imports Endpoint_Controller
begin

text \<open>
  \<open>internal/webhook\<close>: the admission check of \<open>CodaEndpoint\<close> objects.  Decoding the request is the
  framework's: the handler gets its answer.
\<close>

datatype AdmissionResponse =
    Errored int goerror
  | Denied string
  | Allowed string

definition webhook_Handle :: "goerror + CodaEndpoint \<Rightarrow> AdmissionResponse" where
  "webhook_Handle decoded =
     (case decoded of
        Inl err \<Rightarrow> Errored 400 err
      | Inr ep \<Rightarrow>
          let runtimeClass = (if rt_Class (eps_Runtime (ep_Spec ep)) = [] then ''runc''
                              else rt_Class (eps_Runtime (ep_Spec ep)))
          in if eps_Snapshot (ep_Spec ep) \<noteq> None \<and> runtimeClass \<noteq> ''runc''
             then Denied (''SnapshotClass requires runtime.class=runc, got '' @ Quote runtimeClass)
             else if es_Type (eps_Engine (ep_Spec ep)) \<noteq> [] \<and> es_Type (eps_Engine (ep_Spec ep)) \<noteq> ''vllm''
             then Denied (''engine type '' @ Quote (es_Type (eps_Engine (ep_Spec ep))) @ '' not supported in v1 (only vllm)'')
             else Allowed ''ok'')"

definition admitted :: "CodaEndpoint \<Rightarrow> bool" where
  "admitted ep \<longleftrightarrow> webhook_Handle (Inr ep) = Allowed ''ok''"

lemma admitted_iff:
  "admitted ep \<longleftrightarrow>
     (eps_Snapshot (ep_Spec ep) = None \<or> rt_Class (eps_Runtime (ep_Spec ep)) \<in> {[], ''runc''}) \<and>
     es_Type (eps_Engine (ep_Spec ep)) \<in> {[], ''vllm''}"
  by (auto simp: admitted_def webhook_Handle_def Let_def)

lemma vllm_valid: "ValidateEngineType ''vllm'' = None"
  by code_simp

lemma empty_invalid: "ValidateEngineType [] \<noteq> None"
  by (simp add: ValidateEngineType_def ToLower_def EngineName_def)

lemma emits_desired_any: "emits (desiredReplicas E ep) (\<lambda>_ _. True)"
  unfolding desiredReplicas_def Let_def
  by (auto intro!: emits emits_bind [where P = "\<lambda>_ _. True"] split: option.split)

text \<open>
  C39: The webhook admits exactly the endpoints that take a snapshot only under \<open>runc\<close>, the default, and
  name the engine \<open>vllm\<close> or none.  Of these the endpoint controller can build pods for those that
  name it; one that names none, which the webhook lets through as a default, is read and then
  ignored by every reconciliation.
\<close>
theorem admission_engine:
  "(admitted ep \<longleftrightarrow>
      (eps_Snapshot (ep_Spec ep) = None \<or> rt_Class (eps_Runtime (ep_Spec ep)) \<in> {[], ''runc''}) \<and>
      es_Type (eps_Engine (ep_Spec ep)) \<in> {[], ''vllm''}) \<and>
   (if admitted ep
    then ((\<exists>ps. podSpecFor cfg ep = Inr ps) \<longleftrightarrow> es_Type (eps_Engine (ep_Spec ep)) \<noteq> [])
    else True) \<and>
   emits (endpoint_Reconcile cfg E ns name) (\<lambda>r es. \<exists>a es'. es = Kube (GetEndpoint ns name a) # es' \<and>
     (case a of
        Inl err \<Rightarrow> es' = []
      | Inr ep' \<Rightarrow> if es_Type (eps_Engine (ep_Spec ep')) = [] then es' = [] \<and> r = (0, None) else True))"
proof (intro conjI)
  show "admitted ep \<longleftrightarrow>
      (eps_Snapshot (ep_Spec ep) = None \<or> rt_Class (eps_Runtime (ep_Spec ep)) \<in> {[], ''runc''}) \<and>
      es_Type (eps_Engine (ep_Spec ep)) \<in> {[], ''vllm''}"
    by (rule admitted_iff)
  have "(\<exists>ps. podSpecFor cfg ep = Inr ps) \<longleftrightarrow> es_Type (eps_Engine (ep_Spec ep)) = ''vllm''"
    by (auto simp: podSpecFor_def Engines_get EngineName_def selectKV_eq kv_RenderPodPatch_def RenderPodSpec_def
        lmcache_RenderPodPatch_def Let_def split: option.split)
  then show "if admitted ep then (\<exists>ps. podSpecFor cfg ep = Inr ps) \<longleftrightarrow> es_Type (eps_Engine (ep_Spec ep)) \<noteq> [] else True"
    by (auto simp: admitted_iff)
  show "emits (endpoint_Reconcile cfg E ns name) (\<lambda>r es. \<exists>a es'. es = Kube (GetEndpoint ns name a) # es' \<and>
     (case a of
        Inl err \<Rightarrow> es' = []
      | Inr ep' \<Rightarrow> if es_Type (eps_Engine (ep_Spec ep')) = [] then es' = [] \<and> r = (0, None) else True))"
    unfolding endpoint_Reconcile_def
    by (rule emits_ext_bind) (auto intro!: emits emits_bind [OF emits_desired_any] emits_mono [OF emits_reconcileReplicas]
        simp: empty_invalid split: option.split)
qed

end
