(* ===== verification/Cli.thy ===== *)
theory Cli
  imports Gateway
begin

text \<open>
  \<open>cli/\<close>: the \<open>RunE\<close> functions of the commands of \<open>coda\<close>.  A command returns its error and the lines
  it prints.  Flag parsing is cobra's; the flags are arguments here.
\<close>

type_synonym commandResult = "goerror option \<times> string list"

section \<open>Stubs\<close>

definition DeployCmd :: commandResult where
  "DeployCmd = (None, [''coda deploy: apply CodaEndpoint CR via gateway (stub)''])"

definition LogsCmd :: commandResult where
  "LogsCmd = (None, [''coda logs: stream from Loki via gateway (stub)''])"

definition ScaleCmd :: commandResult where
  "ScaleCmd = (None, [''coda scale: patch scaling annotation (stub)''])"

section \<open>token new\<close>

definition defaultTokenID :: "int \<Rightarrow> string \<Rightarrow> string" where
  "defaultTokenID pid tokenID = (if tokenID = [] then ''token-'' @ Itoa pid else tokenID)"

text \<open>\<open>cfgErr\<close> and \<open>clientErr\<close> are the answers of \<open>config.GetConfig\<close> and \<open>client.New\<close>.\<close>

definition tokenNewCmd ::
  "'w env \<Rightarrow> int \<Rightarrow> goerror option \<Rightarrow> goerror option \<Rightarrow> string \<Rightarrow> string \<Rightarrow> ('w, 'z, commandResult) io" where
  "tokenNewCmd E pid cfgErr clientErr namespace tokenID =
     (if cfgErr \<noteq> None then ret (cfgErr, [])
      else if clientErr \<noteq> None then ret (clientErr, [])
      else do {
        r \<leftarrow> gateway_CreateToken E namespace (defaultTokenID pid tokenID);
        ret (case r of Inl err \<Rightarrow> (Some err, []) | Inr pair \<Rightarrow> (None, [pair]))
      })"

section \<open>image convert\<close>

text \<open>\<open>path\<close> is the path \<open>exec.LookPath\<close> found.\<close>

definition ConvertImage :: "'w env \<Rightarrow> string \<Rightarrow> string \<Rightarrow> string \<Rightarrow> ('w, 'z, goerror option) io" where
  "ConvertImage E path source target =
     (if source = [] \<or> target = [] then ret (Some (EMsg ''--source and --target required''))
      else do {
        e \<leftarrow> kLookPath E ''nydusify'';
        if e \<noteq> None
        then ret (Some (EMsg ''nydusify not found in PATH: install from dragonflyoss/nydus releases''))
        else kRunCommand E [path, ''convert'', ''--source'', source, ''--target'', target]
      })"

section \<open>Properties\<close>

lemma defaultTokenID_no_colon: "CHR '':'' \<notin> set (defaultTokenID pid [])"
  by (simp add: defaultTokenID_def Itoa_not_in isDigit_def)

text \<open>
  The command prints at most one line; it does so exactly when the token was stored, and a printed
  pair of a token with a default id is one that every check accepts that finds the token.
\<close>

lemma tokenNew_default_accepted:
  "emits (tokenNewCmd E pid cfgErr clientErr namespace []) (\<lambda>(e, out) es.
     (e = None \<longleftrightarrow> out \<noteq> []) \<and>
     (e = None \<longrightarrow> (\<exists>secret t. select createTokenEv es = [(t, None)] \<and>
        out = [defaultTokenID pid [] @ '':'' @ secret] \<and> pairAccepted E t (defaultTokenID pid []) secret)))"
  unfolding tokenNewCmd_def gateway_CreateToken_def Let_def bind_assoc
  by (intro emits) (auto intro!: emits_return pairAcceptedI [OF defaultTokenID_no_colon] split: option.split)

text \<open>A conversion needs both flags, and runs one command at most.\<close>

lemma convert_runs_once:
  "emits (ConvertImage E path source target) (\<lambda>e es.
     list_all (\<lambda>ev. (\<exists>r. ev = LookPath ''nydusify'' r) \<or>
       (source \<noteq> [] \<and> target \<noteq> [] \<and>
        ev = RunCommand [path, ''convert'', ''--source'', source, ''--target'', target] e)) es \<and>
     length es \<le> 2)"
  unfolding ConvertImage_def by (intro emits) auto

end
