(* ===== verification/Entry_Points.thy ===== *)
theory Entry_Points
  imports Manager Gateway_Steps Node_Agent Webhook Cli
begin

text \<open>
  The other programs of \<open>cmd/\<close> and what they put together.  The parts of the gateway hold pointers to
  each other; a pointer is an index into the objects of its kind, so that sharing is visible: the
  concurrent model of the gateway has one router because \<open>main\<close> wires one router into every part.
\<close>

section \<open>The objects of the gateway\<close>

record Autoscaler =
  as_router :: nat
  as_ewma :: "(string \<times> float64) list"

record K8sSync =
  ks_router :: nat
  ks_autoscaler :: nat
  ks_idleSince :: "string \<rightharpoonup> gotime"
  ks_kvHits :: "(string \<times> float64) list"

text \<open>A validator holds nothing but the client; a \<open>TokenAuth\<close> has one or nil.\<close>

datatype TokenValidator = TokenValidator

record TokenAuth =
  ta_validator :: "TokenValidator option"

record Server =
  sv_router :: "nat option"
  sv_autoscaler :: nat
  sv_auth :: TokenAuth
  sv_addr :: string
  sv_kvSync :: "nat option"

record gwObjects =
  o_routers :: "Router list"
  o_autoscalers :: "Autoscaler list"
  o_syncs :: "K8sSync list"

definition NewRouter :: "(gwObjects, nat) state" where
  "NewRouter = State (\<lambda>h. (length (o_routers h), h\<lparr>o_routers := o_routers h @ [[]]\<rparr>))"

definition NewAutoscaler :: "nat \<Rightarrow> (gwObjects, nat) state" where
  "NewAutoscaler router = State (\<lambda>h. (length (o_autoscalers h),
     h\<lparr>o_autoscalers := o_autoscalers h @ [\<lparr>as_router = router, as_ewma = []\<rparr>]\<rparr>))"

definition NewK8sSync :: "nat \<Rightarrow> nat \<Rightarrow> (gwObjects, nat) state" where
  "NewK8sSync router autoscaler = State (\<lambda>h. (length (o_syncs h), h\<lparr>o_syncs := o_syncs h @
     [\<lparr>ks_router = router, ks_autoscaler = autoscaler, ks_idleSince = Map.empty, ks_kvHits = []\<rparr>]\<rparr>))"

definition NewTokenValidator :: TokenValidator where
  "NewTokenValidator = TokenValidator"

definition NewTokenAuth :: "TokenValidator option \<Rightarrow> TokenAuth" where
  "NewTokenAuth v = \<lparr>ta_validator = v\<rparr>"

text \<open>A new server has no router; its autoscaler is on one of its own.\<close>

definition NewServer :: "string \<Rightarrow> TokenAuth \<Rightarrow> (gwObjects, Server) state" where
  "NewServer addr auth = do {
     r \<leftarrow> NewRouter;
     a \<leftarrow> NewAutoscaler r;
     ret \<lparr>sv_router = None, sv_autoscaler = a, sv_auth = auth, sv_addr = addr, sv_kvSync = None\<rparr>
   }"

definition SetRouter :: "Server \<Rightarrow> nat \<Rightarrow> (gwObjects, Server) state" where
  "SetRouter s r = do {
     a \<leftarrow> NewAutoscaler r;
     ret (s\<lparr>sv_router := Some r, sv_autoscaler := a\<rparr>)
   }"

definition SetK8sSync :: "Server \<Rightarrow> nat \<Rightarrow> Server" where
  "SetK8sSync s k = s\<lparr>sv_kvSync := Some k\<rparr>"

section \<open>coda-gateway\<close>

text \<open>The server that is started and the syncer whose autoscaler loop is.\<close>

definition gateway_build :: "string \<Rightarrow> (gwObjects, Server \<times> nat) state" where
  "gateway_build addr = do {
     router \<leftarrow> NewRouter;
     autoscaler \<leftarrow> NewAutoscaler router;
     syncer \<leftarrow> NewK8sSync router autoscaler;
     let validator = NewTokenValidator;
     let auth = NewTokenAuth (Some validator);
     srv \<leftarrow> NewServer addr auth;
     srv \<leftarrow> SetRouter srv router;
     let srv = SetK8sSync srv syncer;
     ret (srv, syncer)
   }"

definition noObjects :: gwObjects where
  "noObjects = \<lparr>o_routers = [], o_autoscalers = [], o_syncs = []\<rparr>"

definition gatewayAddr :: string where
  "gatewayAddr = '':8090''"

definition autoscalerInterval :: duration where
  "autoscalerInterval = 10 * second"

text \<open>The calls that may fail; the first is the configuration with the manager built on it.\<close>

datatype gatewayStep = GatewayManager | GatewayServe | GatewayStart

text \<open>Every failure is fatal; serving and the manager run beside each other, so whichever fails ends the process.\<close>

definition gateway_main :: "(gatewayStep \<Rightarrow> goerror option) \<Rightarrow> string \<Rightarrow> (gwObjects, (Server \<times> nat) option \<times> int) state" where
  "gateway_main fails addr =
     (if fails GatewayManager \<noteq> None then ret (None, 1)
      else do {
        built \<leftarrow> gateway_build addr;
        ret (Some built, if fails GatewayServe \<noteq> None \<or> fails GatewayStart \<noteq> None then 1 else 0)
      })"

text \<open>How a server reads in the model of the handlers: which of its pointers are nil, and its router.\<close>

definition serverConfig :: "'w env \<Rightarrow> (string list \<Rightarrow> string list) \<Rightarrow> (float64 \<Rightarrow> string) \<Rightarrow>
    (Request \<Rightarrow> Response) \<Rightarrow> Server \<Rightarrow> 'w gwConfig" where
  "serverConfig E ord jf other srv = \<lparr>gc_Env = E, gc_Order = ord, gc_HasValidator = (ta_validator (sv_auth srv) \<noteq> None),
     gc_HasSync = (sv_kvSync srv \<noteq> None), gc_FloatJSON = jf, gc_Other = other\<rparr>"

text \<open>Everything that touches a router in a process with this server and this syncer: the pointers they hold.\<close>

definition routersOf :: "gwObjects \<Rightarrow> Server \<Rightarrow> nat \<Rightarrow> nat option list" where
  "routersOf h srv k = [sv_router srv, Some (as_router (o_autoscalers h ! sv_autoscaler srv)),
     Some (ks_router (o_syncs h ! k)), Some (as_router (o_autoscalers h ! ks_autoscaler (o_syncs h ! k)))]"

lemmas gateway_build_eval = gateway_build_def NewRouter_def NewAutoscaler_def NewK8sSync_def NewServer_def SetRouter_def
  SetK8sSync_def NewTokenAuth_def routersOf_def

text \<open>
  \<open>main\<close> of the gateway wires one router into every part that uses one: the server, its
  autoscaler, the syncer and the syncer's autoscaler; it is new and empty, the start of the concurrent
  system.  The server has a token validator, so no request but a health check gets past it without a
  token, and it has the syncer, so it reports hit rates.
\<close>
lemma gateway_wiring:
  "wp (gateway_build addr) (\<lambda>(srv, k) h. \<exists>r. routersOf h srv k = replicate 4 (Some r) \<and>
     o_routers h ! r = g_router gstart \<and> r = length (o_routers h0) \<and> sv_kvSync srv = Some k \<and>
     as_ewma (o_autoscalers h ! ks_autoscaler (o_syncs h ! k)) = [] \<and> ks_kvHits (o_syncs h ! k) = [] \<and>
     gc_HasValidator (serverConfig E ord jf other srv) \<and> gc_HasSync (serverConfig E ord jf other srv)) h0"
  by (simp add: gateway_build_eval wp_def serverConfig_def gstart_def nth_append numeral_eq_Suc)

section \<open>coda-node-agent\<close>

text \<open>
  \<open>Run\<close> waits for the end of the context and returns its error, \<open>ctxErr\<close>; \<open>main\<close> returns the exit code.
\<close>

definition agent_main :: "'w env \<Rightarrow> string \<Rightarrow> goerror option \<Rightarrow> ('w, 'z, int) io" where
  "agent_main E images ctxErr = do {
     cachefill_Run E (imageList images);
     let err = ctxErr;
     ret (if err \<noteq> None \<and> ctxErr = None then 1 else 0)
   }"

lemma agent_main_clean: "wp (agent_main E images ctxErr) (\<lambda>code _. code = 0) s"
  by (cases ctxErr) (simp_all add: agent_main_def wp wp_def split: prod.split)

section \<open>coda-webhook\<close>

definition validatorPath :: string where
  "validatorPath = ''/validate-opencoda-dev-v1alpha1-codaendpoint''"

text \<open>The handlers of the webhook server by path.\<close>

definition RegisterCodaEndpointValidator ::
  "(string \<rightharpoonup> goerror + CodaEndpoint \<Rightarrow> AdmissionResponse) \<Rightarrow> (string \<rightharpoonup> goerror + CodaEndpoint \<Rightarrow> AdmissionResponse)" where
  "RegisterCodaEndpointValidator server = server(validatorPath \<mapsto> webhook_Handle)"

text \<open>The calls that may fail; the first is the configuration with the manager built on it.\<close>

datatype webhookStep = WebhookManager | WebhookStart

text \<open>\<open>bindFlags\<close> is the method of the logging options; it is called without a flag set.\<close>

definition webhook_main ::
  "('fs option \<Rightarrow> unit outcome) \<Rightarrow> (webhookStep \<Rightarrow> goerror option) \<Rightarrow>
     ((string \<rightharpoonup> goerror + CodaEndpoint \<Rightarrow> AdmissionResponse) \<times> int) outcome" where
  "webhook_main bindFlags fails =
     (case bindFlags None of
        Panics m \<Rightarrow> Panics m
      | Returns _ \<Rightarrow>
          if fails WebhookManager \<noteq> None then Returns (Map.empty, 1)
          else Returns (RegisterCodaEndpointValidator Map.empty, if fails WebhookStart \<noteq> None then 1 else 0))"

text \<open>A server that came up answers at the one path as the validator does.\<close>

lemma webhook_served:
  "webhook_main bindFlags fails = Returns (srv, 0) \<Longrightarrow> srv = [validatorPath \<mapsto> webhook_Handle]"
  by (auto simp: webhook_main_def RegisterCodaEndpointValidator_def split: outcome.splits if_splits)

section \<open>coda\<close>

text \<open>A command: its use line, its flags with their defaults, and its subcommands.\<close>

datatype Command = Command (cmdUse: string) (cmdShort: string) (cmdFlags: "(string \<times> string) list") (cmdSubs: "Command list")

definition TokenCmd :: Command where
  "TokenCmd = Command ''token'' ''Manage CodaToken credentials'' []
     [Command ''new'' ''Create a CodaToken and print one-time id:secret pair'' [(''namespace'', ''default''), (''id'', [])] []]"

definition ImageConvertCmd :: Command where
  "ImageConvertCmd = Command ''image convert'' ''Convert OCI image to Nydus format'' [(''source'', []), (''target'', [])] []"

definition rootCmd :: Command where
  "rootCmd = Command ''coda'' ''OpenCoda CLI'' []
     [Command ''deploy'' ''Deploy a CodaEndpoint or CodaFunction'' [] [], Command ''logs'' ''Stream endpoint logs'' [] [],
      Command ''scale'' ''Scale an endpoint'' [] [], TokenCmd, ImageConvertCmd]"

text \<open>The name of a command is the first word of its use line; the names of the commands differ.\<close>

definition commandName :: "Command \<Rightarrow> string" where
  "commandName c = takeWhile (\<lambda>x. x \<noteq> CHR '' '') (cmdUse c)"

lemma rootCmd_names: "distinct (map commandName (cmdSubs rootCmd))"
  by (simp add: rootCmd_def TokenCmd_def ImageConvertCmd_def commandName_def)

text \<open>\<open>execute\<close> is cobra's run of the command the arguments select; what is printed on stderr, and the exit code.\<close>

definition coda_main :: "(Command \<Rightarrow> goerror option) \<Rightarrow> string list \<times> int" where
  "coda_main execute = (case execute rootCmd of Some err \<Rightarrow> ([ErrorText err], 1) | None \<Rightarrow> ([], 0))"

end
