(* ===== verification/Csv.thy ===== *)
theory Csv
  imports Go_Lib
begin

text \<open>
  The reader of \<open>encoding/csv\<close> with its default settings, as far as the price catalogue uses it:
  comma-separated fields, quoted fields with doubled quotes and line breaks, blank lines skipped,
  bare quotes and a changed number of fields as errors.  A reader is the data that is left and
  whether it will end in a read error instead of the end of the file.
\<close>

abbreviation (input) quote :: char where "quote \<equiv> CHR 0x22"
abbreviation (input) comma :: char where "comma \<equiv> CHR '',''"
abbreviation (input) CR :: char where "CR \<equiv> CHR 0x0D"

text \<open>Every line is read with \<open>\r\n\<close> as \<open>\n\<close>, and a carriage return at the very end is dropped.\<close>

fun normCR :: "string \<Rightarrow> string" where
  "normCR [] = []"
| "normCR [c] = (if c = CR then [] else [c])"
| "normCR (c # d # s) = (if c = CR \<and> d = newline then normCR (d # s) else c # normCR (d # s))"

datatype csvResult = CsvEOF | CsvErr | CsvRow "string list"

datatype fieldEnd = MoreFields | EndRecord | BadField

text \<open>The rest of the data after the current line.\<close>

definition skipLine :: "string \<Rightarrow> string" where
  "skipLine s = drop 1 (dropWhile (\<lambda>c. c \<noteq> newline) s)"

text \<open>A quoted field, after its opening quote.  Data that ends inside it is an error.\<close>

fun csvQuoted :: "bool \<Rightarrow> string \<Rightarrow> string \<Rightarrow> fieldEnd \<times> string \<times> string" where
  "csvQuoted bad [] acc = (BadField, acc, [])"
| "csvQuoted bad [c] acc = (if c = quote \<and> \<not> bad then (EndRecord, acc, []) else (BadField, acc, []))"
| "csvQuoted bad (c # d # s) acc =
     (if c \<noteq> quote then csvQuoted bad (d # s) (acc @ [c])
      else if d = quote then csvQuoted bad s (acc @ [quote])
      else if d = comma then (MoreFields, acc, s)
      else if d = newline then (EndRecord, acc, s)
      else (BadField, acc, skipLine (d # s)))"

text \<open>A field that does not start with a quote: up to the next comma or the end of the line.\<close>

definition csvPlain :: "bool \<Rightarrow> string \<Rightarrow> fieldEnd \<times> string \<times> string" where
  "csvPlain bad s =
     (let f = takeWhile (\<lambda>c. c \<noteq> comma \<and> c \<noteq> newline) s;
          t = dropWhile (\<lambda>c. c \<noteq> comma \<and> c \<noteq> newline) s
      in if quote \<in> set f then (BadField, f, skipLine t)
         else case t of
                [] \<Rightarrow> (if bad then BadField else EndRecord, f, [])
              | c # u \<Rightarrow> (if c = comma then MoreFields else EndRecord, f, u))"

definition csvField :: "bool \<Rightarrow> string \<Rightarrow> fieldEnd \<times> string \<times> string" where
  "csvField bad s = (case s of c # t \<Rightarrow> if c = quote then csvQuoted bad t [] else csvPlain bad s | [] \<Rightarrow> csvPlain bad s)"

lemma skipLine_length: "length (skipLine s) \<le> length s"
  using length_dropWhile_le [of "\<lambda>c. c \<noteq> newline" s] by (simp add: skipLine_def)

lemma csvQuoted_length: "csvQuoted bad s acc = (e, f, rest) \<Longrightarrow> length rest \<le> length s \<and> (e = MoreFields \<longrightarrow> length rest < length s)"
proof (induction bad s acc rule: csvQuoted.induct)
  case (3 bad c d s acc)
  then show ?case using skipLine_length [of "d # s"] by (auto split: if_splits)
qed (auto split: if_splits)

lemma csvPlain_length: "csvPlain bad s = (e, f, rest) \<Longrightarrow> length rest \<le> length s \<and> (e = MoreFields \<longrightarrow> length rest < length s)"
  using length_dropWhile_le [of "\<lambda>c. c \<noteq> comma \<and> c \<noteq> newline" s]
    skipLine_length [of "dropWhile (\<lambda>c. c \<noteq> comma \<and> c \<noteq> newline) s"]
  by (auto simp: csvPlain_def Let_def split: if_splits list.splits)

lemma csvField_length: "csvField bad s = (e, f, rest) \<Longrightarrow> length rest \<le> length s \<and> (e = MoreFields \<longrightarrow> length rest < length s)"
  using csvQuoted_length [of bad "tl s" "[]" e f rest] csvPlain_length [of bad s e f rest]
  by (auto simp: csvField_def split: list.splits if_splits)

function csvFields :: "bool \<Rightarrow> string \<Rightarrow> string list \<Rightarrow> csvResult \<times> string" where
  "csvFields bad s acc =
     (case csvField bad s of (e, f, rest) \<Rightarrow>
        (case e of
           MoreFields \<Rightarrow> csvFields bad rest (acc @ [f])
         | EndRecord \<Rightarrow> (CsvRow (acc @ [f]), rest)
         | BadField \<Rightarrow> (CsvErr, rest)))"
  by pat_completeness auto
termination
  by (relation "measure (\<lambda>(bad, s, acc). length s)") (auto dest: csvField_length [OF sym])

declare csvFields.simps [simp del]

definition csvRecord :: "bool \<Rightarrow> string \<Rightarrow> csvResult \<times> string" where
  "csvRecord bad s =
     (let s = dropWhile (\<lambda>c. c = newline) s
      in if s = [] then (if bad then CsvErr else CsvEOF, []) else csvFields bad s [])"

text \<open>
  One \<open>Read\<close>: the first record sets the number of fields (0 before it), a later record with another
  number is an error.
\<close>

definition csvRead :: "nat \<Rightarrow> bool \<Rightarrow> string \<Rightarrow> csvResult \<times> nat \<times> string" where
  "csvRead fpr bad s =
     (case csvRecord bad s of (r, rest) \<Rightarrow>
        (case r of
           CsvRow row \<Rightarrow>
             if 0 < fpr \<and> length row \<noteq> fpr then (CsvErr, fpr, rest)
             else (CsvRow row, if fpr = 0 then length row else fpr, rest)
         | _ \<Rightarrow> (r, fpr, rest)))"

section \<open>Progress\<close>

lemma csvField_progress:
  assumes "csvField bad s = (e, f, rest)" and "s \<noteq> []" and "hd s \<noteq> newline"
  shows "length rest < length s"
proof -
  obtain c t where s: "s = c # t" using assms(2) by (cases s) auto
  show ?thesis
  proof (cases "c = quote")
    case True
    then show ?thesis using assms(1) csvQuoted_length [of bad t "[]" e f rest] by (auto simp: csvField_def s)
  next
    case False
    have "length (dropWhile (\<lambda>c. c \<noteq> comma \<and> c \<noteq> newline) t) \<le> length t" by (rule length_dropWhile_le)
    then show ?thesis
      using False assms(1, 3) skipLine_length [of "dropWhile (\<lambda>c. c \<noteq> comma \<and> c \<noteq> newline) t"]
      by (auto simp: csvField_def csvPlain_def Let_def s split: if_splits list.splits)
  qed
qed

lemma csvFields_le: "csvFields bad s acc = (r, rest) \<Longrightarrow> length rest \<le> length s"
proof (induction bad s acc rule: csvFields.induct)
  case (1 bad s acc)
  obtain e f t where f: "csvField bad s = (e, f, t)" using prod_cases3 by blast
  have "length rest \<le> length t" if "e = MoreFields" "csvFields bad t (acc @ [f]) = (r, rest)"
    using "1.IH" f that by auto
  then show ?case
    using "1.prems" csvField_length [OF f] f by (cases e) (auto simp: csvFields.simps [of bad s acc])
qed

lemma csvFields_progress:
  assumes "csvFields bad s acc = (r, rest)" and "s \<noteq> []" and "hd s \<noteq> newline"
  shows "length rest < length s"
proof -
  obtain e f t where f: "csvField bad s = (e, f, t)" using prod_cases3 by blast
  have "length t < length s" using csvField_progress [OF f assms(2, 3)] .
  then show ?thesis
    using assms(1) f csvFields_le [of bad t "acc @ [f]" r rest]
    by (cases e) (auto simp: csvFields.simps [of bad s acc])
qed

lemma csvRead_record:
  "csvRead fpr bad s = (r, fpr', rest) \<Longrightarrow> \<exists>r0. csvRecord bad s = (r0, rest) \<and> (r = r0 \<or> r = CsvErr)"
  by (auto simp: csvRead_def split: prod.splits csvResult.splits if_splits)

text \<open>Every read that is not at the end of the data consumes some of it.\<close>

lemma csvRead_progress:
  assumes "csvRead fpr bad s = (r, fpr', rest)"
  shows "length rest < length s \<or> rest = [] \<and> r = (if bad then CsvErr else CsvEOF)"
proof -
  let ?s = "dropWhile (\<lambda>c. c = newline) s"
  have le: "length ?s \<le> length s" by (rule length_dropWhile_le)
  show ?thesis
  proof (cases "?s = []")
    case True
    have "csvRecord bad s = (if bad then CsvErr else CsvEOF, [])" unfolding csvRecord_def Let_def True by simp
    then show ?thesis using assms by (auto simp: csvRead_def split: if_splits)
  next
    case False
    then have "hd ?s \<noteq> newline" using hd_dropWhile [of "\<lambda>c. c = newline" s] by blast
    moreover obtain r0 where "csvFields bad ?s [] = (r0, rest)"
      using csvRead_record [OF assms] unfolding csvRecord_def Let_def if_not_P [OF False] by blast
    ultimately have "length rest < length ?s" using csvFields_progress False by blast
    with le show ?thesis by simp
  qed
qed

text \<open>Only data that ends in a read error never reaches the end of the file.\<close>

lemma csvFields_not_EOF: "csvFields bad s acc = (r, rest) \<Longrightarrow> r \<noteq> CsvEOF"
proof (induction bad s acc rule: csvFields.induct)
  case (1 bad s acc)
  obtain e f t where f: "csvField bad s = (e, f, t)" using prod_cases3 by blast
  have "r \<noteq> CsvEOF" if "e = MoreFields" "csvFields bad t (acc @ [f]) = (r, rest)"
    using "1.IH" f that by auto
  then show ?case using "1.prems" f by (cases e) (auto simp: csvFields.simps [of bad s acc])
qed

lemma csvRead_bad_not_EOF: "csvRead fpr True s = (r, fpr', rest) \<Longrightarrow> r \<noteq> CsvEOF"
  using csvRead_record [of fpr True s r fpr' rest] csvFields_not_EOF [of True "dropWhile (\<lambda>c. c = newline) s" "[]"]
  by (auto simp: csvRecord_def Let_def split: if_splits)

lemma csvRead_row:
  "csvRead fpr bad s = (CsvRow row, fpr', rest) \<Longrightarrow> fpr' = length row \<and> (0 < fpr \<longrightarrow> fpr' = fpr)"
  by (auto simp: csvRead_def split: if_splits prod.splits csvResult.splits)

lemma csvRead_fpr: "0 < fpr \<Longrightarrow> csvRead fpr bad s = (r, fpr', rest) \<Longrightarrow> fpr' = fpr"
  by (auto simp: csvRead_def split: if_splits prod.splits csvResult.splits)

section \<open>Reading back what was written\<close>

definition plainField :: "string \<Rightarrow> bool" where
  "plainField f \<longleftrightarrow> quote \<notin> set f \<and> comma \<notin> set f \<and> newline \<notin> set f"

definition escapeField :: "string \<Rightarrow> string" where
  "escapeField f = concat (map (\<lambda>c. if c = quote then [quote, quote] else [c]) f)"

text \<open>A field as a writer puts it: quoted only where it has to be.\<close>

definition renderField :: "string \<Rightarrow> string" where
  "renderField f = (if plainField f then f else quote # escapeField f @ [quote])"

definition renderRow :: "string list \<Rightarrow> string" where
  "renderRow fs = Join (map renderField fs) [comma] @ [newline]"

lemma normCR_id: "CR \<notin> set s \<Longrightarrow> normCR s = s"
  by (induction s rule: normCR.induct) auto

lemma csvQuoted_Cons: "c \<noteq> quote \<Longrightarrow> s \<noteq> [] \<Longrightarrow> csvQuoted bad (c # s) acc = csvQuoted bad s (acc @ [c])"
  by (cases s) auto

lemma csvQuoted_render:
  assumes "d = comma \<or> d = newline"
  shows "csvQuoted bad (escapeField f @ quote # d # s) acc = (if d = comma then MoreFields else EndRecord, acc @ f, s)"
proof (induction f arbitrary: acc)
  case Nil
  show ?case using assms by (auto simp: escapeField_def)
next
  case (Cons c f)
  then show ?case by (cases "c = quote") (simp_all add: escapeField_def csvQuoted_Cons)
qed

lemma csvPlain_render:
  assumes "d = comma \<or> d = newline" and "plainField f"
  shows "csvPlain bad (f @ d # s) = (if d = comma then MoreFields else EndRecord, f, s)"
proof -
  have "takeWhile (\<lambda>c. c \<noteq> comma \<and> c \<noteq> newline) (f @ d # s) = f"
    "dropWhile (\<lambda>c. c \<noteq> comma \<and> c \<noteq> newline) (f @ d # s) = d # s"
    using assms unfolding plainField_def by (induction f) auto
  then show ?thesis using assms by (auto simp: csvPlain_def plainField_def)
qed

lemma csvField_render:
  assumes "d = comma \<or> d = newline"
  shows "csvField bad (renderField f @ d # s) = (if d = comma then MoreFields else EndRecord, f, s)"
proof (cases "plainField f")
  case True
  have "csvField bad (f @ d # s) = csvPlain bad (f @ d # s)"
    using True assms by (cases f) (auto simp: csvField_def plainField_def)
  then show ?thesis using True csvPlain_render [OF assms True] by (simp add: renderField_def)
next
  case False
  then show ?thesis using csvQuoted_render [OF assms, of bad f s "[]"] by (simp add: csvField_def renderField_def)
qed

lemma csvFields_render:
  "fs \<noteq> [] \<Longrightarrow> csvFields bad (renderRow fs @ s) acc = (CsvRow (acc @ fs), s)"
proof (induction fs arbitrary: acc)
  case (Cons f fs)
  show ?case
  proof (cases fs)
    case Nil
    then show ?thesis using csvField_render [of newline bad f s] by (subst csvFields.simps) (simp add: renderRow_def)
  next
    case (Cons g gs)
    have "csvField bad (renderRow (f # fs) @ s) = (MoreFields, f, renderRow fs @ s)"
      using csvField_render [of comma bad f "renderRow fs @ s"] by (simp add: renderRow_def Cons)
    then show ?thesis using Cons.IH [of "acc @ [f]"] Cons by (subst csvFields.simps) simp
  qed
qed simp

lemma renderRow_start:
  assumes "2 \<le> length fs"
  shows "dropWhile (\<lambda>c. c = newline) (renderRow fs @ s) = renderRow fs @ s"
proof -
  obtain f g gs where fs: "fs = f # g # gs" using assms by (metis Suc_le_length_iff numeral_2_eq_2)
  have "renderField f @ [comma] \<noteq> [] \<and> hd (renderField f @ [comma]) \<noteq> newline"
    by (cases f) (auto simp: renderField_def plainField_def)
  then obtain c t where "renderField f @ [comma] = c # t" "c \<noteq> newline" by (cases "renderField f @ [comma]") auto
  then have "renderRow fs @ s = c # (t @ Join (map renderField (g # gs)) [comma] @ newline # s)"
    by (simp add: renderRow_def fs flip: append_assoc)
  with \<open>c \<noteq> newline\<close> show ?thesis by simp
qed

lemma csvRead_render:
  assumes "2 \<le> length fs" and "fpr = 0 \<or> fpr = length fs"
  shows "csvRead fpr bad (renderRow fs @ s) = (CsvRow fs, length fs, s)"
proof -
  have "fs \<noteq> []" "renderRow fs @ s \<noteq> []" using assms by (auto simp: renderRow_def)
  then have "csvRecord bad (renderRow fs @ s) = (CsvRow fs, s)"
    using csvFields_render [of fs bad s "[]"] renderRow_start [OF assms(1), of s] by (simp add: csvRecord_def)
  then show ?thesis using assms by (auto simp: csvRead_def)
qed

end
