(* ===== verification/Price_Sync.thy ===== *)
theory Price_Sync
  imports Kube Csv
begin

text \<open>
  \<open>pkg/capacity/pricesync\<close>: the job that downloads the price catalogue and keeps a table of hourly
  prices.  The loop over the rows need not end, so its result is an option: \<open>None\<close> is a loop that
  never returns.  Number parsing is the parameter \<open>x_ParseFloat\<close>.
\<close>

section \<open>Table\<close>

type_synonym Table = "string \<rightharpoonup> float64"

definition NewTable :: Table where
  "NewTable = Map.empty"

definition Table_Get :: "Table \<Rightarrow> string \<Rightarrow> float64" where
  "Table_Get t instanceType = (case t instanceType of None \<Rightarrow> 0 | Some p \<Rightarrow> p)"

definition Table_Set :: "Table \<Rightarrow> string \<Rightarrow> float64 \<Rightarrow> Table" where
  "Table_Set t instanceType hourly = t(instanceType \<mapsto> hourly)"

record SyncJob =
  sj_Table :: Table
  sj_URL :: string
  sj_Period :: duration

definition catalogURL :: string where
  "catalogURL = ''https://raw.githubusercontent.com/skypilot-org/skypilot-catalog/master/v1/aws/vms.csv''"

definition NewSyncJob :: SyncJob where
  "NewSyncJob = \<lparr>sj_Table = NewTable, sj_URL = catalogURL, sj_Period = 6 * hour\<rparr>"

section \<open>syncOnce\<close>

text \<open>The last column with each of the two names.\<close>

fun columns :: "nat \<Rightarrow> string list \<Rightarrow> int \<times> int \<Rightarrow> int \<times> int" where
  "columns i [] (typeIdx, priceIdx) = (typeIdx, priceIdx)"
| "columns i (h # hs) (typeIdx, priceIdx) =
     columns (Suc i) hs (if h = ''InstanceType'' then (int i, priceIdx)
                         else if h = ''Price'' then (typeIdx, int i) else (typeIdx, priceIdx))"

text \<open>An index out of range panics.\<close>

definition goIndex :: "'a list \<Rightarrow> int \<Rightarrow> 'a outcome" where
  "goIndex xs i = (if 0 \<le> i \<and> i < int (length xs) then Returns (xs ! nat i) else Panics ''index out of range'')"

text \<open>What one row does to the table.\<close>

definition applyRow :: "(string \<Rightarrow> float64 option) \<Rightarrow> int \<Rightarrow> int \<Rightarrow> string list \<Rightarrow> Table \<Rightarrow> Table outcome" where
  "applyRow parseFloat typeIdx priceIdx row t =
     (if int (length row) \<le> priceIdx then Returns t
      else (case goIndex row priceIdx of
              Panics m \<Rightarrow> Panics m
            | Returns p \<Rightarrow>
                (case parseFloat p of
                   None \<Rightarrow> Returns t
                 | Some price \<Rightarrow>
                     (case goIndex row typeIdx of Panics m \<Rightarrow> Panics m | Returns ty \<Rightarrow> Returns (Table_Set t ty price)))))"

partial_function (option) readRows ::
  "(string \<Rightarrow> float64 option) \<Rightarrow> int \<Rightarrow> int \<Rightarrow> bool \<Rightarrow> nat \<Rightarrow> string \<Rightarrow> Table \<Rightarrow> Table outcome option" where
  "readRows parseFloat typeIdx priceIdx bad fpr s t =
     (case csvRead fpr bad s of (r, fpr', rest) \<Rightarrow>
        (case r of
           CsvEOF \<Rightarrow> Some (Returns t)
         | CsvErr \<Rightarrow> readRows parseFloat typeIdx priceIdx bad fpr' rest t
         | CsvRow row \<Rightarrow>
             (case applyRow parseFloat typeIdx priceIdx row t of
                Panics m \<Rightarrow> Some (Panics m)
              | Returns t' \<Rightarrow> readRows parseFloat typeIdx priceIdx bad fpr' rest t')))"

definition readCatalog :: "(string \<Rightarrow> float64 option) \<Rightarrow> bool \<Rightarrow> string \<Rightarrow> Table \<Rightarrow> Table outcome option" where
  "readCatalog parseFloat bad body t =
     (case csvRead 0 bad (normCR body) of (r, fpr, rest) \<Rightarrow>
        (case r of
           CsvRow header \<Rightarrow>
             (case columns 0 header (-1, -1) of (typeIdx, priceIdx) \<Rightarrow>
                if typeIdx < 0 \<or> priceIdx < 0 then Some (Returns t)
                else readRows parseFloat typeIdx priceIdx bad fpr rest t)
         | _ \<Rightarrow> Some (Returns t)))"

definition catalogRequest :: "SyncJob \<Rightarrow> HTTPRequest" where
  "catalogRequest j = \<lparr>hq_Method = ''GET'', hq_URL = sj_URL j, hq_Header = Map.empty, hq_Body = []\<rparr>"

definition handleCatalog :: "'w env \<Rightarrow> SyncJob \<Rightarrow> HTTPResponse \<Rightarrow> SyncJob outcome option" where
  "handleCatalog E j r =
     (if hr_StatusCode r \<noteq> 200 then Some (Returns j)
      else (case readCatalog (x_ParseFloat E) (hr_BodyErr r \<noteq> None) (hr_Body r) (sj_Table j) of
              None \<Rightarrow> None
            | Some out \<Rightarrow> (case out of Panics m \<Rightarrow> Some (Panics m) | Returns t \<Rightarrow> Some (Returns (j\<lparr>sj_Table := t\<rparr>)))))"

definition syncOnce :: "'w env \<Rightarrow> SyncJob \<Rightarrow> ('w, 'z, SyncJob outcome option) io" where
  "syncOnce E j =
     (case x_URLError E (sj_URL j) of
        Some err \<Rightarrow> ret (Some (Returns j))
      | None \<Rightarrow> do {
          resp \<leftarrow> kHTTP E (catalogRequest j);
          ret (case resp of Inl err \<Rightarrow> Some (Returns j) | Inr r \<Rightarrow> handleCatalog E j r)
        })"

text \<open>
  \<open>Start\<close>, given the number of ticks before the context ends: one sync at once and one per tick.  A
  sync that does not end, or panics, ends the series; otherwise the error of the context is returned.
\<close>

fun syncTicks :: "'w env \<Rightarrow> nat \<Rightarrow> SyncJob \<Rightarrow> ('w, 'z, SyncJob outcome option) io" where
  "syncTicks E 0 j = ret (Some (Returns j))"
| "syncTicks E (Suc n) j = do {
     r \<leftarrow> syncOnce E j;
     case r of
       None \<Rightarrow> ret None
     | Some out \<Rightarrow> (case out of Panics m \<Rightarrow> ret (Some (Panics m)) | Returns j \<Rightarrow> syncTicks E n j)
   }"

definition sync_Start :: "'w env \<Rightarrow> goerror option \<Rightarrow> nat \<Rightarrow> SyncJob \<Rightarrow> ('w, 'z, (goerror option \<times> SyncJob) outcome option) io" where
  "sync_Start E ctxErr ticks j = do {
     r \<leftarrow> syncTicks E (Suc ticks) j;
     ret (case r of
            None \<Rightarrow> None
          | Some out \<Rightarrow> Some (case out of Panics m \<Rightarrow> Panics m | Returns j \<Rightarrow> Returns (ctxErr, j)))
   }"

section \<open>Termination\<close>

lemma columns_bounds:
  "columns i hs (a, b) = (typeIdx, priceIdx) \<Longrightarrow> a < int i \<Longrightarrow> b < int i \<Longrightarrow>
     typeIdx < int (i + length hs) \<and> priceIdx < int (i + length hs)"
proof (induction hs arbitrary: i a b)
  case (Cons h hs)
  then show ?case by (fastforce split: if_splits)
qed simp

lemma applyRow_returns:
  assumes "0 \<le> typeIdx" and "typeIdx < int (length row)" and "0 \<le> priceIdx"
  shows "\<exists>t'. applyRow pf typeIdx priceIdx row t = Returns t'"
  using assms by (auto simp: applyRow_def goIndex_def split: option.split)

lemma readRows_returns:
  assumes "0 \<le> typeIdx" and "typeIdx < int fpr" and "0 \<le> priceIdx"
  shows "\<exists>t'. readRows pf typeIdx priceIdx False fpr s t = Some (Returns t')"
proof (induction "length s" arbitrary: s t rule: less_induct)
  case less
  obtain r fpr' rest where r: "csvRead fpr False s = (r, fpr', rest)" using prod_cases3 by blast
  have fpr: "fpr' = fpr" using csvRead_fpr [OF _ r] assms by simp
  show ?case
  proof (cases r)
    case CsvEOF
    then show ?thesis using r by (subst readRows.simps) simp
  next
    case CsvErr
    then have "length rest < length s" using csvRead_progress [OF r] by simp
    with less [of rest t] show ?thesis using r CsvErr fpr by (subst readRows.simps) simp
  next
    case (CsvRow row)
    then have "length row = fpr" using csvRead_row r fpr by blast
    then obtain t' where t': "applyRow pf typeIdx priceIdx row t = Returns t'"
      using applyRow_returns [OF assms(1) _ assms(3)] assms(2) by blast
    have "length rest < length s" using csvRead_progress [OF r] CsvRow by simp
    with less [of rest t'] show ?thesis using r CsvRow fpr t' by (subst readRows.simps) simp
  qed
qed

lemma readRows_stuck:
  assumes "readRows pf typeIdx priceIdx bad fpr s t = Some y"
  shows "0 \<le> typeIdx \<and> typeIdx < int fpr \<and> 0 \<le> priceIdx \<longrightarrow> \<not> bad"
proof (rule readRows.raw_induct [where P = "\<lambda>pf typeIdx priceIdx bad fpr s t y.
      0 \<le> typeIdx \<and> typeIdx < int fpr \<and> 0 \<le> priceIdx \<longrightarrow> \<not> bad", OF _ assms], goal_cases)
  case (1 step pf typeIdx priceIdx bad fpr s t y)
  show ?case
  proof (rule impI, elim conjE)
    assume idx: "0 \<le> typeIdx" "typeIdx < int fpr" "0 \<le> priceIdx"
    obtain r fpr' rest where r: "csvRead fpr bad s = (r, fpr', rest)" using prod_cases3 by blast
    have fpr: "fpr' = fpr" using csvRead_fpr [OF _ r] idx by simp
    show "\<not> bad"
    proof (cases r)
      case CsvEOF
      then show ?thesis using csvRead_bad_not_EOF [of fpr s r fpr' rest] r by (cases bad) auto
    next
      case CsvErr
      then show ?thesis using 1(1) [of pf typeIdx priceIdx bad fpr rest t y] 1(2) idx r fpr by simp
    next
      case (CsvRow row)
      then have "length row = fpr" using csvRead_row r fpr by blast
      then obtain t' where "applyRow pf typeIdx priceIdx row t = Returns t'"
        using applyRow_returns [OF idx(1) _ idx(3)] idx(2) by blast
      then show ?thesis using 1(1) [of pf typeIdx priceIdx bad fpr rest t' y] 1(2) idx r fpr CsvRow by simp
    qed
  qed
qed

lemma readCatalog_header:
  assumes "csvRead 0 bad (normCR body) = (CsvRow header, fpr, rest)"
    and "columns 0 header (-1, -1) = (typeIdx, priceIdx)"
  shows "typeIdx < int fpr" "priceIdx < int fpr"
  using columns_bounds [OF assms(2)] csvRead_row [OF assms(1)] by auto

lemma readCatalog_returns: "\<exists>t'. readCatalog pf False body t = Some (Returns t')"
proof -
  obtain r fpr rest where r: "csvRead 0 False (normCR body) = (r, fpr, rest)" using prod_cases3 by blast
  show ?thesis
  proof (cases r)
    case (CsvRow header)
    obtain typeIdx priceIdx where c: "columns 0 header (-1, -1) = (typeIdx, priceIdx)" by fastforce
    show ?thesis
      using readRows_returns [of typeIdx fpr priceIdx pf rest t] readCatalog_header [OF r [unfolded CsvRow] c] r CsvRow c
      by (auto simp: readCatalog_def)
  qed (use r in \<open>auto simp: readCatalog_def\<close>)
qed

lemma readCatalog_bad: "readCatalog pf True body t \<in> {None, Some (Returns t)}"
proof -
  obtain r fpr rest where r: "csvRead 0 True (normCR body) = (r, fpr, rest)" using prod_cases3 by blast
  show ?thesis
  proof (cases r)
    case (CsvRow header)
    obtain typeIdx priceIdx where c: "columns 0 header (-1, -1) = (typeIdx, priceIdx)" by fastforce
    show ?thesis
      using readRows_stuck [of pf typeIdx priceIdx True fpr rest t] readCatalog_header [OF r [unfolded CsvRow] c] r CsvRow c
      by (cases "readRows pf typeIdx priceIdx True fpr rest t") (auto simp: readCatalog_def)
  qed (use r in \<open>auto simp: readCatalog_def\<close>)
qed

text \<open>
  C24: A price sync makes at most one request and never panics; it returns whenever the answer's body
  can be read to its end, and a sync that does not return was given a body that breaks off with
  a read error.
\<close>
theorem price_sync_returns:
  "emits (syncOnce E j) (\<lambda>r es. length es \<le> 1 \<and>
     (case r of
        None \<Rightarrow> \<exists>q resp. es = [HTTP q (Inr resp)] \<and> hr_BodyErr resp \<noteq> None
      | Some out \<Rightarrow> \<exists>j'. out = Returns j'))"
proof -
  have "case handleCatalog E j x of None \<Rightarrow> hr_BodyErr x \<noteq> None | Some out \<Rightarrow> \<exists>j'. out = Returns j'" for x
  proof (cases "hr_BodyErr x")
    case None
    then show ?thesis
      using readCatalog_returns [of "x_ParseFloat E" "hr_Body x" "sj_Table j"] by (auto simp: handleCatalog_def)
  next
    case (Some e)
    then show ?thesis
      using readCatalog_bad [of "x_ParseFloat E" "hr_Body x" "sj_Table j"] by (auto simp: handleCatalog_def)
  qed
  then have "handleCatalog E j x = None \<Longrightarrow> hr_BodyErr x \<noteq> None"
    "handleCatalog E j x = Some out \<Longrightarrow> \<exists>j'. out = Returns j'" for x out
    by (fastforce split: option.splits)+
  then show ?thesis
    unfolding syncOnce_def by (intro emits) (auto split: sum.split option.split)
qed

text \<open>
  C26: If the body breaks off with a read error after a header that names both columns, the sync
  never returns: it reads the error again and again.
\<close>
theorem price_sync_stuck:
  assumes "csvRead 0 True (normCR body) = (CsvRow header, fpr, rest)"
    and "columns 0 header (-1, -1) = (typeIdx, priceIdx)" and "0 \<le> typeIdx" and "0 \<le> priceIdx"
  shows "readCatalog pf True body t = None"
proof -
  have "readRows pf typeIdx priceIdx True fpr rest t = None"
    using readRows_stuck [of pf typeIdx priceIdx True fpr rest t] readCatalog_header [OF assms(1, 2)] assms(3, 4)
    by (cases "readRows pf typeIdx priceIdx True fpr rest t") auto
  then show ?thesis using assms by (simp add: readCatalog_def)
qed

theorem price_sync_stuck_witness:
  "readCatalog (\<lambda>s. None) True (renderRow [''InstanceType'', ''Price''] @ ''p5'') Map.empty = None"
proof (rule price_sync_stuck [where typeIdx = 0 and priceIdx = 1])
  have "CHR 0x0D \<notin> set (renderRow [''InstanceType'', ''Price''] @ ''p5'')" by code_simp
  then show "csvRead 0 True (normCR (renderRow [''InstanceType'', ''Price''] @ ''p5'')) = (CsvRow [''InstanceType'', ''Price''], 2, ''p5'')"
    using csvRead_render [of "[''InstanceType'', ''Price'']" 0 True "''p5''"] by (simp add: normCR_id)
qed simp_all

section \<open>The table after a sync\<close>

definition priceOf :: "(string \<Rightarrow> float64 option) \<Rightarrow> nat \<Rightarrow> nat \<Rightarrow> string list \<Rightarrow> Table \<Rightarrow> Table" where
  "priceOf pf typeIdx priceIdx row t =
     (case pf (row ! priceIdx) of None \<Rightarrow> t | Some price \<Rightarrow> t(row ! typeIdx \<mapsto> price))"

lemma readRows_rendered:
  assumes "typeIdx < n" and "priceIdx < n" and "2 \<le> n" and "list_all (\<lambda>row. length row = n) rows"
  shows "readRows pf (int typeIdx) (int priceIdx) False n (concat (map renderRow rows)) t =
    Some (Returns (fold (priceOf pf typeIdx priceIdx) rows t))"
  using assms(4)
proof (induction rows arbitrary: t)
  case Nil
  have "csvRead n False [] = (CsvEOF, n, [])" by (simp add: csvRead_def csvRecord_def)
  then show ?case by (subst readRows.simps) simp
next
  case (Cons row rows)
  then have row: "length row = n" "csvRead n False (renderRow row @ concat (map renderRow rows)) =
      (CsvRow row, n, concat (map renderRow rows))"
    using csvRead_render [of row n False "concat (map renderRow rows)"] assms(3) by auto
  have "applyRow pf (int typeIdx) (int priceIdx) row t = Returns (priceOf pf typeIdx priceIdx row t)"
    using assms(1, 2) row(1) by (auto simp: applyRow_def goIndex_def priceOf_def Table_Set_def split: option.split)
  then show ?case using Cons row by (subst readRows.simps) simp
qed

text \<open>
  C25: Reading a catalogue that is a header with both columns and any number of rows of its width,
  with fields quoted where needed, sets exactly the price of each row whose price is a number, in
  order, so the last row of an instance type wins, and leaves the rest of the table as it was.
\<close>
theorem price_sync_catalog:
  assumes "columns 0 header (-1, -1) = (int typeIdx, int priceIdx)" and "2 \<le> length header"
    and "list_all (\<lambda>row. length row = length header) rows"
    and "CHR 0x0D \<notin> set (concat (map renderRow (header # rows)))"
  shows "readCatalog pf False (concat (map renderRow (header # rows))) t =
    Some (Returns (fold (\<lambda>row t. case pf (row ! priceIdx) of
        None \<Rightarrow> t | Some price \<Rightarrow> Table_Set t (row ! typeIdx) price) rows t))"
proof -
  have idx: "typeIdx < length header" "priceIdx < length header" using columns_bounds [OF assms(1)] by auto
  have "(\<lambda>row t. case pf (row ! priceIdx) of None \<Rightarrow> t | Some price \<Rightarrow> Table_Set t (row ! typeIdx) price) =
      priceOf pf typeIdx priceIdx"
    by (intro ext) (simp add: priceOf_def Table_Set_def split: option.split)
  then show ?thesis
    using readRows_rendered [OF idx assms(2, 3)] csvRead_render [OF assms(2), of 0 False "concat (map renderRow rows)"]
      assms(1) normCR_id [OF assms(4)]
    by (simp add: readCatalog_def)
qed

theorem price_sync_catalog_witness:
  "readCatalog (\<lambda>s. if s = ''3.5'' then Some (7 / 2) else None) False
     (concat (map renderRow [[''Price'', ''InstanceType''], [''3.5'', ''p,5''], [''free'', ''t'']])) Map.empty =
   Some (Returns [''p,5'' \<mapsto> 7 / 2])"
proof -
  have "CHR 0x0D \<notin> set (concat (map renderRow [[''Price'', ''InstanceType''], [''3.5'', ''p,5''], [''free'', ''t'']]))"
    by code_simp
  from price_sync_catalog [of "[''Price'', ''InstanceType'']" 1 0 "[[''3.5'', ''p,5''], [''free'', ''t'']]", OF _ _ _ this]
  show ?thesis by (simp add: Table_Set_def)
qed

end
