(* ===== verification/Loadgen.thy ===== *)
theory Loadgen
  imports Endpoint_Controller
begin

text \<open>
  \<open>test/e2e/loadgen\<close>: the client that measures an endpoint.  It sends bursts of chat requests, retries
  those the gateway turns away while it scales from zero, and counts.  The flags are a record, the
  numbers of \<open>rand.Intn\<close> an argument by burst and request, \<open>marshal\<close> the encoding of a body as JSON.
\<close>

record loadFlags =
  lf_Gateway :: string
  lf_Token :: string
  lf_Model :: string
  lf_Bursts :: int
  lf_BurstSize :: int
  lf_IdleSec :: int
  lf_System :: string

definition loadDefaults :: loadFlags where
  "loadDefaults = \<lparr>lf_Gateway = ''http://127.0.0.1:18090'', lf_Token = [],
     lf_Model = ''hf://TinyLlama/TinyLlama-1.1B-Chat-v1.0'', lf_Bursts = 5, lf_BurstSize = 8, lf_IdleSec = 30,
     lf_System = ''shared-agent-prefix: you are a helpful coding agent.''\<rparr>"

record chatMessage =
  cm_Role :: string
  cm_Content :: string

record chatRequest =
  cr_Model :: string
  cr_Messages :: "chatMessage list"

record loadStats =
  ls_Total :: int
  ls_Successes :: int
  ls_FirstHits :: int
  ls_Busy :: float64
  ls_Provisioned :: float64

definition zeroStats :: loadStats where
  "zeroStats = \<lparr>ls_Total = 0, ls_Successes = 0, ls_FirstHits = 0, ls_Busy = 0, ls_Provisioned = 0\<rparr>"

section \<open>One request\<close>

definition chatTurn :: "loadFlags \<Rightarrow> int \<Rightarrow> int \<Rightarrow> int \<Rightarrow> chatRequest" where
  "chatTurn flags b i n = \<lparr>cr_Model = lf_Model flags, cr_Messages =
     [\<lparr>cm_Role = ''system'', cm_Content = lf_System flags\<rparr>,
      \<lparr>cm_Role = ''user'', cm_Content = ''turn-'' @ Itoa i @ ''-burst-'' @ Itoa b @ '' question '' @ Itoa n\<rparr>]\<rparr>"

definition loadRequest :: "loadFlags \<Rightarrow> string \<Rightarrow> HTTPRequest" where
  "loadRequest flags payload =
     \<lparr>hq_Method = ''POST'', hq_URL = lf_Gateway flags @ ''/v1/chat/completions'',
      hq_Header = [''Authorization'' \<mapsto> [''Bearer '' @ lf_Token flags], ''Content-Type'' \<mapsto> [''application/json'']],
      hq_Body = payload\<rparr>"

text \<open>A success is counted with the time since the start of the request.\<close>

definition countSuccess :: "bool \<Rightarrow> float64 \<Rightarrow> loadStats \<Rightarrow> loadStats" where
  "countSuccess hit secs st = st\<lparr>ls_Successes := ls_Successes st + 1,
     ls_FirstHits := (if hit then ls_FirstHits st + 1 else ls_FirstHits st), ls_Busy := f_add (ls_Busy st) secs\<rparr>"

text \<open>
  A retry sends the same request object, whose body was read to its end by the first \<open>Do\<close>: there is
  nothing left to send, although the declared length is still that of the body, and what \<open>Do\<close> makes of
  that is left to \<open>E\<close>.
\<close>

definition consumed :: "HTTPRequest \<Rightarrow> HTTPRequest" where
  "consumed req = req\<lparr>hq_Body := []\<rparr>"

fun retryRequest :: "'w env \<Rightarrow> HTTPRequest \<Rightarrow> int \<Rightarrow> gotime \<Rightarrow> nat \<Rightarrow> loadStats \<Rightarrow> ('w, 'z, loadStats) io" where
  "retryRequest E req i start 0 st = ret st"
| "retryRequest E req i start (Suc k) st = do {
     kSleep E (2 * second);
     r \<leftarrow> kHTTP E req;
     case r of
       Inl err \<Rightarrow> retryRequest E req i start k st
     | Inr resp \<Rightarrow>
         if hr_StatusCode resp = 200 then do {
           now \<leftarrow> kNow E;
           ret (countSuccess (i = 0) (Seconds (Sub now start)) st)
         } else retryRequest E req i start k st
   }"

definition sendRequest ::
  "'w env \<Rightarrow> (chatRequest \<Rightarrow> string) \<Rightarrow> (int \<Rightarrow> int \<Rightarrow> int) \<Rightarrow> loadFlags \<Rightarrow> int \<Rightarrow> int \<Rightarrow> loadStats \<Rightarrow>
     ('w, 'z, loadStats outcome) io" where
  "sendRequest E marshal intn flags b i st =
     (let st = st\<lparr>ls_Total := ls_Total st + 1\<rparr>;
          req = loadRequest flags (marshal (chatTurn flags b i (intn b i)))
      in case x_URLError E (hq_URL req) of
           Some err \<Rightarrow> ret (Panics (ErrorText err))
         | None \<Rightarrow> do {
             start \<leftarrow> kNow E;
             r \<leftarrow> kHTTP E req;
             case r of
               Inl err \<Rightarrow> ret (Returns st)
             | Inr resp \<Rightarrow>
                 if hr_StatusCode resp = 200 then do {
                   now \<leftarrow> kNow E;
                   ret (Returns (countSuccess
                     ((Contains (hr_Body resp) ''hello'' \<or> Contains (hr_Body resp) ''choices'') \<and> i = 0)
                     (Seconds (Sub now start)) st))
                 }
                 else if hr_StatusCode resp = 429 then do {
                   st \<leftarrow> retryRequest E (consumed req) i start 30 st;
                   ret (Returns st)
                 }
                 else ret (Returns st)
           })"

section \<open>Bursts\<close>

fun sendAll ::
  "'w env \<Rightarrow> (chatRequest \<Rightarrow> string) \<Rightarrow> (int \<Rightarrow> int \<Rightarrow> int) \<Rightarrow> loadFlags \<Rightarrow> int \<Rightarrow> int list \<Rightarrow> loadStats \<Rightarrow>
     ('w, 'z, loadStats outcome) io" where
  "sendAll E marshal intn flags b [] st = ret (Returns st)"
| "sendAll E marshal intn flags b (i # is) st = do {
     r \<leftarrow> sendRequest E marshal intn flags b i st;
     case r of Panics m \<Rightarrow> ret (Panics m) | Returns st \<Rightarrow> sendAll E marshal intn flags b is st
   }"

definition oneBurst ::
  "'w env \<Rightarrow> (chatRequest \<Rightarrow> string) \<Rightarrow> (int \<Rightarrow> int \<Rightarrow> int) \<Rightarrow> loadFlags \<Rightarrow> int \<Rightarrow> loadStats \<Rightarrow>
     ('w, 'z, loadStats outcome) io" where
  "oneBurst E marshal intn flags b st = do {
     (if 0 < b then kSleep E (lf_IdleSec flags * second) else ret ());
     burstStart \<leftarrow> kNow E;
     r \<leftarrow> sendAll E marshal intn flags b [0 .. lf_BurstSize flags - 1] st;
     case r of
       Panics m \<Rightarrow> ret (Panics m)
     | Returns st \<Rightarrow> do {
         now \<leftarrow> kNow E;
         ret (Returns (st\<lparr>ls_Provisioned := f_add (ls_Provisioned st) (Seconds (Sub now burstStart))\<rparr>))
       }
   }"

fun allBursts ::
  "'w env \<Rightarrow> (chatRequest \<Rightarrow> string) \<Rightarrow> (int \<Rightarrow> int \<Rightarrow> int) \<Rightarrow> loadFlags \<Rightarrow> int list \<Rightarrow> loadStats \<Rightarrow>
     ('w, 'z, loadStats outcome) io" where
  "allBursts E marshal intn flags [] st = ret (Returns st)"
| "allBursts E marshal intn flags (b # bs) st = do {
     r \<leftarrow> oneBurst E marshal intn flags b st;
     case r of Panics m \<Rightarrow> ret (Panics m) | Returns st \<Rightarrow> allBursts E marshal intn flags bs st
   }"

section \<open>The summary\<close>

record loadSummary =
  sm_Requests :: int
  sm_Successes :: int
  sm_Utilization :: float64
  sm_FirstHitRate :: float64

definition summarise :: "loadFlags \<Rightarrow> loadStats \<Rightarrow> loadSummary" where
  "summarise flags st =
     \<lparr>sm_Requests = ls_Total st, sm_Successes = ls_Successes st,
      sm_Utilization = (if 0 < ls_Provisioned st then f_div (ls_Busy st) (ls_Provisioned st) else 0),
      sm_FirstHitRate = (if 0 < lf_Bursts flags then f_div (f_of_int (ls_FirstHits st)) (f_of_int (lf_Bursts flags)) else 0)\<rparr>"

datatype loadResult = Usage string int | Summary loadSummary

definition loadgen_main ::
  "'w env \<Rightarrow> (chatRequest \<Rightarrow> string) \<Rightarrow> (int \<Rightarrow> int \<Rightarrow> int) \<Rightarrow> loadFlags \<Rightarrow> ('w, 'z, loadResult outcome) io" where
  "loadgen_main E marshal intn flags =
     (if lf_Token flags = [] then ret (Returns (Usage ''--token required'' 2))
      else do {
        r \<leftarrow> allBursts E marshal intn flags [0 .. lf_Bursts flags - 1] zeroStats;
        ret (case r of Panics m \<Rightarrow> Panics m | Returns st \<Rightarrow> Returns (Summary (summarise flags st)))
      })"

section \<open>Properties\<close>

fun sentEv :: "event \<Rightarrow> (goerror + HTTPResponse) option" where
  "sentEv (HTTP req r) = Some r"
| "sentEv e = None"

definition okAnswers :: "event list \<Rightarrow> nat" where
  "okAnswers es = length (filter (\<lambda>r. case r of Inl err \<Rightarrow> False | Inr resp \<Rightarrow> hr_StatusCode resp = 200) (select sentEv es))"

lemma okAnswers_simps [simp]:
  "okAnswers [] = 0" "okAnswers (es @ fs) = okAnswers es + okAnswers fs"
  "okAnswers (Clock t # es) = okAnswers es" "okAnswers (Sleep d # es) = okAnswers es"
  "okAnswers (HTTP req (Inl err) # es) = okAnswers es"
  "okAnswers (HTTP req (Inr resp) # es) = (if hr_StatusCode resp = 200 then 1 else 0) + okAnswers es"
  by (simp_all add: okAnswers_def)

text \<open>What a part of a run with \<open>k\<close> requests, \<open>h\<close> of them the first of a burst, does to the counts.\<close>

definition counted :: "int \<Rightarrow> int \<Rightarrow> loadStats \<Rightarrow> loadStats \<Rightarrow> event list \<Rightarrow> bool" where
  "counted k h st st' es \<longleftrightarrow> ls_Total st' = ls_Total st + k \<and> ls_Successes st' = ls_Successes st + int (okAnswers es) \<and>
     int (okAnswers es) \<le> k \<and> ls_FirstHits st \<le> ls_FirstHits st' \<and> ls_FirstHits st' \<le> ls_FirstHits st + h \<and>
     int (length (select sentEv es)) \<le> 31 * k"

lemma counted_append:
  "counted k h st st' es \<Longrightarrow> counted k' h' st' st'' fs \<Longrightarrow> counted (k + k') (h + h') st st'' (es @ fs)"
  by (auto simp: counted_def)

lemma emits_retry:
  "emits (retryRequest E req i start k st) (\<lambda>st' es. ls_Total st' = ls_Total st \<and>
     ls_Successes st' = ls_Successes st + int (okAnswers es) \<and> okAnswers es \<le> 1 \<and> ls_FirstHits st \<le> ls_FirstHits st' \<and>
     ls_FirstHits st' \<le> ls_FirstHits st + (of_bool (i = 0)) \<and> length (select sentEv es) \<le> k)"
proof (induction k arbitrary: i)
  case (Suc k)
  show ?case
    by (auto intro!: emits emits_mono [OF Suc.IH] simp: countSuccess_def)
qed (auto intro!: emits)

lemma emits_sendRequest:
  "emits (sendRequest E marshal intn flags b i st) (\<lambda>r es.
     case r of Panics m \<Rightarrow> x_URLError E (lf_Gateway flags @ ''/v1/chat/completions'') \<noteq> None \<and> es = []
     | Returns st' \<Rightarrow> x_URLError E (lf_Gateway flags @ ''/v1/chat/completions'') = None \<and>
         counted 1 (of_bool (i = 0)) st st' es)"
  unfolding sendRequest_def Let_def
  by (auto intro!: emits emits_bind [OF emits_retry] simp: counted_def countSuccess_def loadRequest_def)

text \<open>The same for the requests of a burst, and for the bursts.\<close>

definition badURL :: "'w env \<Rightarrow> loadFlags \<Rightarrow> bool" where
  "badURL E flags \<longleftrightarrow> x_URLError E (lf_Gateway flags @ ''/v1/chat/completions'') \<noteq> None"

definition tally :: "bool \<Rightarrow> int \<Rightarrow> int \<Rightarrow> loadStats \<Rightarrow> loadStats outcome \<Rightarrow> event list \<Rightarrow> bool" where
  "tally bad k h st r es \<longleftrightarrow>
     (case r of Panics m \<Rightarrow> bad \<and> select sentEv es = [] | Returns st' \<Rightarrow> (bad \<longrightarrow> k = 0) \<and> counted k h st st' es)"

lemma tally_refl: "tally bad 0 0 st (Returns st) []"
  by (simp add: tally_def counted_def)

lemma tally_request: "emits (sendRequest E marshal intn flags b i st) (tally (badURL E flags) 1 (of_bool (i = 0)) st)"
  using emits_sendRequest by (rule emits_mono) (auto simp: tally_def badURL_def split: outcome.splits)

lemma counted_idle: "counted 0 h st st' es \<Longrightarrow> select sentEv es = [] \<and> 0 \<le> h"
  by (auto simp: counted_def)

text \<open>Two parts one after the other, the second only if the first returns.\<close>

lemma tally_seq:
  assumes "emits m (tally bad k h st)" and "\<And>st'. emits (f st') (tally bad k' h' st')"
    and "0 \<le> k" and "0 \<le> k'"
  shows "emits (do { r \<leftarrow> m; case r of Panics e \<Rightarrow> ret (Panics e) | Returns st' \<Rightarrow> f st' }) (tally bad (k + k') (h + h') st)"
proof (rule emits_bind_fixed [OF assms(1)], goal_cases)
  case (1 r es)
  show ?case
  proof (cases r)
    case (Returns st')
    show ?thesis
      unfolding Returns outcome.case
      by (rule emits_mono [OF assms(2)])
        (use 1 Returns assms(3, 4) counted_append counted_idle in \<open>fastforce simp: tally_def split: outcome.splits\<close>)
  next
    case (Panics e)
    with 1 show ?thesis by (auto simp: tally_def intro!: emits)
  qed
qed

lemma tally_sendAll:
  "emits (sendAll E marshal intn flags b is st)
     (tally (badURL E flags) (int (length is)) (int (length (filter (\<lambda>i. i = 0) is))) st)"
proof (induction "is" arbitrary: st)
  case (Cons i "is")
  from tally_seq [OF tally_request [of E marshal intn flags b i st] Cons.IH]
  show ?case by (auto intro: emits_mono simp: add.commute)
qed (auto intro!: emits tally_refl)

lemma counted_provisioned: "counted k h st (st'\<lparr>ls_Provisioned := x\<rparr>) es = counted k h st st' es"
  by (simp add: counted_def)

lemma counted_quiet:
  assumes "sentEv e = None"
  shows "counted k h st st' (e # es) = counted k h st st' es" "counted k h st st' (es @ [e]) = counted k h st st' es"
  using assms by (simp_all add: counted_def okAnswers_def)

lemma first_of_burst: "length (filter (\<lambda>i. i = 0) [0 .. n - 1 :: int]) = of_bool (0 < n)"
proof -
  have "filter (\<lambda>i. i = 0) [0 .. n - 1 :: int] = (if 0 < n then [0] else [])"
    by (cases "0 < n") (auto simp: upto_rec1 [of 0] filter_empty_conv)
  then show ?thesis by simp
qed

lemma tally_burst:
  "emits (oneBurst E marshal intn flags b st) (tally (badURL E flags) (max 0 (lf_BurstSize flags)) 1 st)"
proof -
  have "tally bad k h st r es \<Longrightarrow> h \<le> 1 \<Longrightarrow> tally bad k 1 st r es" for bad k h r es
    by (auto simp: tally_def counted_def split: outcome.splits)
  note first = this [of _ _ "int (length (filter (\<lambda>i. i = 0) [0 .. lf_BurstSize flags - 1]))", unfolded first_of_burst]
  have "emits (sendAll E marshal intn flags b [0 .. lf_BurstSize flags - 1] st)
      (tally (badURL E flags) (max 0 (lf_BurstSize flags)) 1 st)"
    using tally_sendAll [of E marshal intn flags b "[0 .. lf_BurstSize flags - 1]" st]
    by (rule emits_mono) (use first in \<open>auto simp: first_of_burst max_def split: if_splits\<close>)
  note all = emits_bind_fixed [OF this]
  show ?thesis
    unfolding oneBurst_def
    by (auto intro!: emits all simp: tally_def counted_provisioned counted_quiet split: outcome.splits)
qed

lemma tally_bursts:
  "emits (allBursts E marshal intn flags bs st)
     (tally (badURL E flags) (int (length bs) * max 0 (lf_BurstSize flags)) (int (length bs)) st)"
proof (induction bs arbitrary: st)
  case (Cons b bs)
  from tally_seq [OF tally_burst [of E marshal intn flags b st] Cons.IH]
  show ?case by (simp add: algebra_simps)
qed (auto intro!: emits tally_refl)

text \<open>
  The load generator always ends, and its summary can be trusted.  Without a token it sends
  nothing and exits with 2.  Otherwise, unless the address of the gateway is malformed, in which case
  it panics before it has sent anything, it makes exactly the configured number of requests; the
  successes are the answers with status 200 it got, at most one per request; no request is sent more
  than 31 times; and the first-hit rate is between 0 and 1.
\<close>
theorem loadgen_bounds:
  "emits (loadgen_main E marshal intn flags) (\<lambda>r es.
     case r of
       Panics m \<Rightarrow> badURL E flags \<and> select sentEv es = []
     | Returns (Usage msg code) \<Rightarrow> lf_Token flags = [] \<and> code = 2 \<and> es = []
     | Returns (Summary sm) \<Rightarrow> lf_Token flags \<noteq> [] \<and>
         sm_Requests sm = max 0 (lf_Bursts flags) * max 0 (lf_BurstSize flags) \<and>
         sm_Successes sm = int (okAnswers es) \<and> sm_Successes sm \<le> sm_Requests sm \<and>
         int (length (select sentEv es)) \<le> 31 * sm_Requests sm \<and> 0 \<le> sm_FirstHitRate sm \<and> sm_FirstHitRate sm \<le> 1)"
proof (cases "lf_Token flags = []")
  case False
  have "int (length [0 .. lf_Bursts flags - 1]) = max 0 (lf_Bursts flags)" by simp
  note bursts = tally_bursts [of E marshal intn flags "[0 .. lf_Bursts flags - 1]" zeroStats, unfolded this]
  have rate: "0 \<le> sm_FirstHitRate (summarise flags st)" "sm_FirstHitRate (summarise flags st) \<le> 1"
    if "0 \<le> ls_FirstHits st" "ls_FirstHits st \<le> max 0 (lf_Bursts flags)" for st
    using that f_div_le_1 [of "ls_FirstHits st" "lf_Bursts flags"] by (auto simp: summarise_def)
  show ?thesis
    unfolding loadgen_main_def if_not_P [OF False]
  proof (rule emits_bind_fixed [OF bursts], goal_cases)
    case (1 r es)
    with rate show ?case
      by (cases r) (auto intro!: emits simp: tally_def counted_def zeroStats_def summarise_def False)
  qed
qed (auto simp: loadgen_main_def intro!: emits)

end
