(* ===== verification/Fake_VLLM.thy ===== *)
theory Fake_VLLM
  imports Gateway_Sync "HOL-Library.Word"
begin

text \<open>
  \<open>test/e2e/fakevllm\<close>: the stand-in for vLLM that the end-to-end tests deploy behind the gateway.  It
  counts requests and those with the shared prefix in two 64-bit counters and prints them on its
  metrics page, which the gateway's sync scrapes.
\<close>

record fakevllm =
  prefixHits :: "64 word"
  prefixQueries :: "64 word"

text \<open>
  The digits of a counter, written from the end of a buffer of 20 bytes; a digit that did not fit
  would be an index out of range.
\<close>

fun itoaLoop :: "nat \<Rightarrow> 64 word \<Rightarrow> string \<Rightarrow> string outcome" where
  "itoaLoop i v buf =
     (if v = 0 then Returns buf
      else (case i of
              0 \<Rightarrow> Panics ''index out of range''
            | Suc j \<Rightarrow> itoaLoop j (v div 10) (char_of (48 + unat (v mod 10)) # buf)))"

definition fakevllm_itoa :: "64 word \<Rightarrow> string outcome" where
  "fakevllm_itoa v = (if v = 0 then Returns ''0'' else itoaLoop 20 v [])"

declare itoaLoop.simps [simp del]

text \<open>The metrics page, as the sequence of its writes.\<close>

definition metricsPage :: "fakevllm \<Rightarrow> string outcome" where
  "metricsPage st =
     (case fakevllm_itoa (prefixHits st) of
        Panics m \<Rightarrow> Panics m
      | Returns hits \<Rightarrow>
          (case fakevllm_itoa (prefixQueries st) of
             Panics m \<Rightarrow> Panics m
           | Returns queries \<Rightarrow> Returns (
               ''# HELP coda_prefix_cache_hits_total Prefix cache hits'' @ [newline] @
               ''# TYPE coda_prefix_cache_hits_total counter'' @ [newline] @
               ''coda_prefix_cache_hits_total '' @ hits @ [newline] @
               ''# HELP coda_prefix_cache_queries_total Prefix cache queries'' @ [newline] @
               ''# TYPE coda_prefix_cache_queries_total counter'' @ [newline] @
               ''coda_prefix_cache_queries_total '' @ queries @ [newline])))"

text \<open>
  The chat handler's effect on the counters; the contents of the messages are decoded from the body
  by the JSON library.
\<close>

definition fakevllm_chat :: "string list \<Rightarrow> fakevllm \<Rightarrow> fakevllm" where
  "fakevllm_chat messages st =
     (let st = st\<lparr>prefixQueries := prefixQueries st + 1\<rparr>;
          pre = (case messages of [] \<Rightarrow> [] | m # ms \<Rightarrow> m)
      in if Contains pre ''shared-agent-prefix'' then st\<lparr>prefixHits := prefixHits st + 1\<rparr> else st)"

text \<open>
  The answer to every chat, a map and hence encoded with its keys in order, and the mux.  \<open>decode\<close> is
  the JSON library's reading of the contents of the messages, \<open>other\<close> the answer of \<open>net/http\<close> for
  paths that are not registered.
\<close>

definition fakeAnswer :: string where
  "fakeAnswer =
     ''{'' @ Join [
        jsonField ''choices'' (''[{'' @ Join [
          jsonField ''finish_reason'' (jsonString ''stop''), jsonField ''index'' ''0'',
          jsonField ''message'' (''{'' @ Join [jsonField ''content'' (jsonString ''hello from fakevllm''),
            jsonField ''role'' (jsonString ''assistant'')] '','' @ ''}'')] '','' @ ''}]''),
        jsonField ''id'' (jsonString ''chatcmpl-fake''), jsonField ''object'' (jsonString ''chat.completion'')] '',''
     @ ''}'' @ [newline]"

definition fakevllm_serve ::
  "(string \<Rightarrow> string list) \<Rightarrow> (Request \<Rightarrow> Response) \<Rightarrow> Request \<Rightarrow> fakevllm \<Rightarrow> Response outcome \<times> fakevllm" where
  "fakevllm_serve decode other req st =
     (if rq_Path req = ''/health'' then (Returns (okResponse ''ok''), st)
      else if rq_Path req = ''/metrics'' then
        (case metricsPage st of
           Panics m \<Rightarrow> Panics m
         | Returns page \<Rightarrow> Returns ((okResponse page)
             \<lparr>rsp_Header := [''Content-Type'' \<mapsto> [''text/plain; version=0.0.4'']]\<rparr>), st)
      else if rq_Path req = ''/v1/chat/completions'' then
        (Returns (okResponse fakeAnswer), fakevllm_chat (decode (rq_Body req)) st)
      else (Returns (other req), st))"

section \<open>Printing a counter\<close>

lemma char_of_int: "char_of (int n) = char_of n"
  by (simp add: char_of_def bit_of_nat_iff_bit)

lemma itoaLoop_itoaNat:
  assumes "uint v < 10 ^ i"
  shows "itoaLoop i v buf = Returns ((if v = 0 then [] else itoaNat (uint v)) @ buf)"
  using assms
proof (induction i arbitrary: v buf)
  case 0
  then have "v = 0" by (simp add: word_uint_eq_iff) (metis int_one_le_iff_zero_less linorder_not_less order_le_less uint_ge_0)
  then show ?case by (simp add: itoaLoop.simps)
next
  case (Suc i)
  show ?case
  proof (cases "v = 0")
    case False
    have div: "uint (v div 10) = uint v div 10" and md: "uint (v mod 10) = uint v mod 10"
      by (simp_all add: uint_div_distrib uint_mod_distrib)
    have "uint (v div 10) < 10 ^ i" using Suc.prems by (simp add: div div_less_iff_less_mult mult.commute)
    from Suc.IH [OF this] False
    have 1: "itoaLoop (Suc i) v buf =
        Returns ((if v div 10 = 0 then [] else itoaNat (uint v div 10)) @ char_of (48 + unat (v mod 10)) # buf)"
      by (simp add: itoaLoop.simps [of "Suc i"] div)
    have ch: "char_of (48 + unat (v mod 10)) = digitChar (uint v mod 10)"
      using char_of_int [of "48 + unat (v mod 10)"] by (simp add: digitChar_def md)
    have "v div 10 = 0 \<longleftrightarrow> uint v < 10"
      by (auto simp: word_uint_eq_iff div zdiv_eq_0_iff)
    then show ?thesis using 1 ch False by (simp add: itoaNat.simps [of "uint v"])
  qed (simp add: itoaLoop.simps)
qed

lemma fakevllm_itoa_eq: "fakevllm_itoa v = Returns (Itoa (uint v))"
proof -
  have "uint v < 10 ^ 20" using uint_lt2p [of v] by simp
  moreover have "itoaNat 0 = ''0''" by (simp add: itoaNat.simps digitChar_def) code_simp
  moreover have "0 \<le> uint v" by simp
  ultimately show ?thesis
    using itoaLoop_itoaNat [of v 20 "[]"] by (auto simp: fakevllm_itoa_def Itoa_def)
qed

text \<open>
  C40: The hand-written printing of a counter is the decimal representation of every 64-bit value, and
  its buffer of 20 bytes always suffices.
\<close>
theorem fakevllm_itoa_correct: "fakevllm_itoa v = Returns (Itoa (uint v))"
  by (rule fakevllm_itoa_eq)

section \<open>From the counters to the gateway's hit rate\<close>

definition pageItems :: "fakevllm \<Rightarrow> metricItem list" where
  "pageItems st =
     [Comment '' HELP coda_prefix_cache_hits_total Prefix cache hits'',
      Comment '' TYPE coda_prefix_cache_hits_total counter'', Hits False (uint (prefixHits st)),
      Comment '' HELP coda_prefix_cache_queries_total Prefix cache queries'',
      Comment '' TYPE coda_prefix_cache_queries_total counter'', Queries False (uint (prefixQueries st))]"

lemma metricsPage_items: "metricsPage st = Returns (concat (map (\<lambda>i. renderItem i @ [newline]) (pageItems st)))"
  by (simp add: metricsPage_def fakevllm_itoa_eq pageItems_def hitsName_def queriesName_def)

lemma metricsPage_parse:
  "\<exists>page. metricsPage st = Returns page \<and>
     parsePrefixCacheMetrics page = (uint (prefixHits st), uint (prefixQueries st), True)"
proof -
  have "list_all itemOK (pageItems st)"
    using uint_lt2p [of "prefixHits st"] uint_lt2p [of "prefixQueries st"] by (simp add: pageItems_def)
  from parse_page [OF this] show ?thesis by (simp add: metricsPage_items) (simp add: pageItems_def)
qed

definition shared :: "string list \<Rightarrow> bool" where
  "shared messages \<longleftrightarrow> Contains (case messages of [] \<Rightarrow> [] | m # ms \<Rightarrow> m) ''shared-agent-prefix''"

lemma uint_plus1: "uint (v :: 64 word) + 1 < 2 ^ 64 \<Longrightarrow> uint (v + 1) = uint v + 1"
  by (simp add: uint_word_ariths)

lemma chat_counts:
  "uint (prefixQueries st) + int (length reqs) < 2 ^ 64 \<Longrightarrow> uint (prefixHits st) \<le> uint (prefixQueries st) \<Longrightarrow>
   uint (prefixQueries (fold fakevllm_chat reqs st)) = uint (prefixQueries st) + int (length reqs) \<and>
   uint (prefixHits (fold fakevllm_chat reqs st)) = uint (prefixHits st) + int (length (filter shared reqs))"
proof (induction reqs arbitrary: st)
  case (Cons req reqs)
  have "uint (prefixQueries st + 1) = uint (prefixQueries st) + 1" "uint (prefixHits st + 1) = uint (prefixHits st) + 1"
    using Cons.prems by (auto intro!: uint_plus1)
  then have "uint (prefixQueries (fakevllm_chat req st)) = uint (prefixQueries st) + 1"
    "uint (prefixHits (fakevllm_chat req st)) = uint (prefixHits st) + (if shared req then 1 else 0)"
    by (auto simp: fakevllm_chat_def shared_def Let_def)
  with Cons show ?case by (auto split: if_splits)
qed simp

text \<open>
  The gateway's hit rate of a replica is the share of its requests that had the shared prefix:
  after any number of requests the metrics page of the test server, scraped and parsed by the sync
  loop, gives exactly that quotient, which is between 0 and 1.
\<close>
theorem scraped_hit_rate:
  assumes "reqs \<noteq> []" and "int (length reqs) < 2 ^ 64"
    and "metricsPage (fold fakevllm_chat reqs \<lparr>prefixHits = 0, prefixQueries = 0\<rparr>) = Returns page"
    and "x_URLError E (hq_URL (metricsRequest ip)) = None"
    and "fst (x_HTTP E (metricsRequest ip) (world s)) =
      Inr \<lparr>hr_StatusCode = 200, hr_Header = hdr, hr_Body = page, hr_BodyErr = None\<rparr>"
  shows "wp (scrapeKVHitRate E ip) (\<lambda>rate _. \<exists>x. rate = Some x \<and> 0 \<le> x \<and> x \<le> 1 \<and>
     x = f_div (f_of_int (int (length (filter shared reqs)))) (f_of_int (int (length reqs)))) s"
proof -
  let ?st = "fold fakevllm_chat reqs \<lparr>prefixHits = 0, prefixQueries = 0\<rparr>"
  have "uint (prefixQueries ?st) = int (length reqs)" "uint (prefixHits ?st) = int (length (filter shared reqs))"
    using chat_counts [of "\<lparr>prefixHits = 0, prefixQueries = 0\<rparr>" reqs] assms(2) by simp_all
  then have p: "parsePrefixCacheMetrics page = (int (length (filter shared reqs)), int (length reqs), True)"
    using metricsPage_parse [of ?st] assms(3) by simp
  have "0 \<le> f_div (f_of_int (int (length (filter shared reqs)))) (f_of_int (int (length reqs))) \<and>
      f_div (f_of_int (int (length (filter shared reqs)))) (f_of_int (int (length reqs))) \<le> 1"
    using assms(1) by (intro f_div_le_1) auto
  then show ?thesis
    using assms(1, 4, 5) p by (auto simp: scrapeKVHitRate_def wp split_beta)
qed

theorem scraped_hit_rate_witness:
  "\<exists>page. wp (scrapeKVHitRate (idleEnv\<lparr>x_HTTP := (\<lambda>_ w. (Inr \<lparr>hr_StatusCode = 200, hr_Header = Map.empty,
       hr_Body = page, hr_BodyErr = None\<rparr>, w))\<rparr>) ''10.0.0.1'')
     (\<lambda>rate _. \<exists>x. rate = Some x \<and> 0 \<le> x \<and> x \<le> 1) \<lparr>world = (), trace = []\<rparr>"
proof -
  obtain page where page: "metricsPage (fold fakevllm_chat [[''hi'']] \<lparr>prefixHits = 0, prefixQueries = 0\<rparr>) = Returns page"
    using metricsPage_items by blast
  show ?thesis
    using scraped_hit_rate [OF _ _ page, of "idleEnv\<lparr>x_HTTP := (\<lambda>_ w. (Inr \<lparr>hr_StatusCode = 200,
       hr_Header = Map.empty, hr_Body = page, hr_BodyErr = None\<rparr>, w))\<rparr>" "''10.0.0.1''" "\<lparr>world = (), trace = []\<rparr>" Map.empty]
    by (intro exI [of _ page]) (auto simp: idleEnv_def elim!: wp_mono)
qed

end
