(* ===== verification/Load_Test.thy ===== *)
theory Load_Test
  imports Loadgen Fake_VLLM
begin

text \<open>
  The end-to-end test put together: the load generator against the stand-in for vLLM.  The network
  delivers a request to the server at the configured address and the answer back; the state of the
  world is that of the server.
\<close>

definition fakeNet ::
  "string \<Rightarrow> (string \<Rightarrow> string list) \<Rightarrow> (Request \<Rightarrow> Response) \<Rightarrow> (fakevllm \<Rightarrow> gotime) \<Rightarrow> fakevllm env" where
  "fakeNet base decode other clock = idleEnv\<lparr>x_Now := (\<lambda>w. (clock w, w)), x_URLError := (\<lambda>_. None), x_HTTP := (\<lambda>q w.
     case fakevllm_serve decode other
         \<lparr>rq_Path = drop (length base) (hq_URL q), rq_Header = hq_Header q, rq_Body = hq_Body q\<rparr> w of
       (Returns resp, w') \<Rightarrow> (Inr \<lparr>hr_StatusCode = rsp_Status resp, hr_Header = rsp_Header resp,
          hr_Body = rsp_Body resp, hr_BodyErr = None\<rparr>, w')
     | (Panics m, w') \<Rightarrow> (Inl (EMsg ''EOF''), w'))\<rparr>"

lemma fakeNet_calls:
  "x_Now (fakeNet base decode other clock) w = (clock w, w)"
  "x_Sleep (fakeNet base decode other clock) d w = ((), w)"
  "x_URLError (fakeNet base decode other clock) u = None"
  by (simp_all add: fakeNet_def idleEnv_def)

lemma Contains_choices: "Contains fakeAnswer ''choices''"
  by code_simp

text \<open>Every chat is allAnswered with 200 and counted by the server.\<close>

lemma fakeNet_chat:
  assumes "decode (hq_Body q) = pre # ms" and "Contains pre ''shared-agent-prefix''"
    and "hq_URL q = base @ ''/v1/chat/completions''"
  shows "x_HTTP (fakeNet base decode other clock) q w =
    (Inr \<lparr>hr_StatusCode = 200, hr_Header = Map.empty, hr_Body = fakeAnswer, hr_BodyErr = None\<rparr>,
     \<lparr>prefixHits = prefixHits w + 1, prefixQueries = prefixQueries w + 1\<rparr>)"
  using assms by (simp add: fakeNet_def fakevllm_serve_def okResponse_def fakevllm_chat_def Let_def)

text \<open>The counts of the client and of the server after \<open>k\<close> requests, \<open>h\<close> of them the first of a burst.\<close>

definition allAnswered :: "int \<Rightarrow> int \<Rightarrow> loadStats \<Rightarrow> fakevllm \<Rightarrow> loadStats \<Rightarrow> fakevllm \<Rightarrow> bool" where
  "allAnswered k h st w st' w' \<longleftrightarrow> ls_Total st' = ls_Total st + k \<and> ls_Successes st' = ls_Successes st + k \<and>
     ls_FirstHits st' = ls_FirstHits st + h \<and>
     w' = \<lparr>prefixHits = prefixHits w + of_int k, prefixQueries = prefixQueries w + of_int k\<rparr>"

lemma allAnswered_trans:
  "allAnswered k h st w st' w' \<Longrightarrow> allAnswered k' h' st' w' st'' w'' \<Longrightarrow> allAnswered (k + k') (h + h') st w st'' w''"
  by (simp add: allAnswered_def)

lemma allAnswered_refl: "allAnswered 0 0 st w st w"
  by (simp add: allAnswered_def)

text \<open>The server reads the system prompt the client has written, and it has the shared prefix.\<close>

definition prefixedChats :: "loadFlags \<Rightarrow> (chatRequest \<Rightarrow> string) \<Rightarrow> (string \<Rightarrow> string list) \<Rightarrow> bool" where
  "prefixedChats flags marshal decode \<longleftrightarrow> Contains (lf_System flags) ''shared-agent-prefix'' \<and>
     (\<forall>b i n. \<exists>ms. decode (marshal (chatTurn flags b i n)) = lf_System flags # ms)"

lemma test_request:
  assumes "prefixedChats flags marshal decode"
  shows "wp (sendRequest (fakeNet (lf_Gateway flags) decode other clock) marshal intn flags b i st)
    (\<lambda>r s'. \<exists>st'. r = Returns st' \<and> allAnswered 1 (of_bool (i = 0)) st (world s) st' (world s')) s"
proof -
  obtain ms where "decode (marshal (chatTurn flags b i (intn b i))) = lf_System flags # ms"
    using assms unfolding prefixedChats_def by blast
  then have "x_HTTP (fakeNet (lf_Gateway flags) decode other clock)
      (loadRequest flags (marshal (chatTurn flags b i (intn b i)))) w =
      (Inr \<lparr>hr_StatusCode = 200, hr_Header = Map.empty, hr_Body = fakeAnswer, hr_BodyErr = None\<rparr>,
       \<lparr>prefixHits = prefixHits w + 1, prefixQueries = prefixQueries w + 1\<rparr>)" for w
    using assms by (intro fakeNet_chat) (auto simp: prefixedChats_def loadRequest_def)
  then show ?thesis
    by (simp add: sendRequest_def Let_def wp fakeNet_calls allAnswered_def countSuccess_def Contains_choices)
qed

lemma test_sendAll:
  fixes s :: "(fakevllm, event, 'z) sys_scheme"
  assumes "prefixedChats flags marshal decode"
  shows "wp (sendAll (fakeNet (lf_Gateway flags) decode other clock) marshal intn flags b is st)
    (\<lambda>r s'. \<exists>st'. r = Returns st' \<and>
       allAnswered (int (length is)) (int (length (filter (\<lambda>i. i = 0) is))) st (world s) st' (world s')) s"
proof (induction "is" arbitrary: st s)
  case (Cons i "is")
  have step: "wp (sendAll (fakeNet (lf_Gateway flags) decode other clock) marshal intn flags b is st')
      (\<lambda>r s''. \<exists>st''. r = Returns st'' \<and> allAnswered (int (length (i # is)))
         (int (length (filter (\<lambda>i. i = 0) (i # is)))) st (world s) st'' (world s'')) s'"
    if "allAnswered 1 (of_bool (i = 0)) st (world s) st' (world s')" for st' and s' :: "(fakevllm, event, 'z) sys_scheme"
    using Cons.IH [of st' s'] by (rule wp_mono) (auto dest!: allAnswered_trans [OF that])
  show ?case
    by (simp only: sendAll.simps wp_bind, rule wp_mono [OF test_request [OF assms, of other clock intn b i st s]])
      (use step in auto)
qed (simp add: wp allAnswered_refl)

lemma test_burst:
  fixes s :: "(fakevllm, event, 'z) sys_scheme"
  assumes "prefixedChats flags marshal decode"
  shows "wp (oneBurst (fakeNet (lf_Gateway flags) decode other clock) marshal intn flags b st)
    (\<lambda>r s'. \<exists>st'. r = Returns st' \<and>
       allAnswered (max 0 (lf_BurstSize flags)) (of_bool (0 < lf_BurstSize flags)) st (world s) st' (world s')) s"
proof -
  have n: "int (length (filter (\<lambda>i. i = 0) [0 .. lf_BurstSize flags - 1])) = of_bool (0 < lf_BurstSize flags)"
    "int (length [0 .. lf_BurstSize flags - 1]) = max 0 (lf_BurstSize flags)"
    by (simp_all add: first_of_burst)
  have all: "wp (sendAll (fakeNet (lf_Gateway flags) decode other clock) marshal intn flags b [0 .. lf_BurstSize flags - 1] st)
    (\<lambda>r s'. \<exists>st'. r = Returns st' \<and>
       allAnswered (max 0 (lf_BurstSize flags)) (of_bool (0 < lf_BurstSize flags)) st (world s) st' (world s')) s'"
    if "world s' = world s" for s' :: "(fakevllm, event, 'z) sys_scheme"
    using test_sendAll [OF assms, of other clock intn b "[0 .. lf_BurstSize flags - 1]" st s'] unfolding n that .
  show ?thesis
    unfolding oneBurst_def
    by (auto simp: wp fakeNet_calls allAnswered_def intro!: wp_mono [OF all])
qed

lemma test_bursts:
  fixes s :: "(fakevllm, event, 'z) sys_scheme"
  assumes "prefixedChats flags marshal decode"
  shows "wp (allBursts (fakeNet (lf_Gateway flags) decode other clock) marshal intn flags bs st)
    (\<lambda>r s'. \<exists>st'. r = Returns st' \<and> allAnswered (int (length bs) * max 0 (lf_BurstSize flags))
       (int (length bs) * of_bool (0 < lf_BurstSize flags)) st (world s) st' (world s')) s"
proof (induction bs arbitrary: st s)
  case (Cons b bs)
  have step: "wp (allBursts (fakeNet (lf_Gateway flags) decode other clock) marshal intn flags bs st')
      (\<lambda>r s''. \<exists>st''. r = Returns st'' \<and> allAnswered (int (length (b # bs)) * max 0 (lf_BurstSize flags))
         (int (length (b # bs)) * of_bool (0 < lf_BurstSize flags)) st (world s) st'' (world s'')) s'"
    if "allAnswered (max 0 (lf_BurstSize flags)) (of_bool (0 < lf_BurstSize flags)) st (world s) st' (world s')"
    for st' and s' :: "(fakevllm, event, 'z) sys_scheme"
    using Cons.IH [of st' s'] by (rule wp_mono) (auto dest!: allAnswered_trans [OF that] simp: distrib_right)
  show ?case
    by (simp only: allBursts.simps wp_bind, rule wp_mono [OF test_burst [OF assms, of other clock intn b st s]])
      (use step in auto)
qed (simp add: wp allAnswered_refl)

text \<open>
  C27: The end-to-end test measures what it should when everything works: against a server that answers,
  with a system prompt that has the shared prefix, the load generator reports the configured number of
  requests, all of them successful, and a first-hit rate of 1; and the server has counted each request
  once, each as a hit, so the hit rate it exports is 1 as well.
\<close>
theorem load_test_end_to_end:
  assumes "prefixedChats flags marshal decode" and "lf_Token flags \<noteq> []" and "0 < lf_Bursts flags" and "0 < lf_BurstSize flags"
    and "lf_Bursts flags * lf_BurstSize flags < 2 ^ 64"
  shows "wp (loadgen_main (fakeNet (lf_Gateway flags) decode other clock) marshal intn flags) (\<lambda>r s'. \<exists>u.
     r = Returns (Summary \<lparr>sm_Requests = lf_Bursts flags * lf_BurstSize flags,
       sm_Successes = lf_Bursts flags * lf_BurstSize flags, sm_Utilization = u, sm_FirstHitRate = 1\<rparr>) \<and>
     uint (prefixQueries (world s')) = lf_Bursts flags * lf_BurstSize flags \<and>
     uint (prefixHits (world s')) = lf_Bursts flags * lf_BurstSize flags)
     \<lparr>world = \<lparr>prefixHits = 0, prefixQueries = 0\<rparr>, trace = []\<rparr>"
proof -
  have "uint (of_int n :: 64 word) = n" if "0 \<le> n" "n < 2 ^ 64" for n
    using that by (simp add: uint_word_of_int)
  note w = this [of "lf_Bursts flags * lf_BurstSize flags"]
  have "f_div (f_of_int (lf_Bursts flags)) (f_of_int (lf_Bursts flags)) = 1"
    using fl_pos [of "of_int (lf_Bursts flags)"] assms(3) by (simp add: f_div_def f_of_int_def fl_1)
  then show ?thesis
    unfolding loadgen_main_def if_not_P [OF assms(2)] wp_bind
    using assms(3-5) w
    by (intro wp_mono [OF test_bursts [OF assms(1)]]) (auto simp: wp allAnswered_def zeroStats_def summarise_def)
qed

theorem load_test_end_to_end_witness:
  "wp (loadgen_main (fakeNet (lf_Gateway loadDefaults) (\<lambda>body. [body]) (\<lambda>_. okResponse []) (\<lambda>_. 0))
       (\<lambda>rq. cm_Content (hd (cr_Messages rq))) (\<lambda>_ _. 7) (loadDefaults\<lparr>lf_Token := ''id:secret''\<rparr>))
     (\<lambda>r s'. uint (prefixHits (world s')) = 40) \<lparr>world = \<lparr>prefixHits = 0, prefixQueries = 0\<rparr>, trace = []\<rparr>"
proof -
  have "Contains (lf_System loadDefaults) ''shared-agent-prefix''" by code_simp
  then have "prefixedChats (loadDefaults\<lparr>lf_Token := ''id:secret''\<rparr>) (\<lambda>rq. cm_Content (hd (cr_Messages rq))) (\<lambda>body. [body])"
    by (simp add: prefixedChats_def chatTurn_def)
  from load_test_end_to_end [OF this, of "\<lambda>_. okResponse []" "\<lambda>_. 0" "\<lambda>_ _. 7"]
  show ?thesis by (auto simp: loadDefaults_def elim!: wp_mono)
qed

end
