(* ===== verification/Spec2Isabelle.thy ===== *)
theory Spec2Isabelle
  imports Fleet Watches Entry_Points Price_Sync Load_Test
begin

text \<open>
  OpenCoda: a control plane for serverless GPU inference on Kubernetes.

  \<^bold>\<open>The program.\<close>  Four reconcilers run in the controller manager.  The \<^emph>\<open>buffer\<close> controller keeps a
  number of warm GPU nodes: it computes a target from a policy, asks the \<^emph>\<open>scheduler\<close> how to spread the
  missing nodes over the pools, launches them through the \<^emph>\<open>capacity providers\<close> (static, AWS, GCP) and
  records them in the pool's status, or drains and releases surplus ones.  The \<^emph>\<open>pool\<close> controller copies
  the provider's capacity report into the pool and refreshes the node records from the cluster.  The
  \<^emph>\<open>health\<close> controller labels nodes that pass their checks and takes a node with a critical Xid out of
  service.  The \<^emph>\<open>endpoint\<close> controller creates and drains the pods of a model endpoint, rendered by the
  \<^emph>\<open>engine\<close> and \<^emph>\<open>KV\<close> plugins.  The \<^emph>\<open>gateway\<close> is a process of its own: it checks bearer tokens, routes
  chat requests to replicas, and runs a loop that registers ready replicas, scrapes their metrics and
  writes the autoscaler's decision and the demand signal back to the cluster, where the endpoint and
  buffer controllers read them.  A \<^emph>\<open>webhook\<close> admits endpoints, a \<^emph>\<open>node agent\<close> prefetches images, a
  job reads a \<^emph>\<open>price catalogue\<close>, and \<open>coda\<close> is the command line.  The end-to-end tests bring a
  stand-in for vLLM and a load generator.

  \<^bold>\<open>Theories and sources\<close> (paths under \<open>src/\<close>).
  \<^item> \<open>Float64\<close>, \<open>Go_Lib\<close>, \<open>Csv\<close>, \<open>Json\<close>: what the code uses of Go's float64 (rationals with every operation
    rounded to 53 bits), \<open>strings\<close>, \<open>strconv\<close>, \<open>time.ParseDuration\<close>, \<open>encoding/csv\<close> and \<open>encoding/json\<close>
    (UTF-8, the quoting of strings, the scanner, objects as maps of raw values, and that what is encoded
    decodes to the same fields).
  \<^item> \<open>Prelude\<close>, \<open>Kube\<close>: errors, times, the state monad of the handlers with its weakest preconditions
    (\<open>wp\<close>) and trace judgement (\<open>emits\<close>); the objects of the Kubernetes API and the record \<open>env\<close> of
    external calls.
  \<^item> \<open>Api_Types\<close>, \<open>Capacity_Types\<close>: \<open>api/v1alpha1/opencoda_types.go\<close>, \<open>internal/constants\<close>,
    \<open>pkg/capacity/provider.go\<close>; one record per struct, one field per field the code reads or writes.
  \<^item> \<open>Go_Heap\<close>, \<open>Deep_Copy\<close>: Go values in memory, by type, with pointers, slices and maps as addresses; the
    types of \<open>opencoda_types.go\<close>, all of them and with all their fields, as descriptions \<open>ty_\<close>; and the
    methods of \<open>zz_generated.deepcopy.go\<close>, statement by statement, as programs on that memory.
  \<^item> \<open>Scheduler\<close>: \<open>pkg/scheduler\<close>.  \<open>Providers\<close>: \<open>pkg/capacity\<close> with its providers, registry, cache and
    bootstrap scripts, \<open>internal/capacityfactory\<close>.
  \<^item> \<open>Buffer_Controller\<close>, \<open>Pool_Controller\<close>, \<open>Health_Controller\<close>, \<open>Endpoint_Controller\<close>:
    \<open>internal/controller\<close>.  \<open>Engine_KV\<close>: \<open>pkg/engine\<close>, \<open>pkg/kv\<close>.  \<open>Buffer_Loop\<close>: many reconciliations of
    one policy, against the store behind the API server.
  \<^item> \<open>Metrics\<close>: \<open>internal/metrics\<close>.  \<open>Manager\<close>: \<open>cmd/coda-controller-manager\<close>, the four controllers as jobs
    of one process.  \<open>Watches\<close>: the \<open>SetupWithManager\<close> of the controllers and the scheme, what wakes which
    job.  \<open>Fleet\<close>: the node records of the pools under all jobs of the manager at once, event by event,
    with users, stale reads and the version check of the API server.  \<open>Entry_Points\<close>: the other programs of \<open>cmd/\<close>, the constructors of the gateway.
  \<^item> \<open>Gateway\<close>: \<open>internal/gateway/server.go\<close> and \<open>token.go\<close>; \<open>Gateway_Sync\<close>: \<open>k8s.go\<close>;
    \<open>Gateway_Steps\<close>: the same operations as an interleaved transition system.
  \<^item> \<open>Price_Sync\<close>: \<open>pkg/capacity/pricesync\<close>.  \<open>Node_Agent\<close>: \<open>internal/nodeagent\<close>.  \<open>Webhook\<close>:
    \<open>internal/webhook\<close>.  \<open>Cli\<close>: \<open>cli\<close>.  \<open>Fake_VLLM\<close>: \<open>test/e2e/fakevllm\<close>.  \<open>Loadgen\<close>: \<open>test/e2e/loadgen\<close>;
    \<open>Load_Test\<close>: the two together.
  \<^item> This theory: the properties that span components.

  \<^bold>\<open>State, effects and errors.\<close>  A handler is a state-monad program over a record with the external
  world and the trace of calls made to it; a component's own memory extends the record (provider
  cache, idle times and cold-start samples, router and demand).  Every call to Kubernetes, a cloud, the
  clock, HTTP, a command or the file system is a function of \<open>env\<close> that may answer anything and change
  the world in any way, so a theorem over all \<open>env\<close> holds against every behaviour of other actors.
  Errors are \<open>Inl\<close> values of a sum or \<open>Some\<close> errors; a run-time panic is \<open>Panics\<close> of \<open>outcome\<close>.  Where Go
  iterates over a map, the order is an argument, of which only \<open>map_order\<close> is known.

  \<^bold>\<open>Interfaces.\<close>  \<open>registry\<close> (register and get) is interpreted on the provider, factory, engine and KV
  registries; \<open>capacity_provider\<close> (a quote has no effect, an exhausted launch is remembered and reported)
  on the sum of the three providers; \<open>sort_slice\<close> (the contract of Go's \<open>sort.Slice\<close>) on an insertion sort,
  which is one such sort, and \<open>scheduler\<close> (the plan respects need, limits and availability) on the greedy \<open>Fill\<close>; \<open>load_counter\<close>
  (enter and leave a counted queue) on the router; \<open>audit\<close> with its extensions \<open>launch_audit\<close>,
  \<open>release_audit\<close> and \<open>fleet_audit\<close> (a predicate on events that allows reading, launching, destroying)
  on the duties of the manager's jobs.  The controller runtime is an argument with the contract
  \<open>enqueueOK\<close>.

  \<^bold>\<open>What is shown.\<close>  Scheduler: the greedy plan is complete and of least cost.  Buffer controller: one
  reconciliation launches and releases no more than the difference to its target, within the spend
  ceiling; the target of a dynamic policy lies within the policy's bounds and grows with the demand,
  until the demand overflows an \<open>int\<close> and the target falls to the minimum; releases follow a cordon, concern only old buffered records, and launches are recorded
  exactly (or, after a failure, not at all); however often it runs, it launches no more than were
  missing at the start, as long as what is read is what was written and nothing fails.  Pool controller:
  refreshing is idempotent and loses no record.  All controllers together: in every interleaving, the
  stored records of a pool evolve by the steps of an abstract specification (a node is launched, found,
  or moved on), so that none is lost, overtaken or confused with another.  Health controller: labels follow the boot check, and on a critical Xid the node
  is cordoned, emptied, released and unmarked, each step with exactly its calls and in this order.
  Endpoint controller: what is created and deleted, bounds of the replica count, the rendered pod, how
  its count of ready pods stalls a scale-up, and that no replica is ever taken away again.  Gateway: the token check guards every handler but the
  health page; a created token is accepted; requests go to a serving endpoint; replicas take turns;
  the body passed on has the fields of the client's but for the model;
  concurrent requests keep the queue counters between zero and the number of waiting requests, while the
  in-flight counter counts the replicas picked since the endpoint was last registered and never falls when a
  request ends; the sequential handlers are runs of that system; the sync loop
  registers ready pods, parses metrics pages and, by registering anew, hides the load from the
  autoscaler.  Price catalogue: a sync ends and stores the last price of each type unless the
  connection breaks, when it never ends.  API types: a deep copy reads like its original and shares
  no memory with it.  Manager: no job goes beyond the duties of its controller (only a policy's
  launches nodes, no script carries the join token, system pods are left alone), every observed
  metric is declared with as many labels, and a change wakes the one reconciler of its kind, while the
  pods it creates wake none.  Load generator: its counts are bounded and, against the
  fake server, exact.  Across components: the life of a node from launch to
  release, the path of a capacity error to the scheduler's cost, and the path of the autoscaler's
  decision to the endpoint controller.

  \<^bold>\<open>Bounds and loops.\<close>  All recursion is structural or has a measure, with two exceptions.
  \<open>parseComponents\<close> of \<open>ParseDuration\<close> has the length of the text as fuel, and a lemma that more does not
  change the result.  The row loop of the price catalogue can run for ever and is a
  \<open>partial_function\<close>: theorems state when it returns and when it does not.  Go's \<open>int\<close> is unbounded here
  but where a width matters: parsing of integers is bounded to 64 bits, the warm target is converted from a
  float and added up in 64 bits (out of range, the conversion gives what it gives on amd64, the least
  integer), and fingerprints and the counters of the fake server are 64-bit words.

  \<^bold>\<open>Not modelled.\<close>  Logging; the SDKs of Kubernetes, AWS and GCP, the Prometheus client, cobra,
  SHA-256, RFC 3339, the parsing of floats, their JSON encoding and the JSON of the load generator and the fake
  server, which are parameters; infinities and NaN; in the models of
  the controllers, the difference between nil and empty maps but for the one write that panics, and
  aliasing, which \<open>Deep_Copy\<close> treats on its own; the work queue of the controller runtime: the jobs of a manager
  run one after another in \<open>Manager\<close>, and in \<open>Fleet\<close> interleaved at their calls, where each run starts from
  any memory instead of the shared provider cache; the deep copies of the Kubernetes types inside the API types, which
  are parameters with the contract \<open>extOK\<close>; the interface \<open>pkg/weights\<close>, which nothing implements or calls.
\<close>

section \<open>From the autoscaler to the endpoint controller\<close>

lemma clamp_within:
  assumes "sc_MinReplicas (ep_Scaling ep) \<le> sc_MaxReplicas (ep_Scaling ep)"
  shows "sc_MinReplicas (ep_Scaling ep) \<le> clampReplicas ep load" "clampReplicas ep load \<le> sc_MaxReplicas (ep_Scaling ep)"
  using assms by (simp_all add: clampReplicas_def Let_def)

text \<open>
  C16: The gateway's autoscaler and the endpoint controller meet in an annotation that the one writes
  and the other reads: the controller reconciles to exactly the number the autoscaler computed,
  whatever its state.  In particular the scale-to-zero window changes nothing: an endpoint for which
  the autoscaler asks for no replica is reconciled to none at once.
\<close>
theorem autoscaler_drives_replicas:
  assumes "0 \<le> sc_MinReplicas (ep_Scaling ep)"
    and "sc_MinReplicas (ep_Scaling ep) \<le> sc_MaxReplicas (ep_Scaling ep)"
    and "sc_MaxReplicas (ep_Scaling ep) < 2 ^ 63"
  shows "wp (desiredReplicas E (annotateDesired ep (fst (Evaluate ewma ep inFlight queueDepth))))
    (\<lambda>n s'. n = fst (Evaluate ewma ep inFlight queueDepth)) s"
proof -
  let ?d = "clampReplicas ep (inFlight + queueDepth)"
  have "Atoi (Itoa ?d) = Some ?d"
    by (rule Atoi_Itoa) (use assms clamp_within [of ep "inFlight + queueDepth"] in linarith)+
  moreover have "ep_Scaling (annotateDesired ep ?d) = ep_Scaling ep"
    "om_Annotations (ep_Meta (annotateDesired ep ?d)) AnnotationDesiredReplicas = Some (Itoa ?d)"
    by (simp_all add: annotateDesired_def)
  ultimately show ?thesis
    using assms clamp_within [of ep "inFlight + queueDepth"]
    by (auto simp: desiredReplicas_def Let_def wp split: option.split)
qed

text \<open>An endpoint that may scale to zero after five idle minutes, and is idle.\<close>

definition sleepyEndpoint :: CodaEndpoint where
  "sleepyEndpoint = zeroEndpoint\<lparr>ep_Meta := zeroMeta\<lparr>om_Name := ''e'', om_Namespace := ''n''\<rparr>,
     ep_Spec := (ep_Spec zeroEndpoint)\<lparr>eps_Scaling := \<lparr>sc_MinReplicas = 0, sc_MaxReplicas = 4,
       sc_Target = \<lparr>st_Metric = [], st_Value = 0\<rparr>, sc_ScaleToZeroAfter = ''5m''\<rparr>\<rparr>\<rparr>"

theorem autoscaler_drives_replicas_witness:
  "wp (desiredReplicas idleEnv (annotateDesired sleepyEndpoint (fst (Evaluate [] sleepyEndpoint 0 0)))) (\<lambda>n s'. n = 0) (epState ())"
proof -
  have "fst (Evaluate [] sleepyEndpoint 0 0) = 0"
    by (simp add: clampReplicas_def sleepyEndpoint_def zeroEndpoint_def goDiv_def)
  then show ?thesis
    using autoscaler_drives_replicas [of sleepyEndpoint idleEnv "[]" 0 0 "epState ()"]
    by (simp add: sleepyEndpoint_def zeroEndpoint_def)
qed

section \<open>From a failed launch to the scheduler\<close>

lemma report_penalty:
  "pv_ICEPenalty (poolView (applyReport cr pool) now) =
     (if now < (if cr_RecentICE cr = [] then oc_LastICE (pool_Observed pool) else last (cr_RecentICE cr)) + 15 * minute
      then 2 else 1)"
  "pv_Priority (poolView (applyReport cr pool) now) = gps_Priority (pool_Spec pool)"
  "pv_ObservedHourlyUSD (poolView (applyReport cr pool) now) = cr_ObservedHourlyUSD cr"
  by (simp_all add: poolView_def applyReport_def algebra_simps)

text \<open>
  C17: Insufficient capacity reaches the scheduler: after a launch that the cloud refused for lack of
  capacity, the report that the pool controller stores makes the buffer controller show the pool to
  the scheduler with its price doubled for fifteen minutes from the refusal, and at its own price
  from then on; after any other launch the penalty is what the earlier refusals left.
\<close>
theorem ice_penalises_pool:
  "emits (do { (r, p1) \<leftarrow> provider_Provision E p off; (rep, p2) \<leftarrow> provider_Capacity E p1 (pool_Name pool); ret (r, rep) })
     (\<lambda>(r, rep) es. \<exists>cr. rep = Inr cr \<and>
        (if exhausted es
         then r = Returns (Inl EICE) \<and> (\<exists>t. Clock t \<in> set es \<and>
           (\<forall>now. cost (poolView (applyReport cr pool) now) =
              f_add (f_of_int (gps_Priority (pool_Spec pool)))
                (f_mul (cr_ObservedHourlyUSD cr) (if now < t + 15 * minute then 2 else 1))))
         else (\<forall>now. pv_ICEPenalty (poolView (applyReport cr pool) now) =
           (if now < (if provider_ICE p = [] then oc_LastICE (pool_Observed pool) else last (provider_ICE p)) + 15 * minute
            then 2 else 1))))"
  by (rule emits_mono [OF prov.ice_reported]) (force simp: cost_def report_penalty split: if_splits)

section \<open>The life of a node\<close>

text \<open>
  A node is launched through a provider and recorded in its pool; the pool controller refreshes the
  records; then the node is released with the handle made of its record.
\<close>

definition nodeLifecycle ::
  "(string list \<Rightarrow> string list) \<Rightarrow> Node list \<Rightarrow> 'w env \<Rightarrow> provider \<Rightarrow> Offer \<Rightarrow> GPUPool \<Rightarrow> ('w, 'z, bool) io" where
  "nodeLifecycle ord items E p offer pool = do {
     (r, p) \<leftarrow> provider_Provision E p offer;
     case r of
       Returns (Inr h) \<Rightarrow> do {
         let pool' = applyNodes ord items (addProvisioned (pool_Name pool) h pool);
         let rec = pool_Records pool' ! length (pool_Records pool);
         (err, p) \<leftarrow> provider_Release E p (recordHandle rec);
         ret True
       }
     | _ \<Rightarrow> ret False
   }"

lemma record_of_launched:
  "recordHandle (pool_Records (applyNodes ord items (addProvisioned poolName h pool)) ! length (pool_Records pool)) =
     h\<lparr>nh_Labels := Map.empty, nh_LaunchedAt := zeroTime\<rparr>"
  by (simp add: applyNodes_eq Let_def nth_append addProvisioned_def recordHandle_def provisionedRecord_def)

lemma handleInstances_record [simp]: "handleInstances p (h\<lparr>nh_Labels := ls, nh_LaunchedAt := t\<rparr>) = handleInstances p h"
  by (simp add: handleInstances_def split: provider.split)

text \<open>
  C7: A node is never left behind or mistaken for another: the release of a node by the handle made
  of its record destroys exactly the instance that its launch created, with the same credentials and
  in the same project and zone, although the pool controller has refreshed the records in between
  with whatever nodes it listed.  The static provider creates nothing.
\<close>
theorem node_lifecycle:
  assumes "poolNamed p"
  shows "emits (nodeLifecycle ord items E p offer pool) (\<lambda>done es. done \<longrightarrow> sane (created es) \<longrightarrow>
     destroyed es = created es \<and> (created es = [] \<longleftrightarrow> (\<exists>x. p = Static x)))"
  unfolding nodeLifecycle_def
  by (rule emits_bind_prod [OF provider_launches [OF assms]])
    (auto intro!: emits emits_bind_prod [OF provider_Release_effect] simp: launches_def record_of_launched
      split: outcome.split sum.split)

theorem node_lifecycle_witness:
  "wp (nodeLifecycle rev twoNodes launchEnv (Aws demoAws) demoOffer zeroPool) (\<lambda>done s. done \<and>
     created (trace s) = [EC2 (aws_client demoAws) ''i-1''] \<and> destroyed (trace s) = created (trace s)) demoState"
proof -
  have "wp (nodeLifecycle rev twoNodes launchEnv (Aws demoAws) demoOffer zeroPool) (\<lambda>done s. done \<and>
     created (trace s) = [EC2 (aws_client demoAws) ''i-1'']) demoState"
    by (simp add: nodeLifecycle_def provider_Provision_def provider_Release_def onProvider_def
        aws_Provision_def aws_Release_def resolveAMI_def latestGPUAMI_def record_of_launched
        wp launchEnv_def idleEnv_def demoState_def demoAws_def TrimSpace_def Let_def parseInstanceID_def)
  moreover have "poolNamed (Aws demoAws)" by (simp add: poolNamed_def)
  ultimately show ?thesis
    using emits_wp [OF node_lifecycle, of "Aws demoAws" rev twoNodes launchEnv demoOffer zeroPool demoState]
    by (auto simp: wp_def demoState_def sane_def split: prod.splits)
qed

end
